(* ===== verification/Prelude.thy ===== *)
theory Prelude
  imports Main "HOL-Library.Word"
begin

text \<open>
  Shared vocabulary of the development: ordered maps (the \<open>IndexMap\<close> the program uses for
  its plan), byte strings with the few operations of \<open>str\<close> the source calls, and the
  three interfaces several components meet: a key-value store, a transition system with an
  invariant, and a capped doubling delay.

  A Rust \<open>String\<close> is a list of bytes (\<open>char list\<close>); the text the daemon handles is taken
  to be ASCII, where the byte operations and the character operations of \<open>str\<close> agree.
\<close>

named_theorems str_simps \<open>evaluation of the string helpers\<close>

type_synonym u32 = "32 word"

subsection \<open>Ordered maps\<close>

text \<open>
  An insertion-ordered map is the list of its entries. Inserting an existing key keeps the
  key's position, a new key goes to the end, and \<open>shift_remove\<close> keeps the order of the rest.
\<close>

type_synonym ('k, 'v) indexmap = "('k \<times> 'v) list"

fun im_insert :: "'k \<Rightarrow> 'v \<Rightarrow> ('k, 'v) indexmap \<Rightarrow> ('k, 'v) indexmap" where
  "im_insert k v [] = [(k, v)]"
| "im_insert k v ((k', v') # m) =
     (if k = k' then (k, v) # m else (k', v') # im_insert k v m)"

definition im_remove :: "'k \<Rightarrow> ('k, 'v) indexmap \<Rightarrow> ('k, 'v) indexmap" where
  "im_remove k m = filter (\<lambda>e. fst e \<noteq> k) m"

definition im_extend :: "('k, 'v) indexmap \<Rightarrow> ('k, 'v) indexmap \<Rightarrow> ('k, 'v) indexmap" where
  "im_extend m xs = fold (\<lambda>e. im_insert (fst e) (snd e)) xs m"

abbreviation im_keys :: "('k, 'v) indexmap \<Rightarrow> 'k list" where
  "im_keys m \<equiv> map fst m"

definition im_contains :: "('k, 'v) indexmap \<Rightarrow> 'k \<Rightarrow> bool" where
  "im_contains m k \<longleftrightarrow> map_of m k \<noteq> None"

definition im_wf :: "('k, 'v) indexmap \<Rightarrow> bool" where
  "im_wf m \<longleftrightarrow> distinct (im_keys m)"

lemma map_of_im_insert [simp]: "map_of (im_insert k v m) = (map_of m)(k \<mapsto> v)"
  by (induction k v m rule: im_insert.induct) (auto simp: fun_eq_iff)

lemma map_of_im_remove [simp]: "map_of (im_remove k m) = (map_of m)(k := None)"
  by (induction m) (auto simp: im_remove_def fun_eq_iff)

lemma keys_im_insert: "im_keys (im_insert k v m) = (if k \<in> fst ` set m then im_keys m else im_keys m @ [k])"
  by (induction k v m rule: im_insert.induct) auto

lemma set_keys_im_insert [simp]: "fst ` set (im_insert k v m) = insert k (fst ` set m)"
  by (induction k v m rule: im_insert.induct) auto

lemma set_keys_im_remove [simp]: "fst ` set (im_remove k m) = fst ` set m - {k}"
  by (auto simp: im_remove_def)

lemma im_insert_append: "k \<notin> fst ` set m \<Longrightarrow> im_insert k v m = m @ [(k, v)]"
  by (induction k v m rule: im_insert.induct) auto

lemma im_wf_Nil [simp]: "im_wf []"
  by (simp add: im_wf_def)

lemma im_wf_insert [intro]: "im_wf m \<Longrightarrow> im_wf (im_insert k v m)"
  by (simp add: im_wf_def keys_im_insert)

lemma im_wf_remove [intro]: "im_wf m \<Longrightarrow> im_wf (im_remove k m)"
  by (simp add: im_wf_def im_remove_def distinct_map_filter)

lemma im_wf_extend [intro]: "im_wf m \<Longrightarrow> im_wf (im_extend m xs)"
  unfolding im_extend_def by (induction xs arbitrary: m) auto

lemma im_contains_iff: "im_contains m k \<longleftrightarrow> k \<in> fst ` set m"
  by (auto simp: im_contains_def map_of_eq_None_iff)

lemma im_wf_get: "im_wf m \<Longrightarrow> (k, v) \<in> set m \<Longrightarrow> map_of m k = Some v"
  by (simp add: im_wf_def)

lemma map_of_im_extend: "map_of (im_extend m xs) k =
    (case map_of (rev xs) k of Some v \<Rightarrow> Some v | None \<Rightarrow> map_of m k)"
  unfolding im_extend_def
  by (induction xs arbitrary: m) (auto simp: map_add_Some_iff map_add_def split: option.splits)

lemma keys_im_extend: "fst ` set (im_extend m xs) = fst ` set m \<union> fst ` set xs"
  unfolding im_extend_def by (induction xs arbitrary: m) auto

subsection \<open>Interface: a key-value store\<close>

text \<open>
  What the identity store, the alert sender's status table and the plan's tables promise:
  a lookup returns the last value stored under a key, and removal forgets it.
\<close>

locale kv_store =
  fixes get :: "'m \<Rightarrow> 'k \<Rightarrow> 'v option"
    and put :: "'k \<Rightarrow> 'v \<Rightarrow> 'm \<Rightarrow> 'm"
  assumes get_put: "get (put k v m) k' = (if k' = k then Some v else get m k')"
begin

lemma get_put_same: "get (put k v m) k = Some v"
  by (simp add: get_put)

lemma get_put_other: "k' \<noteq> k \<Longrightarrow> get (put k v m) k' = get m k'"
  by (simp add: get_put)

text \<open>A batch of writes: the last write of a key wins, untouched keys keep their value.\<close>

lemma get_fold_put: "get (fold (\<lambda>e. put (fst e) (snd e)) xs m) k =
    (case map_of (rev xs) k of Some v \<Rightarrow> Some v | None \<Rightarrow> get m k)"
  by (induction xs arbitrary: m) (auto simp: get_put map_add_def split: option.splits)

lemma get_fold_put_other: "k \<notin> fst ` set xs \<Longrightarrow> get (fold (\<lambda>e. put (fst e) (snd e)) xs m) k = get m k"
  by (induction xs arbitrary: m) (auto simp: get_put)

end

locale kv_removal = kv_store +
  fixes del :: "'k \<Rightarrow> 'm \<Rightarrow> 'm"
  assumes get_del: "get (del k m) k' = (if k' = k then None else get m k')"
begin

lemma get_fold_del: "get (fold del ks m) k = (if k \<in> set ks then None else get m k)"
  by (induction ks arbitrary: m) (auto simp: get_del)

lemma put_del: "get (put k v (del k m)) = get (put k v m)"
  by (auto simp: get_put get_del)

end

interpretation im: kv_removal map_of im_insert im_remove
  by unfold_locales auto

subsection \<open>Interface: a transition system with an invariant\<close>

text \<open>
  Every actor of the program is a loop over events. A run is a list of events; the states a
  run can reach from an initial state, by any sequence of enabled steps, are \<open>reach\<close>.
\<close>

inductive reach :: "('s \<Rightarrow> bool) \<Rightarrow> ('s \<Rightarrow> 's \<Rightarrow> bool) \<Rightarrow> 's \<Rightarrow> bool" for init step where
  reach_init: "init s \<Longrightarrow> reach init step s"
| reach_step: "reach init step s \<Longrightarrow> step s t \<Longrightarrow> reach init step t"

locale invariant_system =
  fixes init :: "'s \<Rightarrow> bool"
    and step :: "'s \<Rightarrow> 's \<Rightarrow> bool"
    and inv :: "'s \<Rightarrow> bool"
  assumes inv_init: "init s \<Longrightarrow> inv s"
    and inv_step: "inv s \<Longrightarrow> step s t \<Longrightarrow> inv t"
begin

lemma reach_inv: "reach init step s \<Longrightarrow> inv s"
  by (induction rule: reach.induct) (auto intro: inv_init inv_step)

end

subsection \<open>Interface: a capped doubling delay\<close>

text \<open>
  The reconnect loops of the program (log push, relay sink, relay sources) all keep a delay
  that starts at a base value and is doubled after each failure up to a cap.
\<close>

locale doubling_delay =
  fixes base :: nat and cap :: nat and next_delay :: "nat \<Rightarrow> nat"
  assumes next_eq: "next_delay d = min (d * 2) cap"
begin

lemma iterate_le_cap: "(next_delay ^^ Suc n) d \<le> cap"
  by (simp add: next_eq)

lemma iterate_eq: "base \<le> cap \<Longrightarrow> (next_delay ^^ n) base = min (base * 2 ^ n) cap"
proof (induction n)
  case 0
  then show ?case by simp
next
  case (Suc n)
  then show ?case by (simp add: next_eq min_def mult.commute)
qed

lemma iterate_mono: "base \<le> cap \<Longrightarrow> m \<le> n \<Longrightarrow> (next_delay ^^ m) base \<le> (next_delay ^^ n) base"
  by (simp add: iterate_eq min_le_iff_disj min.coboundedI1 power_increasing)

end

subsection \<open>Strings\<close>

definition is_ascii_digit :: "char \<Rightarrow> bool" where
  "is_ascii_digit c \<longleftrightarrow> 48 \<le> (of_char c :: nat) \<and> (of_char c :: nat) \<le> 57"

definition digit_val :: "char \<Rightarrow> nat" where
  "digit_val c = of_char c - 48"

definition is_whitespace :: "char \<Rightarrow> bool" where
  "is_whitespace c \<longleftrightarrow> (of_char c :: nat) \<in> {9, 10, 11, 12, 13, 32}"

definition ascii_lower :: "char \<Rightarrow> char" where
  "ascii_lower c =
     (if 65 \<le> (of_char c :: nat) \<and> (of_char c :: nat) \<le> 90 then char_of ((of_char c :: nat) + 32) else c)"

definition to_ascii_lowercase :: "string \<Rightarrow> string" where
  "to_ascii_lowercase s = map ascii_lower s"

definition trim :: "string \<Rightarrow> string" where
  "trim s = rev (dropWhile is_whitespace (rev (dropWhile is_whitespace s)))"

fun starts_with :: "string \<Rightarrow> string \<Rightarrow> bool" where
  "starts_with s [] = True"
| "starts_with [] (p # ps) = False"
| "starts_with (c # s) (p # ps) = (c = p \<and> starts_with s ps)"

definition ends_with :: "string \<Rightarrow> string \<Rightarrow> bool" where
  "ends_with s p = starts_with (rev s) (rev p)"

definition strip_prefix :: "string \<Rightarrow> string \<Rightarrow> string option" where
  "strip_prefix p s = (if starts_with s p then Some (drop (length p) s) else None)"

text \<open>\<open>split_on\<close> is \<open>str::split\<close> with a character; the result is never empty.\<close>

fun split_on :: "char \<Rightarrow> string \<Rightarrow> string list" where
  "split_on d [] = [[]]"
| "split_on d (c # s) =
     (if c = d then [] # split_on d s
      else (case split_on d s of [] \<Rightarrow> [[c]] | w # ws \<Rightarrow> (c # w) # ws))"

text \<open>\<open>split_once d s\<close> cuts at the first \<open>d\<close>, \<open>rsplit_once d s\<close> at the last.\<close>

fun split_once :: "char \<Rightarrow> string \<Rightarrow> (string \<times> string) option" where
  "split_once d [] = None"
| "split_once d (c # s) =
     (if c = d then Some ([], s)
      else (case split_once d s of None \<Rightarrow> None | Some (a, b) \<Rightarrow> Some (c # a, b)))"

definition rsplit_once :: "char \<Rightarrow> string \<Rightarrow> (string \<times> string) option" where
  "rsplit_once d s =
     (case split_once d (rev s) of None \<Rightarrow> None | Some (a, b) \<Rightarrow> Some (rev b, rev a))"

fun join_with :: "string \<Rightarrow> string list \<Rightarrow> string" where
  "join_with d [] = []"
| "join_with d [w] = w"
| "join_with d (w # ws) = w @ d @ join_with d ws"

lemma starts_with_iff: "starts_with s p \<longleftrightarrow> (\<exists>t. s = p @ t)"
  by (induction s p rule: starts_with.induct) auto

lemma starts_with_append [simp]: "starts_with (p @ s) p"
  by (auto simp: starts_with_iff)

lemma ends_with_iff: "ends_with s p \<longleftrightarrow> (\<exists>t. s = t @ p)"
  by (metis ends_with_def rev_append rev_rev_ident starts_with_iff)

lemma strip_prefix_Some: "strip_prefix p s = Some t \<longleftrightarrow> s = p @ t"
  by (auto simp: strip_prefix_def starts_with_iff)

lemma split_on_neq_Nil [simp]: "split_on d s \<noteq> []"
  by (induction s) (auto split: list.splits)

lemma split_on_id: "d \<notin> set b \<Longrightarrow> split_on d b = [b]"
  by (induction b) auto

lemma split_on_append: "d \<notin> set a \<Longrightarrow> split_on d (a @ d # b) = a # split_on d b"
  by (induction a) auto

lemma split_on_snoc: "d \<notin> set b \<Longrightarrow> split_on d (a @ d # b) = split_on d a @ [b]"
proof (induction a)
  case (Cons c a)
  then show ?case by (cases "split_on d a") auto
qed (simp add: split_on_id)

lemma split_on_parts: "w \<in> set (split_on d s) \<Longrightarrow> d \<notin> set w"
proof (induction d s arbitrary: w rule: split_on.induct)
  case (2 d c s)
  then show ?case by (cases "split_on d s") (auto split: if_splits)
qed simp

lemma split_once_None: "split_once d s = None \<longleftrightarrow> d \<notin> set s"
  by (induction s) (auto split: option.splits)

lemma split_once_append: "d \<notin> set a \<Longrightarrow> split_once d (a @ d # b) = Some (a, b)"
  by (induction a) auto

lemma split_once_SomeD: "split_once d s = Some (a, b) \<Longrightarrow> s = a @ d # b \<and> d \<notin> set a"
  by (induction s arbitrary: a) (auto split: if_splits option.splits)

lemma split_once_Some: "split_once d s = Some (a, b) \<longleftrightarrow> s = a @ d # b \<and> d \<notin> set a"
  using split_once_append split_once_SomeD by blast

lemma rsplit_once_Some: "rsplit_once d s = Some (a, b) \<longleftrightarrow> s = a @ d # b \<and> d \<notin> set b"
proof -
  have "rsplit_once d s = Some (a, b) \<longleftrightarrow> split_once d (rev s) = Some (rev b, rev a)"
    by (auto simp: rsplit_once_def split: option.splits)
  also have "\<dots> \<longleftrightarrow> s = a @ d # b \<and> d \<notin> set b"
    by (auto simp: split_once_Some) (metis append.assoc append_Cons append_Nil rev.simps(2) rev_append rev_rev_ident)
  finally show ?thesis .
qed

lemma rsplit_once_None: "rsplit_once d s = None \<longleftrightarrow> d \<notin> set s"
  using split_once_None [of d "rev s"] by (auto simp: rsplit_once_def split: option.splits)

lemma dropWhile_none: "\<forall>c \<in> set s. \<not> P c \<Longrightarrow> dropWhile P s = s"
  by (cases s) auto

lemma trim_id: "\<forall>c \<in> set s. \<not> is_whitespace c \<Longrightarrow> trim s = s"
  by (simp add: trim_def dropWhile_none)

subsection \<open>Decimal numbers\<close>

fun parse_digits :: "nat \<Rightarrow> string \<Rightarrow> nat" where
  "parse_digits acc [] = acc"
| "parse_digits acc (c # s) = parse_digits (acc * 10 + digit_val c) s"

function show_nat :: "nat \<Rightarrow> string" where
  "show_nat n = (if n < 10 then [char_of (n + 48)] else show_nat (n div 10) @ [char_of (n mod 10 + 48)])"
  by pat_completeness auto
termination
  by (relation "measure id") auto

declare show_nat.simps [simp del]

lemma parse_digits_append: "parse_digits acc (s @ t) = parse_digits (parse_digits acc s) t"
  by (induction s arbitrary: acc) auto

lemma digit_char: "d < 10 \<Longrightarrow> is_ascii_digit (char_of (d + 48)) \<and> digit_val (char_of (d + 48)) = d"
  by (simp add: is_ascii_digit_def digit_val_def)

lemma show_nat_neq_Nil [simp]: "show_nat n \<noteq> []"
  by (subst show_nat.simps) auto

lemma show_nat_digits: "list_all is_ascii_digit (show_nat n)"
proof (induction n rule: show_nat.induct)
  case (1 n)
  show ?case
  proof (cases "n < 10")
    case True
    then show ?thesis by (subst show_nat.simps) (simp add: digit_char)
  next
    case False
    with "1.IH" show ?thesis by (subst show_nat.simps) (simp add: digit_char)
  qed
qed

lemma parse_show_nat: "parse_digits 0 (show_nat n) = n"
proof (induction n rule: show_nat.induct)
  case (1 n)
  show ?case
  proof (cases "n < 10")
    case True
    then show ?thesis by (subst show_nat.simps) (simp add: digit_char)
  next
    case False
    with "1.IH" show ?thesis
      by (subst show_nat.simps) (simp add: digit_char parse_digits_append)
  qed
qed

end
