(* ===== verification/Duration.thy ===== *)
theory Duration
  imports Prelude
begin

text \<open>
  \<open>crates/vigild/src/duration.rs\<close>: human-readable durations. A \<open>std::time::Duration\<close> is the
  number of its milliseconds; \<open>parse_duration\<close> computes it in checked \<open>u64\<close> arithmetic.

  The theory also holds the one floating-point computation of the program, the scaling of a
  backoff delay by the configured factor.
\<close>

subsection \<open>The parser\<close>

datatype dur_error =
    EmptyDuration
  | ExpectedDigit string
  | NumberOverflow string
  | UnknownSuffix string
  | Overflow string

abbreviation u64_max :: nat where
  "u64_max \<equiv> 18446744073709551615"

definition suffix_of :: "string \<Rightarrow> (nat \<times> nat) option" where
  "suffix_of rest =
     (if starts_with rest ''ms'' then Some (1, 2)
      else if starts_with rest ''s'' then Some (1000, 1)
      else if starts_with rest ''m'' then Some (60000, 1)
      else if starts_with rest ''h'' then Some (3600000, 1)
      else None)"

lemma suffix_of_pos: "suffix_of rest = Some (mult, len) \<Longrightarrow> 0 < len \<and> 0 < mult \<and> len \<le> length rest"
  by (auto simp: suffix_of_def starts_with_iff split: if_splits)

function parse_loop :: "string \<Rightarrow> nat \<Rightarrow> string \<Rightarrow> dur_error + nat" where
  "parse_loop s total_ms rest =
     (if rest = [] then Inr total_ms
      else
        let ds = takeWhile is_ascii_digit rest;
            rest' = dropWhile is_ascii_digit rest;
            num = parse_digits 0 ds
        in
          if ds = [] then Inl (ExpectedDigit rest)
          else if u64_max < num then Inl (NumberOverflow s)
          else (case suffix_of rest' of
                  None \<Rightarrow> Inl (UnknownSuffix s)
                | Some (mult, suffix_len) \<Rightarrow>
                    if u64_max < num * mult then Inl (Overflow s)
                    else if u64_max < total_ms + num * mult then Inl (Overflow s)
                    else parse_loop s (total_ms + num * mult) (drop suffix_len rest')))"
  by pat_completeness auto
termination
proof (relation "measure (\<lambda>(s, total_ms, rest). length rest)", goal_cases)
  case 1
  then show ?case by simp
next
  case (2 s total_ms rest ds rest' num a mult len)
  then have "0 < len" "len \<le> length rest'"
    using suffix_of_pos [of rest' mult len] by auto
  moreover have "length rest' \<le> length rest"
    using 2 by (simp add: length_dropWhile_le)
  ultimately show ?case using 2 by simp
qed

declare parse_loop.simps [simp del]

definition parse_duration :: "string \<Rightarrow> dur_error + nat" where
  "parse_duration s = (if s = [] then Inl EmptyDuration else parse_loop s 0 s)"

text \<open>The idiom \<open>opt.as_deref().and_then(|s| parse_duration(s).ok()).unwrap_or(default)\<close>.\<close>

definition duration_or :: "nat \<Rightarrow> string option \<Rightarrow> nat" where
  "duration_or dflt opt =
     (case opt of
        None \<Rightarrow> dflt
      | Some s \<Rightarrow> (case parse_duration s of Inl _ \<Rightarrow> dflt | Inr d \<Rightarrow> d))"

subsection \<open>The language it accepts\<close>

datatype dur_unit = Millis | Secs | Mins | Hours

fun unit_str :: "dur_unit \<Rightarrow> string" where
  "unit_str Millis = ''ms''"
| "unit_str Secs = ''s''"
| "unit_str Mins = ''m''"
| "unit_str Hours = ''h''"

fun unit_ms :: "dur_unit \<Rightarrow> nat" where
  "unit_ms Millis = 1"
| "unit_ms Secs = 1000"
| "unit_ms Mins = 60000"
| "unit_ms Hours = 3600000"

text \<open>A duration is a sequence of components, each a digit string and a unit.\<close>

inductive dur_lang :: "string \<Rightarrow> nat \<Rightarrow> bool" where
  dur_nil: "dur_lang [] 0"
| dur_cons: "ds \<noteq> [] \<Longrightarrow> list_all is_ascii_digit ds \<Longrightarrow> dur_lang t e \<Longrightarrow>
    dur_lang (ds @ unit_str u @ t) (parse_digits 0 ds * unit_ms u + e)"

lemma is_digit_letters [simp]:
  "\<not> is_ascii_digit CHR ''m''" "\<not> is_ascii_digit CHR ''s''" "\<not> is_ascii_digit CHR ''h''"
  by (simp_all add: is_ascii_digit_def)

lemma suffix_of_unit: "suffix_of r = Some (mult, len) \<Longrightarrow>
    \<exists>u t. r = unit_str u @ t \<and> mult = unit_ms u \<and> len = length (unit_str u)"
  unfolding suffix_of_def starts_with_iff
  by (auto split: if_splits intro: exI [of _ Millis] exI [of _ Secs] exI [of _ Mins] exI [of _ Hours])

lemma unit_str_no_digit: "takeWhile is_ascii_digit (unit_str u @ t) = []"
    "dropWhile is_ascii_digit (unit_str u @ t) = unit_str u @ t"
  by (cases u; simp)+

lemma dur_lang_first: "dur_lang t e \<Longrightarrow> t = [] \<or> is_ascii_digit (hd t)"
  by (induction rule: dur_lang.induct) (auto simp: neq_Nil_conv)

lemma suffix_of_unit_str:
  assumes "dur_lang t e"
  shows "suffix_of (unit_str u @ t) = Some (unit_ms u, length (unit_str u))"
  using dur_lang_first [OF assms] by (cases u; cases t) (auto simp: suffix_of_def)

lemma digits_prefix: "list_all is_ascii_digit ds \<Longrightarrow>
    takeWhile is_ascii_digit (ds @ unit_str u @ t) = ds \<and>
    dropWhile is_ascii_digit (ds @ unit_str u @ t) = unit_str u @ t"
  by (induction ds) (auto simp: unit_str_no_digit)

lemma parse_loop_complete:
  assumes "dur_lang rest e" and "tot + e \<le> u64_max"
  shows "parse_loop s tot rest = Inr (tot + e)"
  using assms
proof (induction arbitrary: tot rule: dur_lang.induct)
  case dur_nil
  then show ?case by (simp add: parse_loop.simps)
next
  case (dur_cons ds t e u)
  let ?n = "parse_digits 0 ds"
  have n: "?n \<le> ?n * unit_ms u" by (cases u) auto
  with dur_cons.prems have b: "\<not> u64_max < ?n" "\<not> u64_max < ?n * unit_ms u"
      "\<not> u64_max < tot + ?n * unit_ms u" by linarith+
  have "parse_loop s (tot + ?n * unit_ms u) t = Inr (tot + ?n * unit_ms u + e)"
    using dur_cons.IH [of "tot + ?n * unit_ms u"] dur_cons.prems by (simp add: add.assoc)
  with b show ?case
    using digits_prefix [OF dur_cons.hyps(2), of u t] suffix_of_unit_str [OF dur_cons.hyps(3), of u]
      dur_cons.hyps(1)
    by (subst parse_loop.simps) (simp add: Let_def add.assoc)
qed

lemma parse_loop_sound:
  "parse_loop s tot rest = Inr d \<Longrightarrow> tot \<le> u64_max \<Longrightarrow>
     \<exists>e. dur_lang rest e \<and> d = tot + e \<and> d \<le> u64_max"
proof (induction s tot rest rule: parse_loop.induct)
  case (1 s tot rest)
  let ?ds = "takeWhile is_ascii_digit rest" and ?r = "dropWhile is_ascii_digit rest"
  let ?n = "parse_digits 0 ?ds"
  show ?case
  proof (cases "rest = []")
    case True
    with "1.prems" show ?thesis by (auto simp: parse_loop.simps intro: dur_nil)
  next
    case False
    with "1.prems"(1) obtain mult len where ok: "?ds \<noteq> []" "\<not> u64_max < ?n"
        "suffix_of ?r = Some (mult, len)" "\<not> u64_max < ?n * mult" "\<not> u64_max < tot + ?n * mult"
        "parse_loop s (tot + ?n * mult) (drop len ?r) = Inr d"
      by (subst (asm) parse_loop.simps) (auto simp: Let_def split: if_splits option.splits)
    obtain u t where u: "?r = unit_str u @ t" "mult = unit_ms u" "len = length (unit_str u)"
      using suffix_of_unit [OF ok(3)] by blast
    obtain e where e: "dur_lang t e" "d = tot + ?n * mult + e" "d \<le> u64_max"
      using "1.IH" [OF False refl refl refl ok(1) ok(2) ok(3) refl ok(4) ok(5) ok(6)] ok(5) u
      by auto
    have "rest = ?ds @ unit_str u @ t" using u(1) by (metis takeWhile_dropWhile_id)
    moreover have "list_all is_ascii_digit ?ds" by (auto simp: list_all_iff dest: set_takeWhileD)
    ultimately have "dur_lang rest (?n * unit_ms u + e)"
      using dur_cons [OF ok(1) _ e(1), of u] by simp
    with e u show ?thesis by (auto simp: add.assoc)
  qed
qed

text \<open>
  C20. The duration parser accepts exactly the documented language: a string yields \<open>d\<close>
  milliseconds if and only if it is a non-empty sequence of number/unit components whose
  values add up to \<open>d\<close>, and \<open>d\<close> fits in a \<open>u64\<close>. In particular no accepted input wraps.
\<close>

theorem parse_duration_iff:
  "parse_duration s = Inr d \<longleftrightarrow> s \<noteq> [] \<and> dur_lang s d \<and> d \<le> 18446744073709551615"
proof
  assume "parse_duration s = Inr d"
  then show "s \<noteq> [] \<and> dur_lang s d \<and> d \<le> 18446744073709551615"
    using parse_loop_sound [of s 0 s d] by (auto simp: parse_duration_def split: if_splits)
next
  assume "s \<noteq> [] \<and> dur_lang s d \<and> d \<le> 18446744073709551615"
  then show "parse_duration s = Inr d"
    using parse_loop_complete [of s d 0 s] by (simp add: parse_duration_def)
qed

subsection \<open>Printing and parsing\<close>

fun render_duration :: "(nat \<times> dur_unit) list \<Rightarrow> string" where
  "render_duration [] = []"
| "render_duration ((n, u) # cs) = show_nat n @ unit_str u @ render_duration cs"

definition duration_total :: "(nat \<times> dur_unit) list \<Rightarrow> nat" where
  "duration_total cs = sum_list (map (\<lambda>(n, u). n * unit_ms u) cs)"

lemma render_dur_lang: "dur_lang (render_duration cs) (duration_total cs)"
proof (induction cs)
  case Nil
  then show ?case by (simp add: duration_total_def dur_nil)
next
  case (Cons c cs)
  obtain n u where c: "c = (n, u)" by force
  show ?case
    using dur_cons [OF show_nat_neq_Nil show_nat_digits Cons.IH, of n u]
    by (simp add: c duration_total_def parse_show_nat)
qed

text \<open>
  Round trip: printing any list of components and parsing the result gives the sum of the
  components, as long as the sum fits in a \<open>u64\<close>.
\<close>

theorem parse_render_duration:
  assumes "cs \<noteq> []" and "duration_total cs \<le> 18446744073709551615"
  shows "parse_duration (render_duration cs) = Inr (duration_total cs)"
proof -
  have "parse_loop s 0 (render_duration cs) = Inr (duration_total cs)" for s
    using parse_loop_complete [OF render_dur_lang, of 0 cs s] assms(2) by simp
  moreover have "render_duration cs \<noteq> []" using assms(1) by (cases cs) auto
  ultimately show ?thesis by (simp add: parse_duration_def)
qed

theorem parse_render_duration_witness:
  "parse_duration (render_duration [(1, Mins), (30, Secs)]) = Inr 90000"
  using parse_render_duration [of "[(1, Mins), (30, Secs)]"] by (simp add: duration_total_def)

subsection \<open>Scaling a delay by a floating-point factor\<close>

text \<open>
  \<open>((d as f64) * factor) as u64\<close>. A binary64 value is a sign, an integer significand and a
  binary exponent, or one of the special values. Both roundings (of the integer to binary64
  and of the product) are round-to-nearest, ties to even, to 53 significant bits; the final
  cast truncates, saturates at \<open>u64::MAX\<close> and sends NaN and negative values to 0. The
  exponent range needs no bound here: a product that would overflow to infinity saturates
  either way, and one that would underflow truncates to 0 either way.
\<close>

datatype f64 = NaN | Inf bool | Fin bool nat int

fun bit_length :: "nat \<Rightarrow> nat" where
  "bit_length n = (if n = 0 then 0 else Suc (bit_length (n div 2)))"

declare bit_length.simps [simp del]

definition round53 :: "nat \<Rightarrow> int \<Rightarrow> nat \<times> int" where
  "round53 m e =
     (let k = bit_length m - 53;
          q = m div 2 ^ k;
          r = m mod 2 ^ k;
          h = 2 ^ k div 2
      in if k = 0 then (m, e)
         else if h < r \<or> (h = r \<and> odd q) then (Suc q, e + int k)
         else (q, e + int k))"

definition trunc_u64 :: "nat \<times> int \<Rightarrow> nat" where
  "trunc_u64 p =
     (case p of (m, e) \<Rightarrow>
        min u64_max (if 0 \<le> e then m * 2 ^ nat e else m div 2 ^ nat (- e)))"

fun scale_millis :: "nat \<Rightarrow> f64 \<Rightarrow> nat" where
  "scale_millis d NaN = 0"
| "scale_millis d (Inf neg) = (if neg \<or> d = 0 then 0 else u64_max)"
| "scale_millis d (Fin neg m e) =
     (if neg then 0
      else (case round53 d 0 of (md, ed) \<Rightarrow> trunc_u64 (round53 (md * m) (ed + e))))"

text \<open>The default backoff factor, 2.0.\<close>

definition f64_two :: f64 where
  "f64_two = Fin False 1 1"

lemma bit_length_less: "n < 2 ^ k \<Longrightarrow> bit_length n \<le> k"
proof (induction k arbitrary: n)
  case 0
  then show ?case by (simp add: bit_length.simps)
next
  case (Suc k)
  then have "n div 2 < 2 ^ k" by auto
  then show ?case using Suc.IH [of "n div 2"] by (subst bit_length.simps) simp
qed

lemma round53_exact: "m < 2 ^ 53 \<Longrightarrow> round53 m e = (m, e)"
  using bit_length_less [of m 53] by (simp add: round53_def Let_def)

text \<open>Doubling is exact on every delay below $2^{53}$ ms (about 285000 years).\<close>

lemma scale_two: "d < 2 ^ 53 \<Longrightarrow> scale_millis d f64_two = 2 * d"
  by (simp add: f64_two_def round53_exact trunc_u64_def)

lemma scale_one: "d < 2 ^ 53 \<Longrightarrow> scale_millis d (Fin False 1 0) = d"
  by (simp add: round53_exact trunc_u64_def)

end
