(* ===== verification/PlanTypes.thy ===== *)
theory PlanTypes
  imports Duration
begin

text \<open>
  \<open>crates/vigil-types/src/plan\<close> and \<open>signal.rs\<close>: the configuration data of a layer, with
  one record per Rust struct (field names carry the prefix of their struct) and one datatype
  per enum, in the source's order, and the defaults the source derives.
\<close>

subsection \<open>Signals\<close>

text \<open>
  The signals the program names; every other member of the \<open>nix\<close> enumeration is
  \<open>OtherSignal\<close> with its name.
\<close>

datatype signal =
    SIGTERM | SIGKILL | SIGHUP | SIGUSR1 | SIGUSR2 | OtherSignal string

datatype stop_signal = StopSignal signal

fun stop_signal_sig :: "stop_signal \<Rightarrow> signal" where
  "stop_signal_sig (StopSignal s) = s"

definition stop_signal_default :: stop_signal where
  "stop_signal_default = StopSignal SIGTERM"

text \<open>
  Names are converted by \<open>nix\<close> (\<open>Signal::from_str\<close> and \<open>Display\<close>), which are the
  parameters \<open>from_str\<close> and \<open>as_str\<close>; a name \<open>nix\<close> does not know is an error that carries it.
\<close>

definition stop_signal_into_string :: "(signal \<Rightarrow> string) \<Rightarrow> stop_signal \<Rightarrow> string" where
  "stop_signal_into_string as_str s = as_str (stop_signal_sig s)"

definition stop_signal_try_from :: "(string \<Rightarrow> signal option) \<Rightarrow> string \<Rightarrow> string + stop_signal" where
  "stop_signal_try_from from_str s =
     (case from_str s of Some sg \<Rightarrow> Inr (StopSignal sg) | None \<Rightarrow> Inl s)"

subsection \<open>Enumerations\<close>

datatype override = Merge | Replace

datatype startup = Disabled | Enabled

datatype logs_forward = LogsEnabled | LogsDisabled | Passthrough

datatype logs_push_format = Ndjson

datatype on_exit = Restart | Shutdown | FailureShutdown | SuccessShutdown | Ignore

datatype check_level = Alive | Ready

datatype alert_format = Webhook | Alertmanager | CloudEvents | OtlpLogs

definition logs_forward_default :: logs_forward where
  "logs_forward_default = LogsEnabled"

subsection \<open>Services\<close>

record service_config =
  svc_override_mode :: override
  svc_summary :: "string option"
  svc_description :: "string option"
  svc_command :: "string option"
  svc_startup :: startup
  svc_after :: "string list"
  svc_before :: "string list"
  svc_requires :: "string list"
  svc_environment :: "(string, string) indexmap"
  svc_user :: "string option"
  svc_user_id :: "u32 option"
  svc_group :: "string option"
  svc_group_id :: "u32 option"
  svc_working_dir :: "string option"
  svc_stop_signal :: "stop_signal option"
  svc_kill_delay :: "string option"
  svc_on_success :: "on_exit option"
  svc_on_failure :: "on_exit option"
  svc_on_check_failure :: "(string, on_exit) indexmap"
  svc_backoff_delay :: "string option"
  svc_backoff_factor :: "f64 option"
  svc_backoff_limit :: "string option"
  svc_logs_forward :: "logs_forward option"
  svc_logs_push_socket :: "string option"
  svc_logs_push_addr :: "string option"
  svc_logs_push_format :: "logs_push_format option"

definition service_config_default :: service_config where
  "service_config_default = \<lparr>
     svc_override_mode = Merge, svc_summary = None, svc_description = None,
     svc_command = None, svc_startup = Disabled, svc_after = [], svc_before = [],
     svc_requires = [], svc_environment = [], svc_user = None, svc_user_id = None,
     svc_group = None, svc_group_id = None, svc_working_dir = None,
     svc_stop_signal = None, svc_kill_delay = None, svc_on_success = None,
     svc_on_failure = None, svc_on_check_failure = [], svc_backoff_delay = None,
     svc_backoff_factor = None, svc_backoff_limit = None, svc_logs_forward = None,
     svc_logs_push_socket = None, svc_logs_push_addr = None, svc_logs_push_format = None \<rparr>"

subsection \<open>Checks\<close>

record http_check =
  hc_url :: string
  hc_headers :: "(string, string) indexmap"
  hc_no_follow_redirects :: bool
  hc_insecure :: bool
  hc_insecure_proxy :: bool
  hc_ca :: "string option"
  hc_success_statuses :: "nat list"

definition http_check_default :: http_check where
  "http_check_default = \<lparr>
     hc_url = '''', hc_headers = [], hc_no_follow_redirects = True, hc_insecure = False,
     hc_insecure_proxy = False, hc_ca = None, hc_success_statuses = [] \<rparr>"

record tcp_check =
  tc_host :: "string option"
  tc_port :: "16 word"

record exec_check =
  ec_command :: string
  ec_service_context :: "string option"
  ec_environment :: "(string, string) indexmap"
  ec_user :: "string option"
  ec_user_id :: "u32 option"
  ec_group :: "string option"
  ec_group_id :: "u32 option"
  ec_working_dir :: "string option"

record check_config =
  chk_override_mode :: override
  chk_level :: check_level
  chk_startup :: startup
  chk_delay :: "string option"
  chk_period :: "string option"
  chk_timeout :: "string option"
  chk_threshold :: "u32 option"
  chk_http :: "http_check option"
  chk_tcp :: "tcp_check option"
  chk_exec :: "exec_check option"

definition check_config_default :: check_config where
  "check_config_default = \<lparr>
     chk_override_mode = Merge, chk_level = Alive, chk_startup = Disabled, chk_delay = None,
     chk_period = None, chk_timeout = None, chk_threshold = None, chk_http = None,
     chk_tcp = None, chk_exec = None \<rparr>"

subsection \<open>Alerts\<close>

record alert_config =
  al_override_mode :: override
  al_url :: string
  al_format :: alert_format
  al_headers :: "(string, string) indexmap"
  al_labels :: "(string, string) indexmap"
  al_send_info_fields :: "(string, string) indexmap"
  al_on_check :: "string list"
  al_tls_insecure :: bool
  al_tls_ca :: "string option"
  al_proxy :: "string option"
  al_proxy_ca :: "string option"
  al_no_proxy :: "string option"
  al_retry_attempts :: "u32 option"
  al_retry_backoff :: "string list"
  al_body_template :: "string option"

definition alert_config_default :: alert_config where
  "alert_config_default = \<lparr>
     al_override_mode = Merge, al_url = '''', al_format = Webhook, al_headers = [],
     al_labels = [], al_send_info_fields = [], al_on_check = [], al_tls_insecure = False,
     al_tls_ca = None, al_proxy = None, al_proxy_ca = None, al_no_proxy = None,
     al_retry_attempts = None, al_retry_backoff = [], al_body_template = None \<rparr>"

record alerts_block =
  ab_max_queue_depth :: "nat option"
  ab_max_queue_time :: "string option"
  ab_entries :: "(string, alert_config) indexmap"

subsection \<open>Layers and the merged plan\<close>

record layer =
  lay_order :: u32
  lay_label :: string
  lay_summary :: "string option"
  lay_description :: "string option"
  lay_services :: "(string, service_config) indexmap"
  lay_checks :: "(string, check_config) indexmap"
  lay_alerts :: alerts_block

record plan =
  plan_layers :: "layer list"
  plan_services :: "(string, service_config) indexmap"
  plan_checks :: "(string, check_config) indexmap"
  plan_alerts :: "(string, alert_config) indexmap"
  plan_alert_queue_depth :: "nat option"
  plan_alert_max_queue_time :: "string option"

definition plan_default :: plan where
  "plan_default = \<lparr>
     plan_layers = [], plan_services = [], plan_checks = [], plan_alerts = [],
     plan_alert_queue_depth = None, plan_alert_max_queue_time = None \<rparr>"

end
