(* ===== verification/ApiTypes.thy ===== *)
theory ApiTypes
  imports PlanTypes
begin

text \<open>
  The data exchanged between the daemon's parts and its API: \<open>crates/vigil-types/src/api.rs\<close>,
  \<open>crates/vigil-types/src/identity.rs\<close> and the service life cycle of
  \<open>crates/vigild/src/state.rs\<close>. A \<open>DateTime<Utc>\<close> is an integer number of nanoseconds.
\<close>

type_synonym datetime = int

subsection \<open>Service life cycle\<close>

datatype service_state = Inactive | Starting | Active | Stopping | Backoff | ErrorState

datatype service_status = StatusActive | StatusInactive | StatusBackoff | StatusError

fun to_api_status :: "service_state \<Rightarrow> service_status" where
  "to_api_status Inactive = StatusInactive"
| "to_api_status Stopping = StatusInactive"
| "to_api_status Starting = StatusActive"
| "to_api_status Active = StatusActive"
| "to_api_status Backoff = StatusBackoff"
| "to_api_status ErrorState = StatusError"

fun is_running :: "service_state \<Rightarrow> bool" where
  "is_running Starting = True"
| "is_running Active = True"
| "is_running _ = False"

subsection \<open>Requests and replies\<close>

datatype daemon_action = DaemonStop | DaemonRestart

datatype service_action = ActStart | ActStop | ActRestart | ActAutostart | ActReplan

datatype change_status = Doing | Done | ChangeError | Hold

record change_info =
  ch_id :: string
  ch_kind :: string
  ch_summary :: string
  ch_status :: change_status
  ch_spawn_time :: datetime
  ch_ready_time :: "datetime option"
  ch_err :: "string option"

record service_info =
  si_name :: string
  si_startup :: startup
  si_current :: service_status
  si_current_since :: "datetime option"
  si_stop_signal :: string
  si_on_success :: string
  si_on_failure :: string

record system_info =
  sys_boot_id :: string
  sys_http_address :: string
  sys_https_address :: "string option"
  sys_version :: string
  sys_start_time :: datetime

subsection \<open>Checks and alerts\<close>

datatype check_status = Up | Down

record check_info =
  ci_name :: string
  ci_level :: check_level
  ci_status :: check_status
  ci_failures :: u32
  ci_threshold :: u32
  ci_next_run_in_secs :: "nat option"

record alert_check_status =
  acs_check :: string
  acs_status :: "check_status option"

record alert_info =
  ai_name :: string
  ai_url :: string
  ai_format :: alert_format
  ai_on_check :: "string list"
  ai_check_status :: "alert_check_status list"

subsection \<open>Logs\<close>

datatype log_stream = Stdout | Stderr

record log_entry =
  le_timestamp :: datetime
  le_service :: string
  le_stream :: log_stream
  le_message :: string

subsection \<open>Identities\<close>

datatype identity_access = Open | Metrics | Read | Write | Admin

record local_identity =
  li_user_id :: "u32 option"

record basic_identity =
  bi_password_hash :: string

record tls_identity =
  ti_ca_cert :: string

record identity =
  id_name :: string
  id_access :: identity_access
  id_local :: "local_identity option"
  id_basic :: "basic_identity option"
  id_tls :: "tls_identity option"

record identity_spec =
  is_access :: identity_access
  is_local :: "local_identity option"
  is_basic :: "basic_identity option"
  is_tls :: "tls_identity option"

text \<open>The derived order of the access levels is the order of their declaration.\<close>

fun access_rank :: "identity_access \<Rightarrow> nat" where
  "access_rank Open = 0"
| "access_rank Metrics = 1"
| "access_rank Read = 2"
| "access_rank Write = 3"
| "access_rank Admin = 4"

lemma access_rank_inject: "access_rank a = access_rank b \<longleftrightarrow> a = b"
  by (cases a; cases b) auto

instantiation identity_access :: linorder
begin

definition less_eq_identity_access :: "identity_access \<Rightarrow> identity_access \<Rightarrow> bool" where
  "less_eq_identity_access a b \<longleftrightarrow> access_rank a \<le> access_rank b"

definition less_identity_access :: "identity_access \<Rightarrow> identity_access \<Rightarrow> bool" where
  "less_identity_access a b \<longleftrightarrow> access_rank a < access_rank b"

instance
  by standard (auto simp: less_eq_identity_access_def less_identity_access_def access_rank_inject)

end

lemma access_Admin_top [simp]: "a \<le> Admin"
  by (cases a) (simp_all add: less_eq_identity_access_def)

lemma access_Open_bot [simp]: "Open \<le> a"
  by (simp add: less_eq_identity_access_def)

end
