(* ===== verification/ProcUtil.thy ===== *)
theory ProcUtil
  imports Prelude
begin

text \<open>
  \<open>crates/vigild/src/process_util\<close>: command-string parsing (\<open>parse.rs\<close>) and the resolution
  and application of a child's credentials (\<open>identity.rs\<close>). The user and group databases and
  the system calls of the child between fork and exec are parameters.
\<close>

text \<open>Exit of a child: an exit code or a signal; \<open>None\<close> where the wait itself failed.\<close>

datatype exit_status = ExitedWith nat | KilledBy nat

definition exit_success :: "exit_status option \<Rightarrow> bool" where
  "exit_success e = (e = Some (ExitedWith 0))"

subsection \<open>Shell words\<close>

datatype cmd_error =
    UnmatchedBracket string
  | MalformedDefaults string
  | UnterminatedQuote string

record sw_state =
  sw_words :: "string list"
  sw_current :: string
  sw_in_single :: bool
  sw_in_double :: bool
  sw_escaped :: bool

definition sw_init :: sw_state where
  "sw_init = \<lparr> sw_words = [], sw_current = [], sw_in_single = False, sw_in_double = False,
               sw_escaped = False \<rparr>"

definition sw_step :: "char \<Rightarrow> sw_state \<Rightarrow> sw_state" where
  "sw_step c st =
     (if sw_escaped st then st\<lparr>sw_current := sw_current st @ [c], sw_escaped := False\<rparr>
      else if c = CHR 0x5C \<and> \<not> sw_in_single st then st\<lparr>sw_escaped := True\<rparr>
      else if c = CHR 0x27 \<and> \<not> sw_in_double st then st\<lparr>sw_in_single := \<not> sw_in_single st\<rparr>
      else if c = CHR 0x22 \<and> \<not> sw_in_single st then st\<lparr>sw_in_double := \<not> sw_in_double st\<rparr>
      else if c \<in> {CHR 0x20, CHR 0x09, CHR 0x0A, CHR 0x0D} \<and> \<not> sw_in_single st \<and> \<not> sw_in_double st
        then (if sw_current st \<noteq> []
              then st\<lparr>sw_words := sw_words st @ [sw_current st], sw_current := []\<rparr>
              else st)
      else st\<lparr>sw_current := sw_current st @ [c]\<rparr>)"

definition sw_finish :: "string \<Rightarrow> sw_state \<Rightarrow> cmd_error + string list" where
  "sw_finish s st =
     (if sw_in_single st \<or> sw_in_double st then Inl (UnterminatedQuote s)
      else if sw_current st \<noteq> [] then Inr (sw_words st @ [sw_current st])
      else Inr (sw_words st))"

definition shell_words :: "string \<Rightarrow> cmd_error + string list" where
  "shell_words s = sw_finish s (fold sw_step s sw_init)"

subsection \<open>The default-arguments bracket\<close>

text \<open>
  \<open>find_unquoted\<close> walks the bytes of \<open>s\<close> with the quoting flags of \<open>shell_words\<close>; \<open>i\<close> is
  the position of the rest \<open>s\<close> in the whole string.
\<close>

fun find_unquoted_from :: "string \<Rightarrow> bool \<Rightarrow> bool \<Rightarrow> bool \<Rightarrow> nat \<Rightarrow> string \<Rightarrow> nat option" where
  "find_unquoted_from needle in_single in_double escaped i [] = None"
| "find_unquoted_from needle in_single in_double escaped i (c # s) =
     (if escaped then find_unquoted_from needle in_single in_double False (Suc i) s
      else if c = CHR 0x5C \<and> \<not> in_single then find_unquoted_from needle in_single in_double True (Suc i) s
      else if c = CHR 0x27 \<and> \<not> in_double then find_unquoted_from needle (\<not> in_single) in_double False (Suc i) s
      else if c = CHR 0x22 \<and> \<not> in_single then find_unquoted_from needle in_single (\<not> in_double) False (Suc i) s
      else if \<not> in_single \<and> \<not> in_double \<and> starts_with (c # s) needle then Some i
      else find_unquoted_from needle in_single in_double False (Suc i) s)"

definition find_unquoted :: "string \<Rightarrow> string \<Rightarrow> nat option" where
  "find_unquoted s needle = find_unquoted_from needle False False False 0 s"

text \<open>\<open>str::rfind\<close>: the last position at which the needle starts.\<close>

fun rfind_from :: "string \<Rightarrow> nat \<Rightarrow> string \<Rightarrow> nat option" where
  "rfind_from needle i [] = (if needle = [] then Some i else None)"
| "rfind_from needle i (c # s) =
     (case rfind_from needle (Suc i) s of
        Some j \<Rightarrow> Some j
      | None \<Rightarrow> (if starts_with (c # s) needle then Some i else None))"

definition rfind :: "string \<Rightarrow> string \<Rightarrow> nat option" where
  "rfind s needle = rfind_from needle 0 s"

definition parse_command :: "string \<Rightarrow> cmd_error + string list" where
  "parse_command s0 =
     (let s = trim s0 in
      case find_unquoted s '' [ '' of
        Some open \<Rightarrow>
          (case rfind s '' ]'' of
             None \<Rightarrow> Inl (UnmatchedBracket s)
           | Some close \<Rightarrow>
               if close < open then Inl (MalformedDefaults s)
               else
                 let base = take open s;
                     defaults_start = open + 3;
                     defaults = (if defaults_start \<le> close
                                 then take (close - defaults_start) (drop defaults_start s) else [])
                 in case shell_words base of
                      Inl e \<Rightarrow> Inl e
                    | Inr args \<Rightarrow>
                        (case shell_words defaults of
                           Inl e \<Rightarrow> Inl e
                         | Inr dargs \<Rightarrow> Inr (args @ dargs)))
      | None \<Rightarrow> shell_words s)"

subsection \<open>Lemmas on the splitter\<close>

lemma sw_words_nonempty:
  "[] \<notin> set (sw_words st) \<Longrightarrow> [] \<notin> set (sw_words (fold sw_step s st))"
proof (induction s arbitrary: st)
  case Nil
  then show ?case by simp
next
  case (Cons c s)
  have "[] \<notin> set (sw_words (sw_step c st))" using Cons.prems by (auto simp: sw_step_def)
  then show ?case using Cons.IH by simp
qed

text \<open>
  No argument produced by the command parser is empty: a quoted empty argument such as
  \<open>""\<close> in a service's command is dropped, it never reaches the process.
\<close>

theorem shell_words_no_empty_word:
  assumes "shell_words s = Inr ws"
  shows "[] \<notin> set ws"
proof -
  have "[] \<notin> set (sw_words (fold sw_step s sw_init))"
    by (rule sw_words_nonempty) (simp add: sw_init_def)
  with assms show ?thesis
    by (auto simp: shell_words_def sw_finish_def split: if_splits)
qed

theorem shell_words_no_empty_word_witness:
  "shell_words ''echo \"\"'' = Inr [''echo''] \<and> [] \<notin> set [''echo'']"
proof -
  have h: "shell_words ''echo \"\"'' = Inr [''echo'']" by code_simp
  from h shell_words_no_empty_word [OF h] show ?thesis by simp
qed

lemma sw_flags:
  "sw_in_single (sw_step c st) =
     (if \<not> sw_escaped st \<and> c = CHR 0x27 \<and> \<not> sw_in_double st then \<not> sw_in_single st else sw_in_single st)"
  "sw_in_double (sw_step c st) =
     (if \<not> sw_escaped st \<and> c = CHR 0x22 \<and> \<not> sw_in_single st then \<not> sw_in_double st else sw_in_double st)"
  "sw_escaped (sw_step c st) = (\<not> sw_escaped st \<and> c = CHR 0x5C \<and> \<not> sw_in_single st)"
  by (simp_all add: sw_step_def)

text \<open>Where \<open>find_unquoted\<close> stops, the flags of \<open>shell_words\<close> on the part before are clear.\<close>

lemma find_unquoted_flags:
  assumes "find_unquoted_from needle (sw_in_single st) (sw_in_double st) (sw_escaped st) i s = Some j"
  shows "i \<le> j \<and> j \<le> i + length s \<and>
    (let st' = fold sw_step (take (j - i) s) st in
       \<not> sw_in_single st' \<and> \<not> sw_in_double st' \<and> \<not> sw_escaped st') \<and>
    starts_with (drop (j - i) s) needle"
  using assms
proof (induction s arbitrary: st i)
  case Nil
  then show ?case by simp
next
  case (Cons c s)
  show ?case
  proof (cases "j = i \<and> \<not> sw_escaped st \<and> \<not> sw_in_single st \<and> \<not> sw_in_double st \<and> starts_with (c # s) needle")
    case True
    then show ?thesis by (simp del: starts_with.simps)
  next
    case False
    have step: "find_unquoted_from needle (sw_in_single (sw_step c st)) (sw_in_double (sw_step c st))
        (sw_escaped (sw_step c st)) (Suc i) s = Some j"
    proof (cases "\<not> sw_escaped st \<and> (c = CHR 0x5C \<or> c = CHR 0x27 \<or> c = CHR 0x22)")
      case True
      with Cons.prems False show ?thesis
        by (elim conjE disjE) (auto simp: sw_flags simp del: starts_with.simps split: if_split_asm)
    next
      case no: False
      then have "sw_in_single (sw_step c st) = sw_in_single st" "sw_in_double (sw_step c st) = sw_in_double st"
          "\<not> sw_escaped (sw_step c st)"
        by (auto simp: sw_flags)
      with Cons.prems False no show ?thesis
        by (simp del: starts_with.simps split: if_split_asm)
    qed
    have "Suc i \<le> j" using Cons.IH [OF step] by simp
    then have "j - i = Suc (j - Suc i)" by simp
    then show ?thesis using Cons.IH [OF step] by (simp add: Let_def)
  qed
qed

lemma find_unquoted_base_parses:
  assumes "find_unquoted s needle = Some j"
  shows "\<exists>ws. shell_words (take j s) = Inr ws"
  using find_unquoted_flags [of needle sw_init 0 s j] assms
  by (auto simp: find_unquoted_def sw_init_def shell_words_def sw_finish_def Let_def)

text \<open>
  The bracket syntax never fails because of the part before it: once an unquoted
  opening bracket is found and the last closing bracket is not before it, the base splits
  into words, and the command parses to base words followed by default words, failing only
  if the default section itself has an unterminated quote.
\<close>

theorem parse_command_bracket:
  assumes "find_unquoted (trim s) '' [ '' = Some open" and "rfind (trim s) '' ]'' = Some close"
    and "open \<le> close"
  shows "\<exists>base. shell_words (take open (trim s)) = Inr base \<and>
    parse_command s =
      (case shell_words (take (close - (open + 3)) (drop (open + 3) (trim s))) of
         Inl e \<Rightarrow> Inl e | Inr dargs \<Rightarrow> Inr (base @ dargs))"
proof -
  obtain base where "shell_words (take open (trim s)) = Inr base"
    using find_unquoted_base_parses [OF assms(1)] by blast
  with assms show ?thesis
    by (auto simp: parse_command_def Let_def not_le split: sum.splits)
qed

theorem parse_command_bracket_witness:
  "parse_command ''/bin/foo -v [ --port 80 ]'' = Inr [''/bin/foo'', ''-v'', ''--port'', ''80'']"
proof -
  have t: "trim ''/bin/foo -v [ --port 80 ]'' = ''/bin/foo -v [ --port 80 ]''" by code_simp
  have o: "find_unquoted ''/bin/foo -v [ --port 80 ]'' '' [ '' = Some 11" by code_simp
  have c: "rfind ''/bin/foo -v [ --port 80 ]'' '' ]'' = Some 23" by code_simp
  have b: "shell_words (take 11 ''/bin/foo -v [ --port 80 ]'') = Inr [''/bin/foo'', ''-v'']" by code_simp
  have d: "shell_words (take (23 - (11 + 3)) (drop (11 + 3) ''/bin/foo -v [ --port 80 ]'')) = Inr [''--port'', ''80'']"
    by code_simp
  show ?thesis
    using parse_command_bracket [of "''/bin/foo -v [ --port 80 ]''", unfolded t, OF o c] b d by auto
qed

subsection \<open>Quoting\<close>

text \<open>A word quoted by a backslash before each character, as a user can write any argument.\<close>

definition backslash_quote :: "string \<Rightarrow> string" where
  "backslash_quote w = concat (map (\<lambda>c. [CHR 0x5C, c]) w)"

lemma fold_backslash_quote:
  assumes "\<not> sw_in_single st" and "\<not> sw_in_double st" and "\<not> sw_escaped st"
  shows "fold sw_step (backslash_quote w) st = st\<lparr>sw_current := sw_current st @ w\<rparr>"
  using assms
proof (induction w arbitrary: st)
  case Nil
  then show ?case by (simp add: backslash_quote_def)
next
  case (Cons c w)
  have "sw_step c (sw_step CHR 0x5C st) = st\<lparr>sw_current := sw_current st @ [c]\<rparr>"
    using Cons.prems by (cases st) (simp add: sw_step_def)
  then show ?case
    using Cons.IH [of "st\<lparr>sw_current := sw_current st @ [c]\<rparr>"] Cons.prems
    by (simp add: backslash_quote_def)
qed

lemma fold_quoted_words:
  assumes "\<not> sw_in_single st" and "\<not> sw_in_double st" and "\<not> sw_escaped st" and "sw_current st = []"
    and "[] \<notin> set ws"
  shows "sw_finish s (fold sw_step (join_with '' '' (map backslash_quote ws)) st) = Inr (sw_words st @ ws)"
  using assms
proof (induction ws arbitrary: st)
  case Nil
  then show ?case by (simp add: sw_finish_def)
next
  case (Cons w ws)
  note w = fold_backslash_quote [OF Cons.prems(1-3), of w]
  show ?case
  proof (cases ws)
    case Nil
    then show ?thesis using Cons.prems w by (simp add: sw_finish_def)
  next
    case (Cons v vs)
    let ?st = "st\<lparr>sw_words := sw_words st @ [w]\<rparr>"
    have sp: "sw_step CHR 0x20 (st\<lparr>sw_current := w\<rparr>) = ?st"
      using Cons.prems by (cases st) (auto simp: sw_step_def)
    have "sw_finish s (fold sw_step (join_with '' '' (map backslash_quote ws)) ?st) = Inr ((sw_words st @ [w]) @ ws)"
      using Cons.IH [of ?st] Cons.prems by simp
    then show ?thesis using Cons Cons.prems w sp by simp
  qed
qed

text \<open>
  C34. Round trip: every argument vector without empty words can be written as a command
  string that splits back into exactly that vector, whatever characters its words contain.
\<close>

theorem shell_words_quote_roundtrip:
  assumes "[] \<notin> set ws"
  shows "shell_words (join_with '' '' (map backslash_quote ws)) = Inr ws"
  using fold_quoted_words [of sw_init ws] assms by (simp add: shell_words_def sw_init_def)

theorem shell_words_quote_roundtrip_witness:
  "shell_words (join_with '' '' (map backslash_quote [''sh'', ''-c'', ''it s'']))
   = Inr [''sh'', ''-c'', ''it s'']"
  by (rule shell_words_quote_roundtrip) simp

subsection \<open>Credentials\<close>

record passwd =
  pw_name :: string
  pw_uid :: u32
  pw_gid :: u32

record user_db =
  getpwnam :: "string \<Rightarrow> string + passwd option"
  getpwuid :: "u32 \<Rightarrow> string + passwd option"
  getgrnam :: "string \<Rightarrow> string + u32 option"
  getgrouplist :: "string \<Rightarrow> u32 \<Rightarrow> string + u32 list"
  db_euid :: u32
  db_egid :: u32

datatype cred_error =
    LookupFailed string
  | UserNotFound string
  | GroupNotFound string
  | UidMismatch string u32 u32
  | GidMismatch string u32 u32
  | NameContainsNul string

definition lookup_uid :: "user_db \<Rightarrow> string \<Rightarrow> cred_error + u32" where
  "lookup_uid db name =
     (case getpwnam db name of
        Inl e \<Rightarrow> Inl (LookupFailed e)
      | Inr None \<Rightarrow> Inl (UserNotFound name)
      | Inr (Some u) \<Rightarrow> Inr (pw_uid u))"

definition lookup_gid :: "user_db \<Rightarrow> string \<Rightarrow> cred_error + u32" where
  "lookup_gid db name =
     (case getgrnam db name of
        Inl e \<Rightarrow> Inl (LookupFailed e)
      | Inr None \<Rightarrow> Inl (GroupNotFound name)
      | Inr (Some g) \<Rightarrow> Inr g)"

fun resolve_uid :: "user_db \<Rightarrow> string option \<Rightarrow> u32 option \<Rightarrow> cred_error + u32 option" where
  "resolve_uid db (Some name) (Some i) =
     (case lookup_uid db name of
        Inl e \<Rightarrow> Inl e
      | Inr uid \<Rightarrow> if uid = i then Inr (Some uid) else Inl (UidMismatch name uid i))"
| "resolve_uid db (Some name) None =
     (case lookup_uid db name of Inl e \<Rightarrow> Inl e | Inr uid \<Rightarrow> Inr (Some uid))"
| "resolve_uid db None (Some i) = Inr (Some i)"
| "resolve_uid db None None = Inr None"

fun resolve_gid :: "user_db \<Rightarrow> string option \<Rightarrow> u32 option \<Rightarrow> cred_error + u32 option" where
  "resolve_gid db (Some name) (Some i) =
     (case lookup_gid db name of
        Inl e \<Rightarrow> Inl e
      | Inr gid \<Rightarrow> if gid = i then Inr (Some gid) else Inl (GidMismatch name gid i))"
| "resolve_gid db (Some name) None =
     (case lookup_gid db name of Inl e \<Rightarrow> Inl e | Inr gid \<Rightarrow> Inr (Some gid))"
| "resolve_gid db None (Some i) = Inr (Some i)"
| "resolve_gid db None None = Inr None"

record credentials =
  cr_uid :: u32
  cr_gid :: u32
  cr_groups :: "u32 list"

definition resolve_groups :: "user_db \<Rightarrow> passwd option \<Rightarrow> u32 \<Rightarrow> cred_error + u32 list" where
  "resolve_groups db pw gid =
     (case pw of
        Some p \<Rightarrow>
          if CHR 0x00 \<in> set (pw_name p) then Inl (NameContainsNul (pw_name p))
          else (case getgrouplist db (pw_name p) gid of
                  Inl e \<Rightarrow> Inl (LookupFailed e)
                | Inr gs \<Rightarrow> Inr gs)
      | None \<Rightarrow> Inr [])"

definition resolve_credentials ::
  "user_db \<Rightarrow> string option \<Rightarrow> u32 option \<Rightarrow> string option \<Rightarrow> u32 option \<Rightarrow> cred_error + credentials option" where
  "resolve_credentials db user user_id grp group_id =
     (case resolve_uid db user user_id of
        Inl e \<Rightarrow> Inl e
      | Inr uid_opt \<Rightarrow>
     (case resolve_gid db grp group_id of
        Inl e \<Rightarrow> Inl e
      | Inr gid_opt \<Rightarrow>
     if uid_opt = None \<and> gid_opt = None then Inr None
     else
       let uid = (case uid_opt of Some u \<Rightarrow> u | None \<Rightarrow> db_euid db) in
       (case getpwuid db uid of
          Inl e \<Rightarrow> Inl (LookupFailed e)
        | Inr pw \<Rightarrow>
            let gid = (case gid_opt of
                         Some g \<Rightarrow> g
                       | None \<Rightarrow> (case pw of Some p \<Rightarrow> pw_gid p | None \<Rightarrow> uid))
            in (case resolve_groups db pw gid of
                  Inl e \<Rightarrow> Inl e
                | Inr groups \<Rightarrow>
                    Inr (Some \<lparr> cr_uid = uid, cr_gid = gid,
                                cr_groups = (if gid \<in> set groups then groups else gid # groups) \<rparr>)))))"

definition is_current_unprivileged :: "user_db \<Rightarrow> credentials \<Rightarrow> bool" where
  "is_current_unprivileged db c \<longleftrightarrow>
     db_euid db \<noteq> 0 \<and> cr_uid c = db_euid db \<and> cr_gid c = db_egid db"

text \<open>
  \<open>apply_credentials\<close> installs a hook that the child runs between fork and exec; \<open>None\<close> is
  no hook. The hook's system calls are answered by the kernel, the parameter \<open>sys\<close>, which
  sees the calls made so far; a failed call returns its errno.
\<close>

datatype cred_call = Setgroups "u32 list" | Setgid u32 | Setuid u32

definition apply_credentials :: "user_db \<Rightarrow> credentials option \<Rightarrow> credentials option" where
  "apply_credentials db creds =
     (case creds of
        None \<Rightarrow> None
      | Some c \<Rightarrow> if is_current_unprivileged db c then None else Some c)"

definition eperm :: nat where
  "eperm = 1"

fun run_calls :: "(cred_call list \<Rightarrow> cred_call \<Rightarrow> nat option) \<Rightarrow> cred_call list \<Rightarrow> cred_call list \<Rightarrow> cred_call list \<times> nat option" where
  "run_calls sys done [] = (done, None)"
| "run_calls sys done (c # cs) =
     (case sys done c of
        Some e \<Rightarrow> (done @ [c], Some e)
      | None \<Rightarrow> run_calls sys (done @ [c]) cs)"

definition pre_exec :: "(cred_call list \<Rightarrow> cred_call \<Rightarrow> nat option) \<Rightarrow> credentials \<Rightarrow> cred_call list \<times> nat option" where
  "pre_exec sys c =
     (case run_calls sys [] [Setgroups (cr_groups c), Setgid (cr_gid c), Setuid (cr_uid c)] of
        (done, Some e) \<Rightarrow> (done, Some e)
      | (done, None) \<Rightarrow>
          if cr_uid c \<noteq> 0
          then (if sys done (Setuid 0) = None then (done @ [Setuid 0], Some eperm)
                else (done @ [Setuid 0], None))
          else (done, None))"

lemma resolve_uid_given: "resolve_uid db user (Some i) = Inr r \<Longrightarrow> r = Some i"
  by (cases user) (auto split: sum.splits if_splits)

lemma resolve_gid_given: "resolve_gid db grp (Some i) = Inr r \<Longrightarrow> r = Some i"
  by (cases grp) (auto split: sum.splits if_splits)

lemma resolve_uid_None: "resolve_uid db user uid = Inr None \<longleftrightarrow> user = None \<and> uid = None"
  by (cases user; cases uid) (auto split: sum.splits if_splits)

lemma resolve_gid_None: "resolve_gid db grp gid = Inr None \<longleftrightarrow> grp = None \<and> gid = None"
  by (cases grp; cases gid) (auto split: sum.splits if_splits)

lemma resolve_credentials_Some:
  assumes "resolve_uid db user uid = Inr u" and "resolve_gid db grp gid = Inr g"
    and "u \<noteq> None \<or> g \<noteq> None" and "resolve_credentials db user uid grp gid = Inr r"
    and "ud = (case u of Some u \<Rightarrow> u | None \<Rightarrow> db_euid db)"
  shows "\<exists>pw c. getpwuid db ud = Inr pw \<and> r = Some c \<and> cr_uid c = ud \<and>
    cr_gid c \<in> set (cr_groups c) \<and>
    cr_gid c = (case g of Some g \<Rightarrow> g | None \<Rightarrow> (case pw of Some p \<Rightarrow> pw_gid p | None \<Rightarrow> ud))"
proof -
  have "\<not> (u = None \<and> g = None)" using assms(3) by simp
  with assms(4) show ?thesis
    unfolding resolve_credentials_def assms(1,2) sum.case if_False assms(5) [symmetric] Let_def
    by (auto split: sum.splits)
qed

text \<open>
  C33. Credential resolution: nothing is resolved exactly when neither user nor group is
  configured; otherwise the resolved set carries the configured ids, its supplementary groups
  contain its gid, and a user without a configured group never keeps the daemon's gid: it gets
  the primary group of its passwd entry, or gid = uid without one.
\<close>

theorem resolve_credentials_sound:
  assumes "resolve_credentials db user uid grp gid = Inr r"
  shows "(r = None \<longleftrightarrow> user = None \<and> uid = None \<and> grp = None \<and> gid = None) \<and>
    (\<forall>c. r = Some c \<longrightarrow>
       cr_gid c \<in> set (cr_groups c) \<and>
       (\<forall>i. uid = Some i \<longrightarrow> cr_uid c = i) \<and>
       (\<forall>i. gid = Some i \<longrightarrow> cr_gid c = i) \<and>
       (grp = None \<and> gid = None \<longrightarrow>
          (case getpwuid db (cr_uid c) of Inr (Some p) \<Rightarrow> cr_gid c = pw_gid p | _ \<Rightarrow> cr_gid c = cr_uid c)))"
proof -
  from assms obtain u g where u: "resolve_uid db user uid = Inr u" and g: "resolve_gid db grp gid = Inr g"
    by (auto simp: resolve_credentials_def split: sum.splits)
  have none: "u = None \<longleftrightarrow> user = None \<and> uid = None" "g = None \<longleftrightarrow> grp = None \<and> gid = None"
    using resolve_uid_None [of db user uid] resolve_gid_None [of db grp gid] u g by auto
  have given: "\<forall>i. uid = Some i \<longrightarrow> u = Some i" "\<forall>i. gid = Some i \<longrightarrow> g = Some i"
    using resolve_uid_given resolve_gid_given u g by blast+
  show ?thesis
  proof (cases "u = None \<and> g = None")
    case True
    with assms u g none show ?thesis by (simp add: resolve_credentials_def)
  next
    case False
    let ?ud = "case u of Some u \<Rightarrow> u | None \<Rightarrow> db_euid db"
    from False have ug: "u \<noteq> None \<or> g \<noteq> None" by simp
    obtain pw c where c: "getpwuid db ?ud = Inr pw" "r = Some c" "cr_uid c = ?ud"
        "cr_gid c \<in> set (cr_groups c)"
        "cr_gid c = (case g of Some g \<Rightarrow> g | None \<Rightarrow> (case pw of Some p \<Rightarrow> pw_gid p | None \<Rightarrow> ?ud))"
      using resolve_credentials_Some [OF u g ug assms refl] by blast
    have "\<not> (user = None \<and> uid = None \<and> grp = None \<and> gid = None)" using False none by auto
    moreover have "\<forall>i. uid = Some i \<longrightarrow> cr_uid c = i" "\<forall>i. gid = Some i \<longrightarrow> cr_gid c = i"
      using given c by auto
    moreover have "grp = None \<and> gid = None \<longrightarrow>
        (case getpwuid db (cr_uid c) of Inr (Some p) \<Rightarrow> cr_gid c = pw_gid p | _ \<Rightarrow> cr_gid c = cr_uid c)"
      using c none(2) by (cases pw) auto
    ultimately show ?thesis using c(2,4) by auto
  qed
qed

definition demo_db :: user_db where
  "demo_db = \<lparr>
     getpwnam = (\<lambda>n. if n = ''www'' then Inr (Some \<lparr>pw_name = ''www'', pw_uid = 33, pw_gid = 34\<rparr>) else Inr None),
     getpwuid = (\<lambda>u. if u = 33 then Inr (Some \<lparr>pw_name = ''www'', pw_uid = 33, pw_gid = 34\<rparr>) else Inr None),
     getgrnam = (\<lambda>_. Inr None), getgrouplist = (\<lambda>_ _. Inr [50]), db_euid = 0, db_egid = 0 \<rparr>"

theorem resolve_credentials_sound_witness:
  "resolve_credentials demo_db (Some ''www'') None None None =
     Inr (Some \<lparr>cr_uid = 33, cr_gid = 34, cr_groups = [34, 50]\<rparr>) \<and> (34 :: u32) \<in> set [34, 50]"
proof -
  have h: "resolve_credentials demo_db (Some ''www'') None None None =
     Inr (Some \<lparr>cr_uid = 33, cr_gid = 34, cr_groups = [34, 50]\<rparr>)"
    by (simp add: resolve_credentials_def demo_db_def lookup_uid_def resolve_groups_def Let_def)
  from resolve_credentials_sound [OF h] h show ?thesis by simp
qed

text \<open>
  A privilege drop that lets the child start has called \<open>setgroups\<close>, \<open>setgid\<close> and
  \<open>setuid\<close> in this order, each successfully, and for a non-root user it has verified that the
  kernel refuses to give root back.
\<close>

theorem pre_exec_drops_privileges:
  assumes "pre_exec sys c = (calls, None)"
  shows "take 3 calls = [Setgroups (cr_groups c), Setgid (cr_gid c), Setuid (cr_uid c)] \<and>
    (\<forall>i < 3. sys (take i calls) (calls ! i) = None) \<and>
    (cr_uid c \<noteq> 0 \<longrightarrow> calls = take 3 calls @ [Setuid 0] \<and> sys (take 3 calls) (Setuid 0) \<noteq> None)"
proof -
  let ?cs = "[Setgroups (cr_groups c), Setgid (cr_gid c), Setuid (cr_uid c)]"
  from assms have ok: "sys [] (?cs ! 0) = None" "sys [?cs ! 0] (?cs ! 1) = None"
      "sys [?cs ! 0, ?cs ! 1] (?cs ! 2) = None"
    by (auto simp: pre_exec_def split: option.splits prod.splits)
  then have "run_calls sys [] ?cs = (?cs, None)" by simp
  with assms ok show ?thesis
    by (auto simp: pre_exec_def less_Suc_eq numeral_3_eq_3 split: if_splits)
qed

theorem pre_exec_drops_privileges_witness:
  "\<exists>calls. pre_exec (\<lambda>done call. if Setuid 33 \<in> set done \<and> call = Setuid 0 then Some 1 else None)
     \<lparr>cr_uid = 33, cr_gid = 34, cr_groups = [34]\<rparr> = (calls, None) \<and>
     take 3 calls = [Setgroups [34], Setgid 34, Setuid 33]"
proof -
  have h: "pre_exec (\<lambda>done call. if Setuid 33 \<in> set done \<and> call = Setuid 0 then Some 1 else None)
     \<lparr>cr_uid = 33, cr_gid = 34, cr_groups = [34]\<rparr> =
     ([Setgroups [34], Setgid 34, Setuid 33, Setuid 0], None)"
    by (simp add: pre_exec_def)
  from pre_exec_drops_privileges [OF h] h show ?thesis by simp
qed

end
