(* ===== verification/Service.thy ===== *)
theory Service
  imports ApiTypes ProcUtil
begin

text \<open>
  The service actor: \<open>crates/vigild/src/service\<close>. One actor owns one child process and runs a
  loop over commands, the child's exit and two timers. The record \<open>actor\<close> is the Rust struct
  \<open>Actor\<close> together with the local variables of \<open>run\<close>; a timer is the duration it was armed
  with. What the actor does to its surroundings (events, signals, spawns, metrics, replies) is
  appended to \<open>a_trace\<close>; log output is not modelled.

  Everything the operating system decides is the parameter \<open>os\<close>: each answer may depend on the
  number of effects so far, so one \<open>os\<close> describes any behaviour over a whole run.
\<close>

named_theorems actor_simps \<open>fields after each primitive of the actor\<close>

subsection \<open>Interface\<close>

datatype svc_cmd = CmdStart | CmdStop | CmdRestart | CmdStatus | CmdForwardSignal signal | CmdShutdown

record snapshot =
  sn_name :: string
  sn_state :: service_state
  sn_since :: datetime
  sn_startup :: startup
  sn_pid :: "u32 option"

datatype svc_event_kind =
    StateChanged service_state
  | ProcessExited bool
  | DaemonShutdown int

record svc_event =
  ev_service :: string
  ev_kind :: svc_event_kind

definition default_kill_delay :: nat where "default_kill_delay = 5000"
definition default_backoff_delay :: nat where "default_backoff_delay = 500"
definition default_backoff_factor :: f64 where "default_backoff_factor = f64_two"
definition default_backoff_limit :: nat where "default_backoff_limit = 30000"

datatype svc_error =
    NoCommand string
  | CommandError cmd_error
  | EmptyCommand string
  | CredentialError cred_error
  | SpawnFailed string string
  | IsStopping string

record spawn_request =
  sr_argv :: "string list"
  sr_envs :: "(string, string) indexmap"
  sr_current_dir :: "string option"
  sr_credentials :: "credentials option"
  sr_process_group :: int
  sr_piped :: bool

datatype effect =
    EEvent svc_event_kind
  | EKill int signal
  | ESpawn spawn_request u32
  | EReader log_stream bool
  | EServiceStart
  | EServiceActive bool
  | EReply "svc_error + unit"
  | EStatus snapshot
  | ESleep nat
  | EWait u32
  | EPushUnix string
  | EPushTcp string
  | EAbortPush

record os =
  os_clock :: "nat \<Rightarrow> datetime"
  os_kill :: "nat \<Rightarrow> int \<Rightarrow> signal \<Rightarrow> nat option"
  os_spawn :: "nat \<Rightarrow> spawn_request \<Rightarrow> string + u32"
  os_users :: user_db

record actor =
  a_name :: string
  a_config :: service_config
  a_state :: service_state
  a_since :: datetime
  a_child :: "u32 option"
  a_backoff_count :: u32
  a_current_backoff :: nat
  a_backoff_sleep :: "nat option"
  a_stop_deadline :: "nat option"
  a_pending_restart :: bool
  a_running :: bool
  a_trace :: "effect list"

subsection \<open>Primitives\<close>

definition emit :: "effect \<Rightarrow> actor \<Rightarrow> actor" where
  "emit e s = s\<lparr>a_trace := a_trace s @ [e]\<rparr>"

definition actor_new :: "os \<Rightarrow> string \<Rightarrow> service_config \<Rightarrow> actor" where
  "actor_new os nm cfg = \<lparr>
     a_name = nm, a_config = cfg, a_state = Inactive, a_since = os_clock os 0, a_child = None,
     a_backoff_count = 0, a_current_backoff = default_backoff_delay,
     a_backoff_sleep = None, a_stop_deadline = None, a_pending_restart = False,
     a_running = True, a_trace = [] \<rparr>"

definition actor_snapshot :: "actor \<Rightarrow> snapshot" where
  "actor_snapshot s = \<lparr>
     sn_name = a_name s, sn_state = a_state s, sn_since = a_since s,
     sn_startup = svc_startup (a_config s), sn_pid = a_child s \<rparr>"

definition transition :: "os \<Rightarrow> service_state \<Rightarrow> actor \<Rightarrow> actor" where
  "transition os new_state s =
     emit (EEvent (StateChanged new_state))
       (emit (EServiceActive (new_state = Active))
         (s\<lparr>a_state := new_state, a_since := os_clock os (length (a_trace s))\<rparr>))"

subsection \<open>Signals\<close>

definition stop_signal_of :: "actor \<Rightarrow> signal" where
  "stop_signal_of s =
     stop_signal_sig (case svc_stop_signal (a_config s) of Some x \<Rightarrow> x | None \<Rightarrow> stop_signal_default)"

definition kill_delay :: "actor \<Rightarrow> nat" where
  "kill_delay s = duration_or default_kill_delay (svc_kill_delay (a_config s))"

text \<open>
  All three senders signal the process group (the negated pid) and fall back to the process
  itself when that fails; \<open>send_sigkill\<close> does not fall back when the group is gone (ESRCH).
\<close>

definition send_signal :: "os \<Rightarrow> signal \<Rightarrow> actor \<Rightarrow> actor" where
  "send_signal os sig s =
     (case a_child s of
        None \<Rightarrow> s
      | Some pid \<Rightarrow>
          let pgid = - sint pid; s1 = emit (EKill pgid sig) s in
          if os_kill os (length (a_trace s)) pgid sig \<noteq> None then emit (EKill (sint pid) sig) s1 else s1)"

definition send_stop_signal :: "os \<Rightarrow> actor \<Rightarrow> actor" where
  "send_stop_signal os s =
     (case a_child s of
        None \<Rightarrow> s
      | Some pid \<Rightarrow>
          let pgid = - sint pid; sig = stop_signal_of s; s1 = emit (EKill pgid sig) s in
          if os_kill os (length (a_trace s)) pgid sig \<noteq> None then emit (EKill (sint pid) sig) s1 else s1)"

definition esrch :: nat where "esrch = 3"

definition send_sigkill :: "os \<Rightarrow> actor \<Rightarrow> actor" where
  "send_sigkill os s =
     (case a_child s of
        None \<Rightarrow> s
      | Some pid \<Rightarrow>
          let pgid = - sint pid; s1 = emit (EKill pgid SIGKILL) s in
          (case os_kill os (length (a_trace s)) pgid SIGKILL of
             None \<Rightarrow> s1
           | Some e \<Rightarrow> if e \<noteq> esrch then emit (EKill (sint pid) SIGKILL) s1 else s1))"

subsection \<open>Backoff\<close>

definition backoff_limit_of :: "actor \<Rightarrow> nat" where
  "backoff_limit_of s = duration_or default_backoff_limit (svc_backoff_limit (a_config s))"

definition next_backoff :: "actor \<Rightarrow> nat \<times> actor" where
  "next_backoff s =
     (let delay = a_current_backoff s;
          factor = (case svc_backoff_factor (a_config s) of Some f \<Rightarrow> f | None \<Rightarrow> default_backoff_factor);
          nxt = min (scale_millis (a_current_backoff s) factor) (backoff_limit_of s)
      in (delay, s\<lparr>a_current_backoff := nxt, a_backoff_count := a_backoff_count s + 1\<rparr>))"

definition reset_backoff :: "actor \<Rightarrow> actor" where
  "reset_backoff s = s\<lparr>
     a_backoff_count := 0,
     a_current_backoff := duration_or default_backoff_delay (svc_backoff_delay (a_config s)) \<rparr>"

definition backoff_limit_exceeded :: "actor \<Rightarrow> bool" where
  "backoff_limit_exceeded s \<longleftrightarrow> 0 < a_backoff_count s \<and> backoff_limit_of s \<le> a_current_backoff s"

subsection \<open>Spawning\<close>

definition log_mode_of :: "actor \<Rightarrow> logs_forward" where
  "log_mode_of s = (case svc_logs_forward (a_config s) of Some m \<Rightarrow> m | None \<Rightarrow> logs_forward_default)"

text \<open>The end of \<open>do_start\<close>, once the child runs.\<close>

definition started :: "os \<Rightarrow> spawn_request \<Rightarrow> u32 \<Rightarrow> actor \<Rightarrow> actor" where
  "started os req pid s =
     (let s1 = emit (ESpawn req pid) s;
          mode = log_mode_of s;
          s2 = (if mode \<noteq> Passthrough
                then emit (EReader Stderr (mode = LogsEnabled)) (emit (EReader Stdout (mode = LogsEnabled)) s1)
                else s1)
      in transition os Active (emit EServiceStart (s2\<lparr>a_child := Some pid\<rparr>)))"

text \<open>The checks of \<open>do_start\<close> before the process is created, in order.\<close>

definition prepare_spawn :: "os \<Rightarrow> actor \<Rightarrow> svc_error + spawn_request" where
  "prepare_spawn os s =
     (case svc_command (a_config s) of
        None \<Rightarrow> Inl (NoCommand (a_name s))
      | Some cmd_str \<Rightarrow>
     (case parse_command cmd_str of
        Inl e \<Rightarrow> Inl (CommandError e)
      | Inr argv \<Rightarrow>
     if argv = [] then Inl (EmptyCommand (a_name s))
     else
     (case resolve_credentials (os_users os) (svc_user (a_config s)) (svc_user_id (a_config s))
             (svc_group (a_config s)) (svc_group_id (a_config s)) of
        Inl e \<Rightarrow> Inl (CredentialError e)
      | Inr creds \<Rightarrow>
          Inr \<lparr> sr_argv = argv, sr_envs = svc_environment (a_config s),
                sr_current_dir = svc_working_dir (a_config s),
                sr_credentials = apply_credentials (os_users os) creds,
                sr_process_group = 0, sr_piped = (log_mode_of s \<noteq> Passthrough) \<rparr>)))"

definition do_start :: "os \<Rightarrow> actor \<Rightarrow> actor \<times> (svc_error + unit)" where
  "do_start os s =
     (case prepare_spawn os s of
        Inl e \<Rightarrow> (s, Inl e)
      | Inr req \<Rightarrow>
          (case os_spawn os (length (a_trace s)) req of
             Inl e \<Rightarrow> (s, Inl (SpawnFailed (hd (sr_argv req)) e))
           | Inr pid \<Rightarrow> (started os req pid s, Inr ())))"

subsection \<open>Handlers\<close>

text \<open>Each command handler sends exactly one reply, as its last action.\<close>

definition handle_start_result :: "os \<Rightarrow> actor \<Rightarrow> actor \<times> (svc_error + unit)" where
  "handle_start_result os s =
     (if is_running (a_state s) then (s, Inr ())
      else if a_state s = Stopping then (s, Inl (IsStopping (a_name s)))
      else
        (case do_start os (transition os Starting s) of
           (s1, Inr _) \<Rightarrow> ((reset_backoff s1)\<lparr>a_stop_deadline := None\<rparr>, Inr ())
         | (s1, Inl e) \<Rightarrow> (transition os ErrorState s1, Inl e)))"

definition handle_start :: "os \<Rightarrow> actor \<Rightarrow> actor" where
  "handle_start os s = (case handle_start_result os s of (s1, r) \<Rightarrow> emit (EReply r) s1)"

definition handle_stop :: "os \<Rightarrow> actor \<Rightarrow> actor" where
  "handle_stop os s =
     (if a_state s \<in> {Inactive, ErrorState, Stopping} then emit (EReply (Inr ())) s
      else if a_state s = Backoff
      then emit (EReply (Inr ())) (transition os Inactive (s\<lparr>a_backoff_sleep := None\<rparr>))
      else emit (EReply (Inr ()))
             ((transition os Stopping (send_stop_signal os s))\<lparr>a_stop_deadline := Some (kill_delay s)\<rparr>))"

definition handle_restart :: "os \<Rightarrow> actor \<Rightarrow> actor" where
  "handle_restart os s =
     (if is_running (a_state s) \<or> a_state s = Stopping
      then emit (EReply (Inr ()))
             ((transition os Stopping (send_stop_signal os s))
                \<lparr>a_stop_deadline := Some (kill_delay s), a_backoff_sleep := None, a_pending_restart := True\<rparr>)
      else (case handle_start_result os s of (s1, r) \<Rightarrow> emit (EReply r) s1))"

definition shutdown_code :: "on_exit \<Rightarrow> bool \<Rightarrow> int" where
  "shutdown_code policy success =
     (case policy of
        Shutdown \<Rightarrow> (if success then 0 else 10)
      | FailureShutdown \<Rightarrow> 10
      | _ \<Rightarrow> 0)"

definition exit_policy :: "actor \<Rightarrow> bool \<Rightarrow> on_exit option" where
  "exit_policy s success = (if success then svc_on_success (a_config s) else svc_on_failure (a_config s))"

definition apply_policy :: "os \<Rightarrow> bool \<Rightarrow> actor \<Rightarrow> actor" where
  "apply_policy os success s =
     (let restart =
            (if backoff_limit_exceeded s then transition os ErrorState s
             else (case next_backoff s of
                     (delay, s1) \<Rightarrow> (transition os Backoff s1)\<lparr>a_backoff_sleep := Some delay\<rparr>))
      in case exit_policy s success of
           Some Ignore \<Rightarrow> transition os Inactive s
         | Some Restart \<Rightarrow> restart
         | None \<Rightarrow> restart
         | Some p \<Rightarrow> emit (EEvent (DaemonShutdown (shutdown_code p success))) (transition os Inactive s))"

definition handle_child_exit :: "os \<Rightarrow> exit_status option \<Rightarrow> actor \<Rightarrow> actor" where
  "handle_child_exit os exit s =
     (let success = exit_success exit;
          s1 = (emit (EEvent (ProcessExited success)) s)\<lparr>a_child := None, a_stop_deadline := None\<rparr>
      in if a_state s = Stopping
         then
           let s2 = transition os Inactive s1 in
           if a_pending_restart s2
           then (case do_start os (transition os Starting (s2\<lparr>a_pending_restart := False\<rparr>)) of
                   (s3, Inr _) \<Rightarrow> reset_backoff s3
                 | (s3, Inl _) \<Rightarrow> transition os ErrorState s3)
           else s2
         else apply_policy os success s1)"

definition handle_kill_deadline :: "os \<Rightarrow> actor \<Rightarrow> actor" where
  "handle_kill_deadline os s = (if a_child s \<noteq> None then send_sigkill os s else s)"

definition handle_backoff_expired :: "os \<Rightarrow> actor \<Rightarrow> actor" where
  "handle_backoff_expired os s =
     (case do_start os (transition os Starting s) of
        (s1, Inr _) \<Rightarrow> s1\<lparr>a_stop_deadline := None\<rparr>
      | (s1, Inl _) \<Rightarrow> (transition os ErrorState s1)\<lparr>a_stop_deadline := None\<rparr>)"

definition cleanup :: "os \<Rightarrow> actor \<Rightarrow> actor" where
  "cleanup os s =
     (case a_child s of
        None \<Rightarrow> s
      | Some pid \<Rightarrow>
          emit (EWait pid) ((send_sigkill os (emit (ESleep 500) (send_stop_signal os s)))\<lparr>a_child := None\<rparr>))"

subsection \<open>The actor loop\<close>

datatype loop_event =
    OnCmd svc_cmd
  | OnChannelClosed
  | OnChildExit "exit_status option"
  | OnKillDeadline
  | OnBackoffExpired

text \<open>The start of \<open>run\<close>: the log-push tasks the configuration asks for.\<close>

definition actor_start :: "os \<Rightarrow> string \<Rightarrow> service_config \<Rightarrow> actor" where
  "actor_start os nm cfg =
     (let s0 = actor_new os nm cfg;
          s1 = (case svc_logs_push_socket cfg of None \<Rightarrow> s0 | Some p \<Rightarrow> emit (EPushUnix p) s0)
      in case svc_logs_push_addr cfg of None \<Rightarrow> s1 | Some a \<Rightarrow> emit (EPushTcp a) s1)"

text \<open>Which branches of the \<open>select!\<close> can fire.\<close>

fun enabled :: "actor \<Rightarrow> loop_event \<Rightarrow> bool" where
  "enabled s (OnCmd c) = a_running s"
| "enabled s OnChannelClosed = a_running s"
| "enabled s (OnChildExit e) = (a_running s \<and> a_child s \<noteq> None)"
| "enabled s OnKillDeadline = (a_running s \<and> a_stop_deadline s \<noteq> None)"
| "enabled s OnBackoffExpired = (a_running s \<and> a_backoff_sleep s \<noteq> None)"

definition leave_loop :: "os \<Rightarrow> actor \<Rightarrow> actor" where
  "leave_loop os s = cleanup os ((emit EAbortPush s)\<lparr>a_running := False\<rparr>)"

fun dispatch :: "os \<Rightarrow> loop_event \<Rightarrow> actor \<Rightarrow> actor" where
  "dispatch os (OnCmd CmdStart) s = handle_start os s"
| "dispatch os (OnCmd CmdStop) s = handle_stop os s"
| "dispatch os (OnCmd CmdRestart) s = handle_restart os s"
| "dispatch os (OnCmd CmdStatus) s = emit (EStatus (actor_snapshot s)) s"
| "dispatch os (OnCmd (CmdForwardSignal sig)) s = send_signal os sig s"
| "dispatch os (OnCmd CmdShutdown) s = leave_loop os s"
| "dispatch os OnChannelClosed s = leave_loop os s"
| "dispatch os (OnChildExit e) s = handle_child_exit os e s"
| "dispatch os OnKillDeadline s = (handle_kill_deadline os s)\<lparr>a_stop_deadline := None\<rparr>"
| "dispatch os OnBackoffExpired s = (handle_backoff_expired os s)\<lparr>a_backoff_sleep := None\<rparr>"

inductive svc_step :: "os \<Rightarrow> actor \<Rightarrow> actor \<Rightarrow> bool" for os where
  svc_step: "enabled s ev \<Longrightarrow> svc_step os s (dispatch os ev s)"

inductive_cases svc_stepE: "svc_step os s t"

definition svc_init :: "os \<Rightarrow> string \<Rightarrow> service_config \<Rightarrow> actor \<Rightarrow> bool" where
  "svc_init os nm cfg s \<longleftrightarrow> s = actor_start os nm cfg"

fun run_events :: "os \<Rightarrow> loop_event list \<Rightarrow> actor \<Rightarrow> actor" where
  "run_events os [] s = s"
| "run_events os (e # es) s = run_events os es (dispatch os e s)"

end
