(* ===== verification/ServiceProps.thy ===== *)
theory ServiceProps
  imports Service
begin

text \<open>
  Correctness of the service actor: its state invariant, the fate of its child processes, the
  exit policies, the restart backoff and the agreement of its events with its state.
\<close>

subsection \<open>Frames of the primitives\<close>

lemma emit_fields [actor_simps]:
  "a_name (emit e s) = a_name s" "a_config (emit e s) = a_config s" "a_state (emit e s) = a_state s"
  "a_since (emit e s) = a_since s" "a_child (emit e s) = a_child s"
  "a_backoff_count (emit e s) = a_backoff_count s" "a_current_backoff (emit e s) = a_current_backoff s"
  "a_backoff_sleep (emit e s) = a_backoff_sleep s" "a_stop_deadline (emit e s) = a_stop_deadline s"
  "a_pending_restart (emit e s) = a_pending_restart s" "a_running (emit e s) = a_running s"
  "a_trace (emit e s) = a_trace s @ [e]"
  by (simp_all add: emit_def)

lemma transition_fields [actor_simps]:
  "a_name (transition os st s) = a_name s" "a_config (transition os st s) = a_config s"
  "a_state (transition os st s) = st" "a_child (transition os st s) = a_child s"
  "a_backoff_count (transition os st s) = a_backoff_count s"
  "a_current_backoff (transition os st s) = a_current_backoff s"
  "a_backoff_sleep (transition os st s) = a_backoff_sleep s"
  "a_stop_deadline (transition os st s) = a_stop_deadline s"
  "a_pending_restart (transition os st s) = a_pending_restart s"
  "a_running (transition os st s) = a_running s"
  "a_trace (transition os st s) =
     a_trace s @ [EServiceActive (st = Active), EEvent (StateChanged st)]"
  by (simp_all add: transition_def emit_def)

text \<open>Sending a signal changes nothing but the trace, which grows by kills only.\<close>

definition kills_only :: "actor \<Rightarrow> actor \<Rightarrow> bool" where
  "kills_only s t \<longleftrightarrow> (\<exists>ks. t = s\<lparr>a_trace := a_trace s @ ks\<rparr> \<and> (\<forall>e \<in> set ks. \<exists>p sig. e = EKill p sig))"

lemma kills_only_refl: "kills_only s s"
  unfolding kills_only_def by (rule exI [of _ "[]"]) simp

lemma kills_only_emit: "kills_only s (emit (EKill p sig) s)"
  unfolding kills_only_def by (rule exI [of _ "[EKill p sig]"]) (simp add: emit_def)

lemma kills_only_emit2: "kills_only s (emit (EKill p sig) (emit (EKill p' sig') s))"
  unfolding kills_only_def by (rule exI [of _ "[EKill p' sig', EKill p sig]"]) (simp add: emit_def)

lemmas kills_only_intros = kills_only_refl kills_only_emit kills_only_emit2

lemma kills_only_senders:
  "kills_only s (send_signal os sig s)" "kills_only s (send_stop_signal os s)"
  "kills_only s (send_sigkill os s)"
  by (auto simp: send_signal_def send_stop_signal_def send_sigkill_def Let_def kills_only_intros
      split: option.splits)

lemma kills_only_fields:
  assumes "kills_only s t"
  shows "a_name t = a_name s" "a_config t = a_config s" "a_state t = a_state s" "a_child t = a_child s"
    "a_backoff_count t = a_backoff_count s" "a_current_backoff t = a_current_backoff s"
    "a_backoff_sleep t = a_backoff_sleep s" "a_stop_deadline t = a_stop_deadline s"
    "a_pending_restart t = a_pending_restart s" "a_running t = a_running s"
  using assms by (auto simp: kills_only_def)

lemmas sender_fields [actor_simps] =
  kills_only_senders [THEN kills_only_fields(1)] kills_only_senders [THEN kills_only_fields(2)]
  kills_only_senders [THEN kills_only_fields(3)] kills_only_senders [THEN kills_only_fields(4)]
  kills_only_senders [THEN kills_only_fields(5)] kills_only_senders [THEN kills_only_fields(6)]
  kills_only_senders [THEN kills_only_fields(7)] kills_only_senders [THEN kills_only_fields(8)]
  kills_only_senders [THEN kills_only_fields(9)] kills_only_senders [THEN kills_only_fields(10)]

text \<open>A failed start leaves the actor untouched; a successful one is \<open>started\<close>.\<close>

lemma do_start_cases:
  obtains (fails) e where "do_start os s = (s, Inl e)"
  | (starts) req pid where "do_start os s = (started os req pid s, Inr ())"
proof -
  have "(\<exists>e. do_start os s = (s, Inl e)) \<or> (\<exists>req pid. do_start os s = (started os req pid s, Inr ()))"
    by (auto simp: do_start_def split: sum.splits)
  with that show thesis by blast
qed

lemma started_fields [actor_simps]:
  "a_name (started os req pid s) = a_name s" "a_config (started os req pid s) = a_config s"
  "a_state (started os req pid s) = Active" "a_child (started os req pid s) = Some pid"
  "a_backoff_count (started os req pid s) = a_backoff_count s"
  "a_current_backoff (started os req pid s) = a_current_backoff s"
  "a_backoff_sleep (started os req pid s) = a_backoff_sleep s"
  "a_stop_deadline (started os req pid s) = a_stop_deadline s"
  "a_pending_restart (started os req pid s) = a_pending_restart s"
  "a_running (started os req pid s) = a_running s"
  by (simp_all add: started_def Let_def actor_simps)

lemma started_trace [actor_simps]:
  "a_trace (started os req pid s) = a_trace s @ [ESpawn req pid] @
     (if log_mode_of s = Passthrough then []
      else [EReader Stdout (log_mode_of s = LogsEnabled), EReader Stderr (log_mode_of s = LogsEnabled)]) @
     [EServiceStart, EServiceActive True, EEvent (StateChanged Active)]"
  by (simp add: started_def Let_def actor_simps log_mode_of_def)

lemma reset_backoff_fields [actor_simps]:
  "a_name (reset_backoff s) = a_name s" "a_config (reset_backoff s) = a_config s"
  "a_state (reset_backoff s) = a_state s" "a_child (reset_backoff s) = a_child s"
  "a_backoff_sleep (reset_backoff s) = a_backoff_sleep s"
  "a_stop_deadline (reset_backoff s) = a_stop_deadline s"
  "a_pending_restart (reset_backoff s) = a_pending_restart s"
  "a_running (reset_backoff s) = a_running s" "a_trace (reset_backoff s) = a_trace s"
  by (simp_all add: reset_backoff_def)

lemmas handler_defs = handle_start_def handle_start_result_def handle_stop_def handle_restart_def
  handle_child_exit_def apply_policy_def handle_kill_deadline_def handle_backoff_expired_def
  leave_loop_def cleanup_def next_backoff_def

subsection \<open>The state invariant\<close>

text \<open>
  Between two iterations of the loop: the transient state \<open>Starting\<close> is never left behind; a
  running or stopping service has a child; a service in backoff has its restart timer armed; a
  pending restart belongs to a stop in progress with no other restart scheduled; and a stop in
  progress either still has its kill deadline or has sent SIGKILL to the child's group.
\<close>

definition kill_guard :: "actor \<Rightarrow> bool" where
  "kill_guard s \<longleftrightarrow> a_stop_deadline s \<noteq> None \<or>
     (\<exists>pid. a_child s = Some pid \<and> EKill (- sint pid) SIGKILL \<in> set (a_trace s))"

definition actor_inv :: "actor \<Rightarrow> bool" where
  "actor_inv s \<longleftrightarrow>
     a_state s \<noteq> Starting \<and>
     (a_running s \<longrightarrow>
       (a_state s \<in> {Active, Stopping} \<longrightarrow> a_child s \<noteq> None) \<and>
       (a_state s = Backoff \<longrightarrow> a_backoff_sleep s \<noteq> None) \<and>
       (a_pending_restart s \<longrightarrow> a_state s = Stopping \<and> a_backoff_sleep s = None) \<and>
       (a_state s = Stopping \<longrightarrow> kill_guard s))"

lemma actor_inv_start: "actor_inv (actor_start os nm cfg)"
  by (simp add: actor_inv_def actor_start_def actor_new_def Let_def actor_simps split: option.splits)

lemma inv_handle_start_result: "actor_inv s \<Longrightarrow> actor_inv (fst (handle_start_result os s))"
  by (cases rule: do_start_cases [of os "transition os Starting s"])
    (auto simp: handle_start_result_def actor_inv_def kill_guard_def actor_simps)

lemma actor_inv_emit: "actor_inv s \<Longrightarrow> actor_inv (emit e s)"
  by (auto simp: actor_inv_def kill_guard_def actor_simps)

lemma inv_handle_start: "actor_inv s \<Longrightarrow> actor_inv (handle_start os s)"
  using inv_handle_start_result [of s os]
  by (auto simp: handle_start_def actor_inv_emit split: prod.splits)

lemma inv_handle_stop: "actor_inv s \<Longrightarrow> a_running s \<Longrightarrow> actor_inv (handle_stop os s)"
  by (cases "a_state s") (auto simp: handle_stop_def actor_inv_def kill_guard_def actor_simps)

lemma handle_restart_idle: "\<not> is_running (a_state s) \<Longrightarrow> a_state s \<noteq> Stopping \<Longrightarrow> handle_restart os s = handle_start os s"
  by (simp add: handle_restart_def handle_start_def)

lemma handle_restart_busy: "is_running (a_state s) \<or> a_state s = Stopping \<Longrightarrow>
    handle_restart os s = emit (EReply (Inr ())) ((transition os Stopping (send_stop_signal os s))
       \<lparr>a_stop_deadline := Some (kill_delay s), a_backoff_sleep := None, a_pending_restart := True\<rparr>)"
  by (simp add: handle_restart_def)

lemma inv_handle_restart:
  assumes "actor_inv s" and "a_running s"
  shows "actor_inv (handle_restart os s)"
proof (cases "is_running (a_state s) \<or> a_state s = Stopping")
  case True
  then have "a_state s \<in> {Active, Stopping}" using assms(1) by (cases "a_state s") (auto simp: actor_inv_def)
  with assms show ?thesis
    unfolding handle_restart_busy [OF True] by (elim insertE) (auto simp: actor_inv_def kill_guard_def actor_simps)
next
  case False
  then show ?thesis using assms(1) by (simp add: handle_restart_idle inv_handle_start)
qed

lemma inv_apply_policy:
  "a_running s \<Longrightarrow> \<not> a_pending_restart s \<Longrightarrow> actor_inv (apply_policy os success s)"
  by (auto simp: apply_policy_def next_backoff_def Let_def actor_inv_def actor_simps
      split: option.splits on_exit.splits)

lemma inv_handle_child_exit: "actor_inv s \<Longrightarrow> a_running s \<Longrightarrow> actor_inv (handle_child_exit os e s)"
proof (cases "a_state s = Stopping")
  case True
  let ?s2 = "transition os Inactive ((emit (EEvent (ProcessExited (exit_success e))) s)\<lparr>a_child := None, a_stop_deadline := None\<rparr>)"
  assume "actor_inv s" "a_running s"
  with True show ?thesis
    by (cases rule: do_start_cases [of os "transition os Starting (?s2\<lparr>a_pending_restart := False\<rparr>)"])
      (auto simp: handle_child_exit_def Let_def actor_inv_def actor_simps)
next
  case False
  let ?s1 = "(emit (EEvent (ProcessExited (exit_success e))) s)\<lparr>a_child := None, a_stop_deadline := None\<rparr>"
  assume "actor_inv s" "a_running s"
  with False have "a_running ?s1" "\<not> a_pending_restart ?s1"
    by (auto simp: actor_inv_def actor_simps)
  with False show ?thesis by (simp add: handle_child_exit_def Let_def inv_apply_policy)
qed

lemma sigkill_sent: "a_child s = Some pid \<Longrightarrow> EKill (- sint pid) SIGKILL \<in> set (a_trace (send_sigkill os s))"
  by (auto simp: send_sigkill_def Let_def actor_simps split: option.splits)

lemma inv_kill_deadline: "actor_inv s \<Longrightarrow> a_running s \<Longrightarrow> actor_inv (dispatch os OnKillDeadline s)"
  by (auto simp: handle_kill_deadline_def actor_inv_def kill_guard_def actor_simps dest: sigkill_sent)

lemma inv_backoff_expired:
  assumes "actor_inv s" and "a_running s" and "a_backoff_sleep s \<noteq> None"
  shows "actor_inv (dispatch os OnBackoffExpired s)"
  using assms
  by (cases rule: do_start_cases [of os "transition os Starting s"])
    (auto simp: handle_backoff_expired_def actor_inv_def actor_simps)

lemma inv_leave_loop: "actor_inv s \<Longrightarrow> actor_inv (leave_loop os s)"
  by (auto simp: leave_loop_def cleanup_def actor_inv_def actor_simps split: option.splits)

lemma inv_kills_only:
  assumes "actor_inv s" and "kills_only s t"
  shows "actor_inv t"
proof -
  have "set (a_trace s) \<subseteq> set (a_trace t)" using assms(2) by (auto simp: kills_only_def)
  then have "kill_guard s \<Longrightarrow> kill_guard t"
    using kills_only_fields(4,8) [OF assms(2)] by (auto simp: kill_guard_def)
  with assms(1) show ?thesis
    unfolding actor_inv_def kills_only_fields [OF assms(2)] by blast
qed

lemma inv_send_signal: "actor_inv s \<Longrightarrow> actor_inv (send_signal os sig s)"
  by (rule inv_kills_only [OF _ kills_only_senders(1)])

lemma inv_dispatch:
  assumes "actor_inv s" and "enabled s ev"
  shows "actor_inv (dispatch os ev s)"
proof (cases ev)
  case (OnCmd c)
  with assms show ?thesis
    by (cases c)
      (auto simp: inv_handle_start inv_handle_stop inv_handle_restart inv_leave_loop inv_send_signal actor_inv_emit)
next
  case OnChannelClosed
  with assms show ?thesis by (simp add: inv_leave_loop)
next
  case (OnChildExit e)
  with assms show ?thesis by (simp add: inv_handle_child_exit)
next
  case OnKillDeadline
  with assms inv_kill_deadline show ?thesis by simp
next
  case OnBackoffExpired
  with assms inv_backoff_expired show ?thesis by simp
qed

interpretation actor: invariant_system "svc_init os nm cfg" "svc_step os" actor_inv for os nm cfg
  by unfold_locales (auto simp: svc_init_def actor_inv_start intro: inv_dispatch elim: svc_stepE)

text \<open>
  C1. In every state the actor's loop can reach, whatever the commands, exits, timers and
  operating-system answers: \<open>Starting\<close> is never observable between events, a running or
  stopping service has a child process, a service in backoff has its restart timer armed, a
  pending restart implies a stop in progress, and a stop in progress is bounded by an armed
  kill deadline or an already sent SIGKILL.
\<close>

theorem actor_invariant:
  assumes "reach (svc_init os nm cfg) (svc_step os) s"
  shows "actor_inv s"
  using assms by (rule actor.reach_inv)

subsection \<open>A small operating system for the witnesses\<close>

definition calm_os :: os where
  "calm_os = \<lparr>
     os_clock = (\<lambda>n. int n), os_kill = (\<lambda>_ _ _. None),
     os_spawn = (\<lambda>n _. Inr (of_nat n)),
     os_users = \<lparr> getpwnam = (\<lambda>_. Inr None), getpwuid = (\<lambda>_. Inr None), getgrnam = (\<lambda>_. Inr None),
                  getgrouplist = (\<lambda>_ _. Inr []), db_euid = 0, db_egid = 0 \<rparr> \<rparr>"

definition sleep_cfg :: service_config where
  "sleep_cfg = service_config_default\<lparr>svc_command := Some ''sleep 9''\<rparr>"

lemma reach_run_init: "reach (svc_init os nm cfg) (svc_step os) (actor_start os nm cfg)"
  by (rule reach_init) (simp add: svc_init_def)

lemma reach_dispatch: "reach (svc_init os nm cfg) (svc_step os) s \<Longrightarrow> enabled s ev \<Longrightarrow>
    reach (svc_init os nm cfg) (svc_step os) (dispatch os ev s)"
  by (rule reach_step) (auto intro: svc_step.intros)

theorem actor_invariant_witness:
  "actor_inv (dispatch calm_os (OnCmd CmdStart) (actor_start calm_os ''s'' sleep_cfg))"
  by (rule actor_invariant [of calm_os "''s''" sleep_cfg], rule reach_dispatch, rule reach_run_init)
    (simp add: actor_start_def actor_new_def sleep_cfg_def service_config_default_def)

end
