(* ===== verification/ServiceProcs.thy ===== *)
theory ServiceProcs
  imports ServiceProps
begin

text \<open>
  What the actor does with its child processes, its exit policies, its restart backoff and the
  events it reports.
\<close>

subsection \<open>Processes started and collected\<close>

text \<open>
  A process is started by \<open>ESpawn\<close> and collected by the exit event of the loop or the final
  wait of \<open>cleanup\<close>. The difference is the number of processes the actor has started and not
  yet collected.
\<close>

fun is_spawn :: "effect \<Rightarrow> bool" where
  "is_spawn (ESpawn _ _) = True"
| "is_spawn _ = False"

fun is_collect :: "effect \<Rightarrow> bool" where
  "is_collect (EEvent (ProcessExited _)) = True"
| "is_collect (EWait _) = True"
| "is_collect _ = False"

fun is_kill :: "effect \<Rightarrow> bool" where
  "is_kill (EKill _ _) = True"
| "is_kill _ = False"

definition outstanding :: "actor \<Rightarrow> int" where
  "outstanding s = int (length (filter is_spawn (a_trace s))) - int (length (filter is_collect (a_trace s)))"

definition child_count :: "actor \<Rightarrow> int" where
  "child_count s = (if a_child s = None then 0 else 1)"

text \<open>The steps of an environment that never starts a service that is in backoff.\<close>

definition restrained :: "actor \<Rightarrow> loop_event \<Rightarrow> bool" where
  "restrained s ev \<longleftrightarrow> \<not> (a_state s = Backoff \<and> (ev = OnCmd CmdStart \<or> ev = OnCmd CmdRestart))"

inductive restrained_step :: "os \<Rightarrow> actor \<Rightarrow> actor \<Rightarrow> bool" for os where
  restrained_step: "enabled s ev \<Longrightarrow> restrained s ev \<Longrightarrow> restrained_step os s (dispatch os ev s)"

inductive_cases restrained_stepE: "restrained_step os s t"

definition single_child :: "actor \<Rightarrow> bool" where
  "single_child s \<longleftrightarrow> actor_inv s \<and> outstanding s = child_count s \<and>
     (a_running s \<and> a_backoff_sleep s \<noteq> None \<longrightarrow> a_state s = Backoff) \<and>
     (a_running s \<and> a_state s \<in> {Inactive, Backoff, ErrorState} \<longrightarrow> a_child s = None)"

lemma outstanding_kills_only: "kills_only s t \<Longrightarrow> outstanding t = outstanding s"
proof -
  assume "kills_only s t"
  then obtain ks where t: "a_trace t = a_trace s @ ks" and ks: "\<forall>e \<in> set ks. \<exists>p sig. e = EKill p sig"
    by (auto simp: kills_only_def)
  have "filter is_spawn ks = []" "filter is_collect ks = []" using ks by (auto simp: filter_empty_conv)
  with t show ?thesis by (simp add: outstanding_def)
qed

lemma outstanding_emit: "outstanding (emit e s) =
    outstanding s + (if is_spawn e then 1 else 0) - (if is_collect e then 1 else 0)"
  by (simp add: outstanding_def actor_simps)

lemma outstanding_transition [simp]: "outstanding (transition os st s) = outstanding s"
  by (simp add: outstanding_def actor_simps)

lemma outstanding_started [simp]: "outstanding (started os req pid s) = outstanding s + 1"
  by (simp add: outstanding_def actor_simps)

lemma outstanding_updates [simp]:
  "outstanding (s\<lparr>a_child := c\<rparr>) = outstanding s" "outstanding (s\<lparr>a_stop_deadline := d\<rparr>) = outstanding s"
  "outstanding (s\<lparr>a_backoff_sleep := d\<rparr>) = outstanding s" "outstanding (s\<lparr>a_pending_restart := b\<rparr>) = outstanding s"
  "outstanding (s\<lparr>a_running := b\<rparr>) = outstanding s" "outstanding (reset_backoff s) = outstanding s"
  "outstanding (s\<lparr>a_current_backoff := n, a_backoff_count := k\<rparr>) = outstanding s"
  "outstanding (s\<lparr>a_backoff_count := k, a_current_backoff := n\<rparr>) = outstanding s"
  by (simp_all add: outstanding_def reset_backoff_def)

lemma outstanding_senders [simp]:
  "outstanding (send_signal os sig s) = outstanding s" "outstanding (send_stop_signal os s) = outstanding s"
  "outstanding (send_sigkill os s) = outstanding s"
  by (rule outstanding_kills_only, rule kills_only_senders)+

lemmas outstanding_simps = outstanding_emit child_count_def actor_simps

lemma outstanding_handle_start_result:
  assumes "outstanding s = child_count s" and "\<not> a_state s \<in> {Inactive, ErrorState} \<or> a_child s = None"
    and "a_state s \<noteq> Backoff"
  shows "outstanding (fst (handle_start_result os s)) = child_count (fst (handle_start_result os s))"
  using assms
  by (cases "a_state s"; cases rule: do_start_cases [of os "transition os Starting s"])
    (auto simp: handle_start_result_def outstanding_simps)

lemma single_child_start: "single_child (actor_start os nm cfg)"
  by (simp add: single_child_def actor_inv_start)
    (simp add: actor_start_def actor_new_def Let_def outstanding_def child_count_def actor_simps split: option.splits)

lemma handle_start_cases:
  obtains (noop) r where "is_running (a_state s) \<or> a_state s = Stopping" "handle_start os s = emit (EReply r) s"
  | (fails) e where "\<not> is_running (a_state s)" "a_state s \<noteq> Stopping"
      "handle_start os s = emit (EReply (Inl e)) (transition os ErrorState (transition os Starting s))"
  | (starts) req pid where "\<not> is_running (a_state s)" "a_state s \<noteq> Stopping"
      "handle_start os s = emit (EReply (Inr ()))
         ((reset_backoff (started os req pid (transition os Starting s)))\<lparr>a_stop_deadline := None\<rparr>)"
proof (cases "is_running (a_state s) \<or> a_state s = Stopping")
  case True
  with that(1) show ?thesis by (auto simp: handle_start_def handle_start_result_def)
next
  case False
  with that(2,3) show ?thesis
    by (cases rule: do_start_cases [of os "transition os Starting s"])
      (auto simp: handle_start_def handle_start_result_def)
qed

lemma single_child_handle_start:
  assumes "single_child s" and "a_running s" and "a_state s \<noteq> Backoff"
  shows "single_child (handle_start os s)"
proof -
  have inv: "actor_inv (handle_start os s)" using assms by (simp add: single_child_def inv_handle_start)
  show ?thesis
  proof (cases rule: handle_start_cases [of s os])
    case (noop r)
    with assms show ?thesis by (auto simp: single_child_def actor_inv_emit outstanding_simps)
  next
    case (fails e)
    with assms have "a_state s \<in> {Inactive, ErrorState}" by (cases "a_state s") auto
    with fails assms inv show ?thesis by (auto simp: single_child_def outstanding_simps)
  next
    case (starts req pid)
    with assms have "a_state s \<in> {Inactive, ErrorState}" by (cases "a_state s") auto
    with starts assms inv show ?thesis by (auto simp: single_child_def outstanding_simps)
  qed
qed

lemma single_child_handle_stop:
  assumes "single_child s" and "a_running s"
  shows "single_child (handle_stop os s)"
proof -
  have inv: "actor_inv (handle_stop os s)" using assms by (simp add: single_child_def inv_handle_stop)
  from assms show ?thesis
    by (cases "a_state s") (auto simp: single_child_def inv, auto simp: handle_stop_def actor_inv_def outstanding_simps)
qed

lemma single_child_handle_restart:
  assumes "single_child s" and "a_running s" and "a_state s \<noteq> Backoff"
  shows "single_child (handle_restart os s)"
proof (cases "is_running (a_state s) \<or> a_state s = Stopping")
  case True
  have inv: "actor_inv (handle_restart os s)" using assms by (simp add: single_child_def inv_handle_restart)
  from assms True show ?thesis
    by (auto simp: single_child_def inv, auto simp: handle_restart_busy outstanding_simps)
next
  case False
  then show ?thesis using assms by (simp add: handle_restart_idle single_child_handle_start)
qed

lemma single_child_handle_child_exit:
  assumes "single_child s" and "a_running s" and "a_child s \<noteq> None"
  shows "single_child (handle_child_exit os e s)"
proof -
  let ?s1 = "(emit (EEvent (ProcessExited (exit_success e))) s)\<lparr>a_child := None, a_stop_deadline := None\<rparr>"
  let ?s2 = "(transition os Inactive ?s1)\<lparr>a_pending_restart := False\<rparr>"
  have inv: "actor_inv (handle_child_exit os e s)" using assms by (simp add: single_child_def inv_handle_child_exit)
  have st: "a_state s \<in> {Active, Stopping}" "a_backoff_sleep s = None" "outstanding s = 1"
    using assms by (cases "a_state s"; auto simp: single_child_def actor_inv_def child_count_def)+
  show ?thesis
  proof (cases "a_state s = Stopping")
    case True
    show ?thesis
    proof (cases "a_pending_restart s")
      case False
      with True st inv show ?thesis
        by (auto simp: single_child_def handle_child_exit_def Let_def outstanding_simps)
    next
      case pending: True
      show ?thesis
        by (cases rule: do_start_cases [of os "transition os Starting ?s2"])
          (use True pending st inv in \<open>auto simp: single_child_def handle_child_exit_def Let_def outstanding_simps\<close>)
    qed
  next
    case False
    with st show ?thesis
      by (auto simp: single_child_def inv, auto simp: handle_child_exit_def apply_policy_def next_backoff_def Let_def
          outstanding_simps split: option.splits on_exit.splits if_splits)
  qed
qed

lemma single_child_kill_deadline:
  assumes "single_child s" and "a_running s"
  shows "single_child (dispatch os OnKillDeadline s)"
proof -
  have inv: "actor_inv (dispatch os OnKillDeadline s)" using assms inv_kill_deadline by (simp add: single_child_def)
  from assms show ?thesis
    by (auto simp: single_child_def inv simp del: dispatch.simps)
      (auto simp: handle_kill_deadline_def outstanding_simps split: if_splits)
qed

lemma single_child_backoff_expired:
  assumes "single_child s" and "a_running s" and "a_backoff_sleep s \<noteq> None"
  shows "single_child (dispatch os OnBackoffExpired s)"
proof -
  have inv: "actor_inv (dispatch os OnBackoffExpired s)"
    using assms inv_backoff_expired by (simp add: single_child_def)
  have "a_state s = Backoff" "a_child s = None" using assms by (auto simp: single_child_def)
  with assms show ?thesis
    by (cases rule: do_start_cases [of os "transition os Starting s"])
      (auto simp: single_child_def inv simp del: dispatch.simps, auto simp: handle_backoff_expired_def outstanding_simps)
qed

lemma single_child_leave_loop:
  assumes "single_child s"
  shows "single_child (leave_loop os s)"
  using assms
  by (auto simp: single_child_def inv_leave_loop)
    (auto simp: leave_loop_def cleanup_def outstanding_simps split: option.splits)

lemma single_child_dispatch:
  assumes "single_child s" and "enabled s ev" and "restrained s ev"
  shows "single_child (dispatch os ev s)"
proof (cases ev)
  case (OnCmd c)
  have "single_child (emit (EStatus x) s)" for x
    using assms(1) by (auto simp: single_child_def actor_inv_emit) (auto simp: outstanding_simps)
  moreover have "single_child (send_signal os sig s)" for sig
    using assms(1) by (auto simp: single_child_def inv_send_signal) (auto simp: outstanding_simps)
  ultimately show ?thesis
    using OnCmd assms
    by (cases c) (auto simp: restrained_def single_child_handle_start single_child_handle_stop
        single_child_handle_restart single_child_leave_loop)
next
  case OnChannelClosed
  with assms show ?thesis by (simp add: single_child_leave_loop)
next
  case (OnChildExit e)
  with assms show ?thesis by (simp add: single_child_handle_child_exit)
next
  case OnKillDeadline
  with assms single_child_kill_deadline show ?thesis by simp
next
  case OnBackoffExpired
  with assms single_child_backoff_expired show ?thesis by simp
qed

interpretation single: invariant_system "svc_init os nm cfg" "restrained_step os" single_child for os nm cfg
  by unfold_locales (auto simp: svc_init_def single_child_start intro: single_child_dispatch elim: restrained_stepE)

text \<open>
  C2. No process is lost: as long as no start or restart is requested while the service is in
  backoff, the actor at every moment has exactly one uncollected process if it holds a child and
  none otherwise; in particular no two processes of one service run at the same time.
\<close>

theorem one_process_per_service:
  assumes "reach (svc_init os nm cfg) (restrained_step os) s"
  shows "outstanding s = (if a_child s = None then 0 else 1)"
  using single.reach_inv [OF assms] by (simp add: single_child_def child_count_def)

lemma reach_restrained: "reach (svc_init os nm cfg) (restrained_step os) s \<Longrightarrow> enabled s ev \<Longrightarrow> restrained s ev \<Longrightarrow>
    reach (svc_init os nm cfg) (restrained_step os) (dispatch os ev s)"
  by (rule reach_step) (auto intro: restrained_step.intros)

theorem one_process_per_service_witness:
  "outstanding (dispatch calm_os (OnCmd CmdStop) (actor_start calm_os ''s'' sleep_cfg)) = 0"
proof -
  let ?s0 = "actor_start calm_os ''s'' sleep_cfg"
  have "reach (svc_init calm_os ''s'' sleep_cfg) (restrained_step calm_os) (dispatch calm_os (OnCmd CmdStop) ?s0)"
    by (rule reach_restrained, rule reach_init)
      (auto simp: svc_init_def restrained_def actor_start_def actor_new_def sleep_cfg_def service_config_default_def)
  from one_process_per_service [OF this] show ?thesis
    by (simp add: handle_stop_def actor_start_def actor_new_def sleep_cfg_def service_config_default_def actor_simps)
qed

subsection \<open>A start during backoff\<close>

definition silent :: "actor \<Rightarrow> actor \<Rightarrow> bool" where
  "silent s t \<longleftrightarrow> (\<exists>new. a_trace t = a_trace s @ new \<and>
     (\<forall>e \<in> set new. \<not> is_kill e \<and> \<not> is_collect e))"

lemma silentI: "a_trace t = a_trace s @ new \<Longrightarrow> \<forall>e \<in> set new. \<not> is_kill e \<and> \<not> is_collect e \<Longrightarrow> silent s t"
  by (auto simp: silent_def)

lemma silent_trans: "silent s t \<Longrightarrow> silent t u \<Longrightarrow> silent s u"
  by (auto simp: silent_def)

lemma silent_transition: "silent s (transition os st s)"
  by (rule silentI, rule transition_fields) auto

lemma silent_started: "silent s (started os req pid s)"
  by (rule silentI, rule started_trace) auto

lemma silent_reply: "silent s (emit (EReply r) s)"
  by (rule silentI, rule emit_fields) auto

lemma silent_same: "a_trace t = a_trace s \<Longrightarrow> silent s t"
  by (rule silentI [of _ _ "[]"]) auto

text \<open>
  C29. Without that restraint the guarantee is lost: \<open>handle_start\<close> does not disarm the backoff
  timer, so when a service in backoff is started by hand and the timer then fires, the actor
  spawns a second process and forgets the first one, without ever signalling or collecting it.
\<close>

theorem start_during_backoff_orphans:
  assumes "a_state s = Backoff" and "prepare_spawn os (transition os Starting s) = Inr req"
    and "os_spawn os (length (a_trace s) + 2) req = Inr p1"
    and "t = handle_start os s"
    and "prepare_spawn os (transition os Starting t) = Inr req'"
    and "os_spawn os (length (a_trace t) + 2) req' = Inr p2"
  shows "a_child t = Some p1 \<and> a_backoff_sleep t = a_backoff_sleep s \<and>
    a_child (dispatch os OnBackoffExpired t) = Some p2 \<and>
    (\<exists>new. a_trace (dispatch os OnBackoffExpired t) = a_trace s @ new \<and>
       (\<forall>e \<in> set new. \<not> is_kill e \<and> \<not> is_collect e)) \<and>
    outstanding (dispatch os OnBackoffExpired t) = outstanding s + 2"
proof -
  have d1: "do_start os (transition os Starting s) = (started os req p1 (transition os Starting s), Inr ())"
    using assms(2,3) by (simp add: do_start_def actor_simps)
  have t: "t = emit (EReply (Inr ())) ((reset_backoff (started os req p1 (transition os Starting s)))\<lparr>a_stop_deadline := None\<rparr>)"
    unfolding assms(4) using assms(1) d1 by (simp add: handle_start_def handle_start_result_def)
  have d2: "do_start os (transition os Starting t) = (started os req' p2 (transition os Starting t), Inr ())"
    using assms(5,6) by (simp add: do_start_def actor_simps)
  have u: "dispatch os OnBackoffExpired t =
      (started os req' p2 (transition os Starting t))\<lparr>a_stop_deadline := None, a_backoff_sleep := None\<rparr>"
    using d2 by (simp add: handle_backoff_expired_def)
  let ?a = "started os req p1 (transition os Starting s)"
  have st: "silent s t"
    unfolding t
    by (rule silent_trans [OF _ silent_reply], rule silent_trans [of _ ?a],
        rule silent_trans [OF silent_transition silent_started]) (simp add: silent_same actor_simps)
  have "silent t (dispatch os OnBackoffExpired t)"
    unfolding u
    by (rule silent_trans [OF silent_transition [of t os Starting]],
        rule silent_trans [OF silent_started [of _ os req' p2]]) (simp add: silent_same)
  with st have tr: "silent s (dispatch os OnBackoffExpired t)" by (rule silent_trans)
  have "outstanding (dispatch os OnBackoffExpired t) = outstanding s + 2"
    unfolding u by (simp add: t outstanding_emit)
  with tr show ?thesis unfolding silent_def unfolding u by (simp add: t actor_simps)
qed

definition sleep_req :: spawn_request where
  "sleep_req = \<lparr> sr_argv = [''sleep'', ''9''], sr_envs = [], sr_current_dir = None,
     sr_credentials = None, sr_process_group = 0, sr_piped = True \<rparr>"

lemma parse_sleep: "parse_command ''sleep 9'' = Inr [''sleep'', ''9'']"
  by code_simp

lemma prepare_sleep: "a_config s = sleep_cfg \<Longrightarrow> prepare_spawn calm_os s = Inr sleep_req"
  by (simp add: prepare_spawn_def sleep_cfg_def service_config_default_def parse_sleep calm_os_def
      resolve_credentials_def apply_credentials_def sleep_req_def log_mode_of_def logs_forward_default_def)

lemma do_start_sleep: "a_config s = sleep_cfg \<Longrightarrow>
    do_start calm_os s = (started calm_os sleep_req (of_nat (length (a_trace s))) s, Inr ())"
  using prepare_sleep [of s] by (simp add: do_start_def calm_os_def)

definition crashed :: actor where
  "crashed = (actor_start calm_os ''s'' sleep_cfg)\<lparr>a_state := Backoff, a_backoff_sleep := Some 500\<rparr>"

lemma crashed_fields: "a_state crashed = Backoff" "a_config crashed = sleep_cfg" "a_trace crashed = []"
    "a_backoff_sleep crashed = Some 500"
  by (simp_all add: crashed_def actor_start_def actor_new_def sleep_cfg_def service_config_default_def)

theorem start_during_backoff_orphans_witness:
  "outstanding (dispatch calm_os OnBackoffExpired (handle_start calm_os crashed)) = outstanding crashed + 2"
proof -
  let ?t = "handle_start calm_os crashed"
  have cfg: "a_config ?t = sleep_cfg"
    by (simp add: handle_start_def handle_start_result_def do_start_sleep crashed_fields actor_simps)
  have "os_spawn calm_os n r = Inr (of_nat n)" for n r by (simp add: calm_os_def)
  from start_during_backoff_orphans [OF crashed_fields(1) _ this refl _ this]
  show ?thesis by (simp add: prepare_sleep cfg crashed_fields actor_simps)
qed

end
