(* ===== verification/ServiceSpec.thy ===== *)
theory ServiceSpec
  imports ServiceProcs
begin

text \<open>
  The contract of the service actor towards the overlord and the operator: its exit policies,
  its restart backoff, the stop sequence, and the agreement of what it reports with its state.
\<close>

subsection \<open>Exit policies\<close>

lemma child_exit_alive: "a_state s \<noteq> Stopping \<Longrightarrow> handle_child_exit os e s =
    apply_policy os (exit_success e)
      ((emit (EEvent (ProcessExited (exit_success e))) s)\<lparr>a_child := None, a_stop_deadline := None\<rparr>)"
  by (simp add: handle_child_exit_def Let_def)

text \<open>
  C22. When a process exits that nobody asked to stop, the configured policy decides: \<open>ignore\<close>
  leaves the service inactive; the three shutdown policies leave it inactive and report a daemon
  shutdown with exit code 0 or 10, never with the exit code of the service (which README.md and
  docs/operator-guide/container-setup.md promise); \<open>restart\<close> (and no policy) schedules a
  restart after the current delay, or gives up in the error state once the limit is exceeded.
\<close>

theorem child_exit_follows_policy:
  assumes "a_state s \<noteq> Stopping"
  shows "let ok = exit_success e; t = handle_child_exit os e s in
    a_child t = None \<and>
    (case exit_policy s ok of
       Some Ignore \<Rightarrow> a_state t = Inactive \<and> a_trace t = a_trace s @
         [EEvent (ProcessExited ok), EServiceActive False, EEvent (StateChanged Inactive)]
     | Some Shutdown \<Rightarrow> a_state t = Inactive \<and> a_trace t = a_trace s @
         [EEvent (ProcessExited ok), EServiceActive False, EEvent (StateChanged Inactive),
          EEvent (DaemonShutdown (if ok then 0 else 10))]
     | Some FailureShutdown \<Rightarrow> a_state t = Inactive \<and> a_trace t = a_trace s @
         [EEvent (ProcessExited ok), EServiceActive False, EEvent (StateChanged Inactive),
          EEvent (DaemonShutdown 10)]
     | Some SuccessShutdown \<Rightarrow> a_state t = Inactive \<and> a_trace t = a_trace s @
         [EEvent (ProcessExited ok), EServiceActive False, EEvent (StateChanged Inactive),
          EEvent (DaemonShutdown 0)]
     | _ \<Rightarrow>
         if 0 < a_backoff_count s \<and> backoff_limit_of s \<le> a_current_backoff s
         then a_state t = ErrorState
         else a_state t = Backoff \<and> a_backoff_sleep t = Some (a_current_backoff s))"
  using assms
  by (auto simp: child_exit_alive apply_policy_def exit_policy_def shutdown_code_def next_backoff_def
      backoff_limit_exceeded_def backoff_limit_of_def Let_def actor_simps
      split: option.splits on_exit.splits)

theorem child_exit_follows_policy_witness:
  "a_state (handle_child_exit calm_os (Some (ExitedWith 0)) (actor_start calm_os ''s''
      (sleep_cfg\<lparr>svc_on_success := Some FailureShutdown\<rparr>))) = Inactive"
  using child_exit_follows_policy [of "actor_start calm_os ''s'' (sleep_cfg\<lparr>svc_on_success := Some FailureShutdown\<rparr>)"
      "Some (ExitedWith 0)" calm_os]
  by (simp add: actor_start_def actor_new_def sleep_cfg_def service_config_default_def exit_policy_def
      exit_success_def Let_def)

subsection \<open>The stop sequence\<close>

text \<open>
  Stopping a running service sends the configured stop signal to its process group before
  anything else and arms the kill deadline with the configured kill delay; if the deadline fires
  the group gets SIGKILL; and when the process exits, the service becomes inactive whatever its
  exit policies say: it is neither restarted nor does it shut the daemon down.
\<close>

theorem stop_sequence:
  assumes "a_state s = Active" and "a_child s = Some pid" and "\<not> a_pending_restart s"
  shows "let t = handle_stop os s; k = dispatch os OnKillDeadline t; u = handle_child_exit os e t in
    a_state t = Stopping \<and> a_stop_deadline t = Some (kill_delay s) \<and>
    (\<exists>more. a_trace t = a_trace s @ EKill (- sint pid) (stop_signal_of s) # more) \<and>
    EKill (- sint pid) SIGKILL \<in> set (a_trace k) \<and> a_stop_deadline k = None \<and>
    a_state u = Inactive \<and> a_stop_deadline u = None \<and> a_backoff_sleep u = a_backoff_sleep s \<and>
    a_trace u = a_trace t @
      [EEvent (ProcessExited (exit_success e)), EServiceActive False, EEvent (StateChanged Inactive)]"
proof -
  let ?t = "handle_stop os s"
  have t: "a_state ?t = Stopping" "a_child ?t = Some pid" "\<not> a_pending_restart ?t"
      "a_stop_deadline ?t = Some (kill_delay s)" "a_backoff_sleep ?t = a_backoff_sleep s"
    using assms by (simp_all add: handle_stop_def actor_simps)
  moreover have "\<exists>more. a_trace ?t = a_trace s @ EKill (- sint pid) (stop_signal_of s) # more"
    using assms by (simp add: handle_stop_def send_stop_signal_def Let_def actor_simps)
  moreover have "EKill (- sint pid) SIGKILL \<in> set (a_trace (dispatch os OnKillDeadline ?t))"
    using t sigkill_sent [of ?t pid os] by (simp add: handle_kill_deadline_def)
  ultimately show ?thesis by (simp add: Let_def handle_child_exit_def actor_simps)
qed

definition active_sleep :: actor where
  "active_sleep = (actor_start calm_os ''s'' sleep_cfg)\<lparr>a_state := Active, a_child := Some 7\<rparr>"

lemma active_sleep_fields: "a_state active_sleep = Active" "a_child active_sleep = Some 7"
    "\<not> a_pending_restart active_sleep" "a_config active_sleep = sleep_cfg" "a_trace active_sleep = []"
    "a_stop_deadline active_sleep = None" "a_backoff_sleep active_sleep = None"
    "a_backoff_count active_sleep = 0" "a_current_backoff active_sleep = 500"
  by (simp_all add: active_sleep_def actor_start_def actor_new_def sleep_cfg_def service_config_default_def
      default_backoff_delay_def)

theorem stop_sequence_witness:
  "a_state (handle_child_exit calm_os None (handle_stop calm_os active_sleep)) = Inactive"
  using stop_sequence [OF active_sleep_fields(1-3), of calm_os None] by (simp add: Let_def)

text \<open>
  A restart in progress cannot be cancelled by a stop: while the service is stopping with a
  restart pending, a stop is answered with success and changes nothing, and when the process
  exits the actor tries to start the service again.
\<close>

theorem stop_does_not_cancel_restart:
  assumes "a_state s = Stopping" and "a_pending_restart s"
  shows "let t = handle_stop os s in
    t = emit (EReply (Inr ())) s \<and> a_pending_restart t \<and>
    a_state (handle_child_exit os e t) \<in> {Active, ErrorState}"
proof -
  let ?t = "emit (EReply (Inr ())) s"
  have t: "handle_stop os s = ?t" using assms by (simp add: handle_stop_def)
  let ?r = "transition os Starting ((transition os Inactive
      ((emit (EEvent (ProcessExited (exit_success e))) ?t)\<lparr>a_child := None, a_stop_deadline := None\<rparr>))\<lparr>a_pending_restart := False\<rparr>)"
  have "a_state (handle_child_exit os e ?t) \<in> {Active, ErrorState}"
    by (cases rule: do_start_cases [of os ?r])
      (use assms in \<open>auto simp: handle_child_exit_def Let_def actor_simps\<close>)
  with t assms show ?thesis by (simp add: Let_def actor_simps)
qed

theorem stop_does_not_cancel_restart_witness:
  "a_state (handle_child_exit calm_os None (handle_stop calm_os (handle_restart calm_os active_sleep)))
     \<in> {Active, ErrorState}"
proof -
  have "a_state (handle_restart calm_os active_sleep) = Stopping" "a_pending_restart (handle_restart calm_os active_sleep)"
    by (simp_all add: handle_restart_def active_sleep_fields actor_simps)
  from stop_does_not_cancel_restart [OF this, of calm_os None] show ?thesis unfolding Let_def by blast
qed

text \<open>
  Daemon shutdown does not honour the kill delay: a stop followed by the actor's shutdown
  (the sequence the overlord sends) makes the actor send the stop signal again, sleep 500 ms and
  send SIGKILL, whatever kill delay the service configures.
\<close>

theorem shutdown_kills_after_500ms:
  assumes "a_state s = Active" and "a_child s = Some pid" and "\<forall>n p sig. os_kill os n p sig = None"
  shows "a_trace (dispatch os (OnCmd CmdShutdown) (handle_stop os s)) = a_trace s @
    [EKill (- sint pid) (stop_signal_of s), EServiceActive False, EEvent (StateChanged Stopping),
     EReply (Inr ()), EAbortPush,
     EKill (- sint pid) (stop_signal_of s), ESleep 500, EKill (- sint pid) SIGKILL, EWait pid]"
  using assms
  by (simp add: handle_stop_def leave_loop_def cleanup_def send_stop_signal_def send_sigkill_def Let_def
      stop_signal_of_def actor_simps)

theorem shutdown_kills_after_500ms_witness:
  "a_trace (dispatch calm_os (OnCmd CmdShutdown) (handle_stop calm_os
      (active_sleep\<lparr>a_config := sleep_cfg\<lparr>svc_kill_delay := Some ''30s''\<rparr>\<rparr>))) =
    [EKill (-7) SIGTERM, EServiceActive False, EEvent (StateChanged Stopping), EReply (Inr ()), EAbortPush,
     EKill (-7) SIGTERM, ESleep 500, EKill (-7) SIGKILL, EWait 7]"
  using shutdown_kills_after_500ms
    [of "active_sleep\<lparr>a_config := sleep_cfg\<lparr>svc_kill_delay := Some ''30s''\<rparr>\<rparr>" 7 calm_os]
  by (simp add: active_sleep_fields calm_os_def stop_signal_of_def sleep_cfg_def service_config_default_def
      stop_signal_default_def)

subsection \<open>Reports agree with the state\<close>

fun note_state :: "effect \<Rightarrow> service_state \<Rightarrow> service_state" where
  "note_state (EEvent (StateChanged st)) _ = st"
| "note_state _ old = old"

fun note_active :: "effect \<Rightarrow> bool \<Rightarrow> bool" where
  "note_active (EServiceActive b) _ = b"
| "note_active _ old = old"

text \<open>The state and the metric gauge an observer of the trace has last heard of.\<close>

definition observed_state :: "actor \<Rightarrow> service_state" where
  "observed_state s = fold note_state (a_trace s) Inactive"

definition observed_active :: "actor \<Rightarrow> bool" where
  "observed_active s = fold note_active (a_trace s) False"

definition mirrored :: "actor \<Rightarrow> bool" where
  "mirrored s \<longleftrightarrow> observed_state s = a_state s \<and> observed_active s = (a_state s = Active)"

lemma mirrored_transition [intro, simp]: "mirrored (transition os st s)"
  by (simp add: mirrored_def observed_state_def observed_active_def actor_simps)

lemma mirrored_started [intro, simp]: "mirrored (started os req pid s)"
  by (simp add: mirrored_def observed_state_def observed_active_def actor_simps)

lemma mirrored_same: "mirrored s \<Longrightarrow> a_trace t = a_trace s \<Longrightarrow> a_state t = a_state s \<Longrightarrow> mirrored t"
  by (simp add: mirrored_def observed_state_def observed_active_def)

lemma mirrored_updates [simp]:
  "mirrored (s\<lparr>a_child := c\<rparr>) = mirrored s" "mirrored (s\<lparr>a_stop_deadline := d\<rparr>) = mirrored s"
  "mirrored (s\<lparr>a_backoff_sleep := d\<rparr>) = mirrored s" "mirrored (s\<lparr>a_pending_restart := b\<rparr>) = mirrored s"
  "mirrored (s\<lparr>a_running := b\<rparr>) = mirrored s" "mirrored (reset_backoff s) = mirrored s"
  by (simp_all add: mirrored_def observed_state_def observed_active_def reset_backoff_def)

lemma mirrored_emit: "(\<And>st. note_state e st = st) \<Longrightarrow> (\<And>b. note_active e b = b) \<Longrightarrow>
    mirrored (emit e s) = mirrored s"
  by (simp add: mirrored_def observed_state_def observed_active_def actor_simps)

lemma mirrored_emits [simp]:
  "mirrored (emit (EReply r) s) = mirrored s" "mirrored (emit (EStatus sn) s) = mirrored s"
  "mirrored (emit (EEvent (ProcessExited b)) s) = mirrored s"
  "mirrored (emit (EEvent (DaemonShutdown c)) s) = mirrored s"
  "mirrored (emit (ESleep n) s) = mirrored s" "mirrored (emit (EWait pid) s) = mirrored s"
  "mirrored (emit EAbortPush s) = mirrored s" "mirrored (emit (EPushUnix p) s) = mirrored s"
  "mirrored (emit (EPushTcp p) s) = mirrored s" "mirrored (emit (EKill q sig) s) = mirrored s"
  by (simp_all add: mirrored_emit)

lemma mirrored_senders [simp]:
  "mirrored s \<Longrightarrow> mirrored (send_signal os sig s)" "mirrored s \<Longrightarrow> mirrored (send_stop_signal os s)"
  "mirrored s \<Longrightarrow> mirrored (send_sigkill os s)"
  by (auto simp: send_signal_def send_stop_signal_def send_sigkill_def Let_def split: option.splits)

lemma mirrored_handle_start: "mirrored s \<Longrightarrow> mirrored (handle_start os s)"
  by (cases rule: handle_start_cases [of s os]) simp_all

lemma mirrored_handle_restart: "mirrored s \<Longrightarrow> mirrored (handle_restart os s)"
proof (cases "is_running (a_state s) \<or> a_state s = Stopping")
  case True
  assume "mirrored s"
  show ?thesis unfolding handle_restart_busy [OF True] by (simp only: mirrored_emits mirrored_updates mirrored_transition)
next
  case False
  assume "mirrored s"
  with False show ?thesis by (simp add: handle_restart_idle mirrored_handle_start)
qed

lemma mirrored_apply_policy: "mirrored (apply_policy os b s)"
proof (cases "exit_policy s b")
  case None
  then show ?thesis by (simp add: apply_policy_def next_backoff_def Let_def)
next
  case (Some p)
  then show ?thesis by (cases p) (simp_all add: apply_policy_def next_backoff_def Let_def)
qed

lemma mirrored_child_exit: "mirrored (handle_child_exit os e s)"
proof -
  let ?s2 = "transition os Inactive ((emit (EEvent (ProcessExited (exit_success e))) s)\<lparr>a_child := None, a_stop_deadline := None\<rparr>)"
  show ?thesis
    by (cases rule: do_start_cases [of os "transition os Starting (?s2\<lparr>a_pending_restart := False\<rparr>)"])
      (simp_all add: handle_child_exit_def Let_def mirrored_apply_policy)
qed

lemma mirrored_leave_loop: "mirrored s \<Longrightarrow> mirrored (leave_loop os s)"
  by (auto simp: leave_loop_def cleanup_def split: option.splits)

lemma mirrored_dispatch: "mirrored s \<Longrightarrow> mirrored (dispatch os ev s)"
proof (cases ev)
  case (OnCmd c)
  assume "mirrored s"
  with OnCmd show ?thesis
    by (cases c) (auto simp: mirrored_handle_start mirrored_handle_restart mirrored_leave_loop handle_stop_def)
next
  case OnBackoffExpired
  then show ?thesis
    by (cases rule: do_start_cases [of os "transition os Starting s"]) (simp_all add: handle_backoff_expired_def)
qed (auto simp: mirrored_leave_loop mirrored_child_exit handle_kill_deadline_def)

lemma mirrored_start: "mirrored (actor_start os nm cfg)"
  by (simp add: actor_start_def Let_def split: option.splits)
    (simp add: actor_new_def mirrored_def observed_state_def observed_active_def)

interpretation mirror: invariant_system "svc_init os nm cfg" "svc_step os" mirrored for os nm cfg
  by unfold_locales (auto simp: svc_init_def mirrored_start intro: mirrored_dispatch elim: svc_stepE)

text \<open>
  C28. What the actor reports is what it is: in every reachable state the last state event sent
  to the overlord is the actor's state, and the last value of the activity gauge says whether
  that state is \<open>Active\<close>.
\<close>

theorem reports_match_state:
  assumes "reach (svc_init os nm cfg) (svc_step os) s"
  shows "observed_state s = a_state s \<and> observed_active s = (a_state s = Active)"
  using mirror.reach_inv [OF assms] by (simp add: mirrored_def)

theorem reports_match_state_witness:
  "observed_state (dispatch calm_os (OnCmd CmdStart) (actor_start calm_os ''s'' sleep_cfg)) = Active"
proof -
  let ?t = "dispatch calm_os (OnCmd CmdStart) (actor_start calm_os ''s'' sleep_cfg)"
  have s: "a_state (actor_start calm_os ''s'' sleep_cfg) = Inactive" "a_config (actor_start calm_os ''s'' sleep_cfg) = sleep_cfg"
      "a_running (actor_start calm_os ''s'' sleep_cfg)"
    by (simp_all add: actor_start_def actor_new_def sleep_cfg_def service_config_default_def)
  then have "a_state ?t = Active"
    by (simp add: handle_start_def handle_start_result_def do_start_sleep actor_simps)
  moreover have "reach (svc_init calm_os ''s'' sleep_cfg) (svc_step calm_os) ?t"
    by (rule reach_dispatch [OF reach_run_init]) (simp add: s)
  ultimately show ?thesis using reports_match_state [of calm_os "''s''" sleep_cfg ?t] by simp
qed

end
