(* ===== verification/ServiceBackoff.thy ===== *)
theory ServiceBackoff
  imports ServiceSpec ServiceProcs
begin

text \<open>
  The restart backoff over a whole crash loop, and the replies an actor sends over a whole run.
\<close>

subsection \<open>A crash loop\<close>

text \<open>One round: the process exits, the actor waits out its delay and starts the process again.\<close>

definition crash_cycle :: "os \<Rightarrow> exit_status option \<Rightarrow> actor \<Rightarrow> actor" where
  "crash_cycle os e s = dispatch os OnBackoffExpired (handle_child_exit os e s)"

definition starts_succeed :: "os \<Rightarrow> service_config \<Rightarrow> bool" where
  "starts_succeed os cfg \<longleftrightarrow> (\<forall>s. a_config s = cfg \<longrightarrow> snd (do_start os s) = Inr ())"

definition restarts_on :: "actor \<Rightarrow> exit_status option \<Rightarrow> bool" where
  "restarts_on s e \<longleftrightarrow> exit_policy s (exit_success e) \<in> {None, Some Restart}"

lemma restarts_on_cong: "a_config t = a_config s \<Longrightarrow> restarts_on t e = restarts_on s e"
  by (simp only: restarts_on_def exit_policy_def)

lemma restart_policy:
  assumes "a_state s = Active" and "restarts_on s e"
  shows "handle_child_exit os e s =
    (let s1 = (emit (EEvent (ProcessExited (exit_success e))) s)\<lparr>a_child := None, a_stop_deadline := None\<rparr>
     in if backoff_limit_exceeded s then transition os ErrorState s1
        else (transition os Backoff (snd (next_backoff s1)))\<lparr>a_backoff_sleep := Some (a_current_backoff s)\<rparr>)"
proof -
  let ?s1 = "(emit (EEvent (ProcessExited (exit_success e))) s)\<lparr>a_child := None, a_stop_deadline := None\<rparr>"
  have same: "backoff_limit_exceeded ?s1 = backoff_limit_exceeded s" "fst (next_backoff ?s1) = a_current_backoff s"
      "exit_policy ?s1 (exit_success e) = exit_policy s (exit_success e)"
    by (simp_all add: backoff_limit_exceeded_def backoff_limit_of_def next_backoff_def exit_policy_def Let_def actor_simps)
  have "exit_policy s (exit_success e) = None \<or> exit_policy s (exit_success e) = Some Restart"
    using assms(2) by (simp add: restarts_on_def)
  then show ?thesis
    using assms(1) same by (auto simp: child_exit_alive apply_policy_def Let_def split_beta)
qed

lemma next_backoff_fields [actor_simps]:
  "a_config (snd (next_backoff s)) = a_config s" "a_state (snd (next_backoff s)) = a_state s"
  "a_backoff_count (snd (next_backoff s)) = a_backoff_count s + 1"
  by (simp_all add: next_backoff_def Let_def)

lemma next_backoff_doubles:
  assumes "svc_backoff_factor (a_config s) = None" and "a_current_backoff s < 2 ^ 53"
  shows "a_current_backoff (snd (next_backoff s)) = min (2 * a_current_backoff s) (backoff_limit_of s)"
  using assms by (simp only: next_backoff_def Let_def snd_conv option.case default_backoff_factor_def scale_two) simp

lemma failed_child:
  assumes "a_state s = Active" and "restarts_on s e"
  shows "backoff_limit_exceeded s \<Longrightarrow> a_state (handle_child_exit os e s) = ErrorState"
    and "\<not> backoff_limit_exceeded s \<Longrightarrow> a_state (handle_child_exit os e s) = Backoff"
    and "\<not> backoff_limit_exceeded s \<Longrightarrow> a_backoff_sleep (handle_child_exit os e s) = Some (a_current_backoff s)"
    and "\<not> backoff_limit_exceeded s \<Longrightarrow> a_backoff_count (handle_child_exit os e s) = a_backoff_count s + 1"
    and "\<not> backoff_limit_exceeded s \<Longrightarrow> svc_backoff_factor (a_config s) = None \<Longrightarrow> a_current_backoff s < 2 ^ 53 \<Longrightarrow>
      a_current_backoff (handle_child_exit os e s) = min (2 * a_current_backoff s) (backoff_limit_of s)"
    and "a_config (handle_child_exit os e s) = a_config s"
  by (simp_all add: restart_policy [OF assms] Let_def actor_simps next_backoff_doubles)
    (simp add: backoff_limit_of_def actor_simps)

lemma expired_backoff:
  assumes "starts_succeed os (a_config s)"
  shows "let t = dispatch os OnBackoffExpired s in a_state t = Active \<and> a_config t = a_config s \<and>
    a_backoff_count t = a_backoff_count s \<and> a_current_backoff t = a_current_backoff s"
proof -
  have "snd (do_start os (transition os Starting s)) = Inr ()"
    using assms by (simp add: starts_succeed_def actor_simps)
  then show ?thesis
    by (cases rule: do_start_cases [of os "transition os Starting s"])
      (simp_all add: handle_backoff_expired_def Let_def actor_simps)
qed

lemma crash_cycle_state:
  assumes "a_state s = Active" "a_backoff_count s = 0" "restarts_on s e" "svc_backoff_factor (a_config s) = None"
    and "starts_succeed os (a_config s)" "backoff_limit_of s < 2 ^ 52" "a_current_backoff s < 2 ^ 52"
    and "n \<le> 52" "\<forall>m. 0 < m \<and> m < n \<longrightarrow> a_current_backoff s * 2 ^ m < backoff_limit_of s"
  shows "let t = (crash_cycle os e ^^ n) s in a_state t = Active \<and> a_config t = a_config s \<and>
    a_backoff_count t = of_nat n \<and>
    a_current_backoff t = (if n = 0 then a_current_backoff s else min (a_current_backoff s * 2 ^ n) (backoff_limit_of s))"
  using assms(8,9)
proof (induction n)
  case 0
  with assms show ?case by simp
next
  case (Suc n)
  let ?t = "(crash_cycle os e ^^ n) s"
  let ?L = "backoff_limit_of s"
  let ?d = "a_current_backoff s"
  from Suc have t: "a_state ?t = Active" "a_config ?t = a_config s" "a_backoff_count ?t = of_nat n"
      "a_current_backoff ?t = (if n = 0 then ?d else min (?d * 2 ^ n) ?L)"
    by (auto simp: Let_def)
  have L: "backoff_limit_of ?t = ?L" using t by (simp add: backoff_limit_of_def)
  have re: "restarts_on ?t e" using assms(3) restarts_on_cong [OF t(2)] by simp
  have cur: "a_current_backoff ?t = ?d * 2 ^ n" if "0 < n" using t(4) Suc(3) that by auto
  have below: "a_current_backoff ?t < 2 ^ 53" using t(4) assms(6,7) by (auto split: if_splits)
  have not_exceeded: "\<not> backoff_limit_exceeded ?t"
  proof (cases "n = 0")
    case True
    then show ?thesis using t by (simp add: backoff_limit_exceeded_def)
  next
    case False
    then have "?d * 2 ^ n < ?L" using Suc(3) by simp
    then show ?thesis using cur False L by (simp add: backoff_limit_exceeded_def)
  qed
  have "a_current_backoff (handle_child_exit os e ?t) = min (?d * 2 ^ Suc n) ?L"
    using failed_child(5) [OF t(1) re not_exceeded, of os] t assms(4) below cur L
    by (cases "n = 0") (simp_all add: mult.commute mult.left_commute)
  moreover have "starts_succeed os (a_config (handle_child_exit os e ?t))"
    using assms(5) t by (simp add: failed_child(6) [OF t(1) re])
  ultimately show ?case
    using expired_backoff [of os "handle_child_exit os e ?t"] failed_child(4) [OF t(1) re not_exceeded, of os]
      failed_child(6) [OF t(1) re, of os] t
    by (simp add: crash_cycle_def [of os e ?t] Let_def add.commute del: dispatch.simps)
qed

lemma crash_cycle_exceeded:
  assumes "a_state s = Active" "a_backoff_count s = 0" "restarts_on s e" "svc_backoff_factor (a_config s) = None"
    and "starts_succeed os (a_config s)" "backoff_limit_of s < 2 ^ 52" "a_current_backoff s < 2 ^ 52"
    and "n \<le> 52" "\<forall>m. 0 < m \<and> m < n \<longrightarrow> a_current_backoff s * 2 ^ m < backoff_limit_of s"
  shows "let t = (crash_cycle os e ^^ n) s; u = handle_child_exit os e t in
    if n = 0 \<or> a_current_backoff s * 2 ^ n < backoff_limit_of s
    then a_state u = Backoff \<and> a_backoff_sleep u = Some (a_current_backoff s * 2 ^ n)
    else a_state u = ErrorState"
proof -
  let ?t = "(crash_cycle os e ^^ n) s"
  from crash_cycle_state [OF assms] have t: "a_state ?t = Active" "a_config ?t = a_config s" "a_backoff_count ?t = of_nat n"
      "a_current_backoff ?t = (if n = 0 then a_current_backoff s else min (a_current_backoff s * 2 ^ n) (backoff_limit_of s))"
    by (auto simp: Let_def)
  have re: "restarts_on ?t e" using assms(3) restarts_on_cong [OF t(2)] by simp
  have L: "backoff_limit_of ?t = backoff_limit_of s" using t by (simp add: backoff_limit_of_def)
  have "unat (of_nat n :: u32) = n" using assms(8) by (simp add: unat_of_nat)
  then have "(0 < (of_nat n :: u32)) = (0 < n)" by (simp add: word_less_nat_alt)
  then have "backoff_limit_exceeded ?t = (\<not> (n = 0 \<or> a_current_backoff s * 2 ^ n < backoff_limit_of s))"
    using t L by (auto simp: backoff_limit_exceeded_def)
  then show ?thesis
    using failed_child(1-3) [OF t(1) re, of os] t by (auto simp: Let_def)
qed

text \<open>
  C30. The restart backoff of a crash loop. With the default factor, and delay and limit below
  \<open>2 ^ 52\<close> milliseconds, a service whose process keeps failing right after each (successful) start is
  restarted after \<open>d\<close>, \<open>2d\<close>, \<open>4d\<close>, ... milliseconds, \<open>d\<close> the actor's current backoff (at first the
  configured delay); the first delay is used even where it exceeds the
  limit, and as soon as the doubled delay reaches the limit the actor gives up in the error
  state instead of waiting for the limit.
\<close>

theorem crash_loop_backoff:
  assumes "a_state s = Active" "a_backoff_count s = 0" "restarts_on s e" "svc_backoff_factor (a_config s) = None"
    and "starts_succeed os (a_config s)" "backoff_limit_of s < 2 ^ 52" "a_current_backoff s < 2 ^ 52"
    and "n \<le> 52" "\<forall>m. 0 < m \<and> m < n \<longrightarrow> a_current_backoff s * 2 ^ m < backoff_limit_of s"
  shows "let t = (crash_cycle os e ^^ n) s; u = handle_child_exit os e t in
    if n = 0 \<or> a_current_backoff s * 2 ^ n < backoff_limit_of s
    then a_state u = Backoff \<and> a_backoff_sleep u = Some (a_current_backoff s * 2 ^ n)
    else a_state u = ErrorState"
  using crash_cycle_exceeded [OF assms] .

lemma sleep_starts: "starts_succeed calm_os sleep_cfg"
  by (simp add: starts_succeed_def do_start_sleep)

lemma sleep_restarts: "restarts_on active_sleep e"
  by (simp add: restarts_on_def exit_policy_def active_sleep_fields sleep_cfg_def service_config_default_def)

lemma sleep_backoff: "svc_backoff_factor sleep_cfg = None" "backoff_limit_of active_sleep = 30000"
  by (simp_all add: sleep_cfg_def service_config_default_def backoff_limit_of_def duration_or_def
      active_sleep_fields default_backoff_limit_def)

lemma pow_below: "(m::nat) < 6 \<Longrightarrow> 500 * 2 ^ m < (30000::nat)"
proof -
  assume "m < 6"
  then have "(2::nat) ^ m \<le> 2 ^ 5" by (intro power_increasing) auto
  then show ?thesis by simp
qed

theorem crash_loop_backoff_witness:
  "a_backoff_sleep (handle_child_exit calm_os None ((crash_cycle calm_os None ^^ 5) active_sleep)) = Some 16000"
  using crash_loop_backoff [of active_sleep None calm_os 5]
  by (simp add: active_sleep_fields sleep_restarts sleep_starts sleep_backoff pow_below Let_def)

text \<open>A factor of 1.0 never lets the delay grow.\<close>

definition f64_one :: f64 where
  "f64_one = Fin False 1 0"

lemma crash_cycle_flat:
  assumes "a_state s = Active" "restarts_on s e" "svc_backoff_factor (a_config s) = Some f64_one"
    and "starts_succeed os (a_config s)" "a_current_backoff s < backoff_limit_of s" "a_current_backoff s < 2 ^ 52"
  shows "let t = (crash_cycle os e ^^ n) s in a_state t = Active \<and> a_config t = a_config s \<and> a_current_backoff t = a_current_backoff s"
proof (induction n)
  case (Suc n)
  let ?t = "(crash_cycle os e ^^ n) s"
  from Suc have t: "a_state ?t = Active" "a_config ?t = a_config s" "a_current_backoff ?t = a_current_backoff s"
    by (simp_all add: Let_def)
  have L: "backoff_limit_of ?t = backoff_limit_of s" using t by (simp add: backoff_limit_of_def)
  have re: "restarts_on ?t e" using assms(2) restarts_on_cong [OF t(2)] by simp
  have no: "\<not> backoff_limit_exceeded ?t" using t L assms(5) by (simp add: backoff_limit_exceeded_def)
  have one: "scale_millis (a_current_backoff s) f64_one = a_current_backoff s"
    unfolding f64_one_def by (rule scale_one) (use assms(6) in simp)
  let ?s1 = "(emit (EEvent (ProcessExited (exit_success e))) ?t)\<lparr>a_child := None, a_stop_deadline := None\<rparr>"
  have "a_current_backoff (snd (next_backoff ?s1)) = min (scale_millis (a_current_backoff s) f64_one) (backoff_limit_of ?t)"
    using t assms(3) by (simp add: next_backoff_def backoff_limit_of_def Let_def actor_simps)
  then have "a_current_backoff (handle_child_exit os e ?t) = a_current_backoff s"
    using restart_policy [OF t(1) re, of os] no one L assms(5) by (simp add: Let_def actor_simps)
  moreover have "starts_succeed os (a_config (handle_child_exit os e ?t))"
    using assms(4) t by (simp add: failed_child(6) [OF t(1) re])
  ultimately show ?case
    using expired_backoff [of os "handle_child_exit os e ?t"] failed_child(6) [OF t(1) re, of os] t
    by (simp add: crash_cycle_def [of os e ?t] Let_def del: dispatch.simps)
qed (use assms in simp)

lemma doubling_gives_up:
  assumes "a_state s = Active" "a_backoff_count s = 0" "restarts_on s e" "svc_backoff_factor (a_config s) = None"
    and "starts_succeed os (a_config s)" "backoff_limit_of s < 2 ^ 52" "a_current_backoff s < 2 ^ 52"
    and "1 \<le> a_current_backoff s"
  shows "\<exists>n \<le> 52. a_state (handle_child_exit os e ((crash_cycle os e ^^ n) s)) = ErrorState"
proof -
  let ?over = "\<lambda>n. 0 < n \<and> backoff_limit_of s \<le> a_current_backoff s * 2 ^ n"
  have "(2::nat) ^ 52 \<le> a_current_backoff s * 2 ^ 52" using assms(8) by simp
  then have "?over 52" using assms(6) by linarith
  then have "?over (LEAST n. ?over n)" "(LEAST n. ?over n) \<le> 52" by (rule LeastI, rule Least_le)
  moreover have "\<forall>m. 0 < m \<and> m < (LEAST n. ?over n) \<longrightarrow> a_current_backoff s * 2 ^ m < backoff_limit_of s"
    using not_less_Least [of _ ?over] by (metis leI)
  ultimately show ?thesis
    using crash_cycle_exceeded [OF assms(1-7), of "LEAST n. ?over n"] by (auto simp: Let_def not_less)
qed

text \<open>
  C31. When a crash loop ends. Take a service that fails after every (successful) start, under a policy
  that restarts it. With the default factor of 2.0, a delay of at least one millisecond, and delay and
  limit below \<open>2 ^ 52\<close> milliseconds, it is in the error state after finitely many restarts, at most
  52. With a factor of 1.0 and a delay below the limit and below \<open>2 ^ 52\<close> milliseconds it never is: it
  is restarted after the same delay for ever. Other factors are not covered.
\<close>

theorem crash_loop_gives_up:
  assumes "a_state s = Active" "a_backoff_count s = 0" "restarts_on s e" "starts_succeed os (a_config s)"
    and "1 \<le> a_current_backoff s" "a_current_backoff s < 2 ^ 52"
  shows "(svc_backoff_factor (a_config s) = None \<longrightarrow> backoff_limit_of s < 2 ^ 52 \<longrightarrow>
      (\<exists>n \<le> 52. a_state (handle_child_exit os e ((crash_cycle os e ^^ n) s)) = ErrorState)) \<and>
    (svc_backoff_factor (a_config s) = Some f64_one \<longrightarrow> a_current_backoff s < backoff_limit_of s \<longrightarrow>
      (\<forall>n. let u = handle_child_exit os e ((crash_cycle os e ^^ n) s) in
         a_state u = Backoff \<and> a_backoff_sleep u = Some (a_current_backoff s)))"
proof (intro conjI impI allI)
  fix n
  assume f: "svc_backoff_factor (a_config s) = Some f64_one" and below: "a_current_backoff s < backoff_limit_of s"
  let ?t = "(crash_cycle os e ^^ n) s"
  have t: "a_state ?t = Active" "a_config ?t = a_config s" "a_current_backoff ?t = a_current_backoff s"
    using crash_cycle_flat [OF assms(1,3) f assms(4) below assms(6), of n] by (simp_all add: Let_def)
  have "\<not> backoff_limit_exceeded ?t" using t below by (simp add: backoff_limit_exceeded_def backoff_limit_of_def)
  moreover have "restarts_on ?t e" using assms(3) restarts_on_cong [OF t(2)] by simp
  ultimately show "let u = handle_child_exit os e ?t in a_state u = Backoff \<and> a_backoff_sleep u = Some (a_current_backoff s)"
    using failed_child(2,3) [OF t(1), of e os] t(3) by (simp add: Let_def)
qed (use assms doubling_gives_up in blast)

theorem crash_loop_gives_up_witness:
  "\<exists>n \<le> 52. a_state (handle_child_exit calm_os None ((crash_cycle calm_os None ^^ n) active_sleep)) = ErrorState"
  using crash_loop_gives_up [of active_sleep None calm_os]
  by (simp add: active_sleep_fields sleep_restarts sleep_starts sleep_backoff)

subsection \<open>Counting effects\<close>

definition is_request :: "loop_event \<Rightarrow> bool" where
  "is_request ev \<longleftrightarrow> ev \<in> OnCmd ` {CmdStart, CmdStop, CmdRestart, CmdStatus}"

text \<open>
  A weight on effects under which every answer counts the same, a spawn and the record of a start
  cancel out, and nothing else counts: no handler changes the total but by its answers.
\<close>

locale effect_weight =
  fixes w :: "effect \<Rightarrow> int" and c :: int
  assumes answer: "w (EReply r) = c" "w (EStatus x) = c"
    and spawn: "w (ESpawn req pid) + w EServiceStart = 0"
    and rest: "w (EEvent k) = 0" "w (EKill p sig) = 0" "w (EReader st b) = 0" "w (EServiceActive b) = 0"
      "w (ESleep d) = 0" "w (EWait pid) = 0" "w EAbortPush = 0"
begin

definition weight :: "actor \<Rightarrow> int" where
  "weight s = sum_list (map w (a_trace s))"

lemma weight_emit: "weight (emit e s) = weight s + w e"
  by (simp add: weight_def actor_simps)

lemma weight_same: "a_trace t = a_trace s \<Longrightarrow> weight t = weight s"
  by (simp add: weight_def)

lemma weight_updates:
  "weight (s\<lparr>a_child := d\<rparr>) = weight s" "weight (s\<lparr>a_stop_deadline := x\<rparr>) = weight s"
  "weight (s\<lparr>a_backoff_sleep := x\<rparr>) = weight s" "weight (s\<lparr>a_pending_restart := b\<rparr>) = weight s"
  "weight (s\<lparr>a_running := b\<rparr>) = weight s" "weight (reset_backoff s) = weight s"
  "weight (s\<lparr>a_current_backoff := n, a_backoff_count := k\<rparr>) = weight s"
  "weight (snd (next_backoff s)) = weight s"
  by (rule weight_same, simp add: reset_backoff_def next_backoff_def Let_def)+

lemma weight_transition: "weight (transition os st s) = weight s"
  by (simp add: weight_def actor_simps rest)

lemma weight_started: "weight (started os req pid s) = weight s"
  using spawn [of req pid] by (simp add: weight_def started_trace rest)

lemma weight_kills: "kills_only s t \<Longrightarrow> weight t = weight s"
proof -
  assume "kills_only s t"
  then obtain ks where t: "a_trace t = a_trace s @ ks" and ks: "\<forall>e \<in> set ks. \<exists>p sig. e = EKill p sig"
    by (auto simp: kills_only_def)
  have "sum_list (map w ks) = 0" using ks by (induction ks) (auto simp: rest)
  with t show ?thesis by (simp add: weight_def)
qed

lemmas weight_senders = kills_only_senders [THEN weight_kills]

lemmas weight_simps = weight_emit weight_updates weight_transition weight_started weight_senders answer rest

lemma weight_handle_start: "weight (handle_start os s) = weight s + c"
  by (cases rule: handle_start_cases [of s os]) (simp_all add: weight_simps)

lemma weight_handle_restart: "weight (handle_restart os s) = weight s + c"
proof (cases "is_running (a_state s) \<or> a_state s = Stopping")
  case True
  show ?thesis unfolding handle_restart_busy [OF True] by (simp add: weight_simps)
next
  case False
  then show ?thesis by (simp add: handle_restart_idle weight_handle_start)
qed

lemma weight_apply_policy: "weight (apply_policy os b s) = weight s"
proof (cases "exit_policy s b")
  case None
  then show ?thesis by (simp add: apply_policy_def Let_def split_beta weight_simps)
next
  case (Some p)
  then show ?thesis by (cases p) (simp_all add: apply_policy_def Let_def split_beta weight_simps)
qed

lemma weight_child_exit: "weight (handle_child_exit os e s) = weight s"
proof -
  let ?s1 = "(emit (EEvent (ProcessExited (exit_success e))) s)\<lparr>a_child := None, a_stop_deadline := None\<rparr>"
  have "weight ?s1 = weight s" by (simp add: weight_def actor_simps rest)
  then show ?thesis
    by (cases rule: do_start_cases [of os "transition os Starting ((transition os Inactive ?s1)\<lparr>a_pending_restart := False\<rparr>)"])
      (simp_all add: handle_child_exit_def Let_def weight_apply_policy weight_simps)
qed

lemma weight_leave_loop: "weight (leave_loop os s) = weight s"
  by (auto simp: leave_loop_def cleanup_def weight_simps split: option.splits)

lemma weight_dispatch: "weight (dispatch os ev s) = weight s + (if is_request ev then c else 0)"
proof (cases ev)
  case (OnCmd k)
  then show ?thesis
    by (cases k) (auto simp: is_request_def weight_handle_start weight_handle_restart weight_leave_loop
        handle_stop_def weight_simps)
next
  case OnBackoffExpired
  then show ?thesis
    by (cases rule: do_start_cases [of os "transition os Starting s"])
      (auto simp: handle_backoff_expired_def is_request_def weight_simps)
qed (auto simp: weight_leave_loop weight_child_exit handle_kill_deadline_def is_request_def weight_simps)

lemma weight_run: "weight (run_events os evs s) = weight s + int (length (filter is_request evs)) * c"
  by (induction evs arbitrary: s) (simp_all add: weight_dispatch algebra_simps)

end

subsection \<open>Replies\<close>

definition is_answer :: "effect \<Rightarrow> bool" where
  "is_answer e = (case e of EReply _ \<Rightarrow> True | EStatus _ \<Rightarrow> True | _ \<Rightarrow> False)"

definition answers :: "effect list \<Rightarrow> nat" where
  "answers tr = length (filter is_answer tr)"

interpretation answered: effect_weight "\<lambda>e. if is_answer e then 1 else 0" 1
  by unfold_locales (simp_all add: is_answer_def)

lemma answered_weight: "answered.weight s = int (answers (a_trace s))"
proof -
  have "sum_list (map (\<lambda>e. if is_answer e then 1 else 0) es) = int (length (filter is_answer es))" for es
    by (induction es) simp_all
  then show ?thesis by (simp add: answered.weight_def answers_def)
qed

text \<open>
  C27. Every request gets exactly one answer: over any run of an actor, the replies sent are as
  many as the start, stop, restart and status commands it took, whatever the state, the system
  and the order of commands, exits and timers. No handler forgets its reply or sends it twice.
\<close>

theorem one_answer_per_request:
  "answers (a_trace (run_events os evs s)) = answers (a_trace s) + length (filter is_request evs)"
proof -
  have "int (answers (a_trace (run_events os evs s))) = int (answers (a_trace s) + length (filter is_request evs))"
    using answered.weight_run [of os evs s] by (simp add: answered_weight)
  then show ?thesis by (simp only: of_nat_eq_iff)
qed

end
