(* ===== verification/Check.thy ===== *)
theory Check
  imports ApiTypes ProcUtil Duration
begin

text \<open>
  Check actors: \<open>crates/vigild/src/check\<close>. A check actor waits out its initial delay, then probes
  once per period and reports its status. The probes (HTTP, TCP, \<open>sh -c\<close>) are modelled down to
  the calls into reqwest, tokio and the system, which are the fields of \<open>probe_env\<close>; each tick
  brings its own environment. What the actor sends is appended to \<open>ck_out\<close>.
\<close>

subsection \<open>Probes\<close>

record http_client =
  cl_timeout :: nat
  cl_accept_invalid :: bool
  cl_follow :: bool
  cl_roots :: "string list"

datatype 'a timed = InTime 'a | TimedOut

record exec_request =
  xr_argv :: "string list"
  xr_envs :: "(string, string) indexmap"
  xr_current_dir :: "string option"
  xr_credentials :: "credentials option"

text \<open>
  \<open>pe_send\<close> answers with the status code or a failure; \<open>pe_exec\<close> with the exit status, \<open>None\<close>
  where the process did not start or could not be waited for.
\<close>

record probe_env =
  pe_load_pem :: "string \<Rightarrow> string + string list"
  pe_send :: "http_client \<Rightarrow> string \<Rightarrow> (string, string) indexmap \<Rightarrow> (string + nat) timed"
  pe_connect :: "string \<Rightarrow> (string + unit) timed"
  pe_exec :: "exec_request \<Rightarrow> (exit_status option) timed"
  pe_users :: user_db

definition default_client :: "nat \<Rightarrow> http_client" where
  "default_client t = \<lparr> cl_timeout = t, cl_accept_invalid = False, cl_follow = True, cl_roots = [] \<rparr>"

definition status_is_success :: "nat \<Rightarrow> bool" where
  "status_is_success code \<longleftrightarrow> 200 \<le> code \<and> code < 300"

definition http_client_for :: "probe_env \<Rightarrow> http_check \<Rightarrow> nat \<Rightarrow> http_client option" where
  "http_client_for env check t =
     (if hc_insecure check \<or> hc_insecure_proxy check \<or> hc_ca check \<noteq> None \<or> hc_no_follow_redirects check
      then
        let b = \<lparr> cl_timeout = t, cl_accept_invalid = hc_insecure check \<or> hc_insecure_proxy check,
                  cl_follow = \<not> hc_no_follow_redirects check, cl_roots = [] \<rparr>
        in case hc_ca check of
             None \<Rightarrow> Some b
           | Some path \<Rightarrow>
               (case pe_load_pem env path of
                  Inl _ \<Rightarrow> None
                | Inr certs \<Rightarrow> Some (b\<lparr>cl_roots := certs\<rparr>))
      else Some (default_client t))"

definition probe_http :: "probe_env \<Rightarrow> http_check \<Rightarrow> nat \<Rightarrow> bool" where
  "probe_http env check t =
     (case http_client_for env check t of
        None \<Rightarrow> False
      | Some client \<Rightarrow>
          (case pe_send env client (hc_url check) (hc_headers check) of
             TimedOut \<Rightarrow> False
           | InTime (Inl _) \<Rightarrow> False
           | InTime (Inr code) \<Rightarrow>
               if hc_success_statuses check = [] then status_is_success code
               else code \<in> set (hc_success_statuses check)))"

definition probe_tcp :: "probe_env \<Rightarrow> string \<Rightarrow> 16 word \<Rightarrow> bool" where
  "probe_tcp env host port =
     (case pe_connect env (host @ '':'' @ show_nat (unat port)) of InTime (Inr _) \<Rightarrow> True | _ \<Rightarrow> False)"

definition opt_or :: "'a option \<Rightarrow> 'a option \<Rightarrow> 'a option" where
  "opt_or a b = (case a of Some x \<Rightarrow> Some x | None \<Rightarrow> b)"

text \<open>The settings of an exec check laid over those of the service it names as its context.\<close>

definition exec_context :: "(string, service_config) indexmap \<Rightarrow> exec_check \<Rightarrow> service_config option" where
  "exec_context svcs ex = (case ec_service_context ex of None \<Rightarrow> None | Some n \<Rightarrow> map_of svcs n)"

definition exec_env :: "service_config option \<Rightarrow> exec_check \<Rightarrow> (string, string) indexmap" where
  "exec_env ctx ex = im_extend (case ctx of None \<Rightarrow> [] | Some s \<Rightarrow> svc_environment s) (ec_environment ex)"

definition from_ctx :: "service_config option \<Rightarrow> (service_config \<Rightarrow> 'a option) \<Rightarrow> 'a option" where
  "from_ctx ctx f = (case ctx of None \<Rightarrow> None | Some s \<Rightarrow> f s)"

definition exec_credentials :: "user_db \<Rightarrow> service_config option \<Rightarrow> exec_check \<Rightarrow> cred_error + credentials option" where
  "exec_credentials db ctx ex =
     resolve_credentials db
       (opt_or (ec_user ex) (from_ctx ctx svc_user)) (opt_or (ec_user_id ex) (from_ctx ctx svc_user_id))
       (opt_or (ec_group ex) (from_ctx ctx svc_group)) (opt_or (ec_group_id ex) (from_ctx ctx svc_group_id))"

definition exec_request_of :: "user_db \<Rightarrow> (string, service_config) indexmap \<Rightarrow> exec_check \<Rightarrow> cred_error + exec_request" where
  "exec_request_of db svcs ex =
     (let ctx = exec_context svcs ex in
      case exec_credentials db ctx ex of
        Inl e \<Rightarrow> Inl e
      | Inr creds \<Rightarrow>
          Inr \<lparr> xr_argv = [''sh'', ''-c'', ec_command ex], xr_envs = exec_env ctx ex,
                xr_current_dir = opt_or (ec_working_dir ex) (from_ctx ctx svc_working_dir),
                xr_credentials = apply_credentials db creds \<rparr>)"

definition probe_exec :: "probe_env \<Rightarrow> (string, service_config) indexmap \<Rightarrow> exec_check \<Rightarrow> bool" where
  "probe_exec env svcs ex =
     (case exec_request_of (pe_users env) svcs ex of
        Inl _ \<Rightarrow> False
      | Inr req \<Rightarrow>
          (case pe_exec env req of
             TimedOut \<Rightarrow> False
           | InTime None \<Rightarrow> False
           | InTime (Some status) \<Rightarrow> exit_success (Some status)))"

definition perform :: "probe_env \<Rightarrow> check_config \<Rightarrow> nat \<Rightarrow> (string, service_config) indexmap \<Rightarrow> bool" where
  "perform env cfg t svcs =
     (case chk_http cfg of Some h \<Rightarrow> probe_http env h t
      | None \<Rightarrow>
     (case chk_tcp cfg of Some tc \<Rightarrow>
        probe_tcp env (case tc_host tc of Some h \<Rightarrow> h | None \<Rightarrow> ''localhost'') (tc_port tc)
      | None \<Rightarrow>
     (case chk_exec cfg of Some ex \<Rightarrow> probe_exec env svcs ex
      | None \<Rightarrow> True)))"

subsection \<open>The actor\<close>

definition default_period :: nat where "default_period = 10000"
definition default_timeout :: nat where "default_timeout = 3000"
definition default_threshold :: u32 where "default_threshold = 3"
definition default_check_delay :: nat where "default_check_delay = 3000"

definition check_period :: "check_config \<Rightarrow> nat" where
  "check_period cfg = duration_or default_period (chk_period cfg)"

definition check_timeout :: "check_config \<Rightarrow> nat" where
  "check_timeout cfg = min (duration_or default_timeout (chk_timeout cfg)) (check_period cfg)"

definition check_threshold :: "check_config \<Rightarrow> u32" where
  "check_threshold cfg = (case chk_threshold cfg of Some t \<Rightarrow> t | None \<Rightarrow> default_threshold)"

definition check_delay :: "check_config \<Rightarrow> nat" where
  "check_delay cfg = duration_or default_check_delay (chk_delay cfg)"

datatype check_cmd = GetStatus | CheckShutdown

record check_event =
  ce_check :: string
  ce_status :: check_status

datatype check_effect =
    SendEvent check_event
  | MetricUp bool
  | MetricSuccess
  | MetricFailure
  | SendInfo check_info

text \<open>
  The task is in the initial delay, in its main loop, has returned, or has panicked
  (\<open>tokio::time::interval\<close> panics when the period is zero).
\<close>

datatype check_phase = Delaying nat | Probing | Returned | Panicked

record check_actor =
  ck_name :: string
  ck_config :: check_config
  ck_services :: "(string, service_config) indexmap"
  ck_phase :: check_phase
  ck_failures :: u32
  ck_status :: check_status
  ck_first_run :: bool
  ck_next_tick :: nat
  ck_last_tick :: nat
  ck_out :: "check_effect list"

definition put_out :: "check_effect \<Rightarrow> check_actor \<Rightarrow> check_actor" where
  "put_out e s = s\<lparr>ck_out := ck_out s @ [e]\<rparr>"

definition send_event :: "check_actor \<Rightarrow> check_actor" where
  "send_event s = put_out (SendEvent \<lparr>ce_check = ck_name s, ce_status = ck_status s\<rparr>) s"

text \<open>\<open>check_run\<close> is the task right after it was spawned, at time \<open>now\<close> (in milliseconds).\<close>

definition check_run :: "nat \<Rightarrow> string \<Rightarrow> check_config \<Rightarrow> (string, service_config) indexmap \<Rightarrow> check_status \<Rightarrow> check_actor" where
  "check_run now nm cfg svcs initial_status = \<lparr>
     ck_name = nm, ck_config = cfg, ck_services = svcs, ck_phase = Delaying (now + check_delay cfg),
     ck_failures = 0, ck_status = initial_status, ck_first_run = True,
     ck_next_tick = 0, ck_last_tick = 0, ck_out = [] \<rparr>"

definition delay_info :: "check_actor \<Rightarrow> check_info" where
  "delay_info s = \<lparr>
     ci_name = ck_name s, ci_level = chk_level (ck_config s), ci_status = Up, ci_failures = 0,
     ci_threshold = check_threshold (ck_config s), ci_next_run_in_secs = None \<rparr>"

definition loop_info :: "nat \<Rightarrow> check_actor \<Rightarrow> check_info" where
  "loop_info now s = (let nxt = ck_last_tick s + check_period (ck_config s) in \<lparr>
     ci_name = ck_name s, ci_level = chk_level (ck_config s), ci_status = ck_status s,
     ci_failures = ck_failures s, ci_threshold = check_threshold (ck_config s),
     ci_next_run_in_secs = (if now \<le> nxt then Some ((nxt - now) div 1000) else None) \<rparr>)"

text \<open>The deadline of the initial delay: the loop is set up, its interval ticks at once.\<close>

definition delay_over :: "nat \<Rightarrow> check_actor \<Rightarrow> check_actor" where
  "delay_over now s =
     (let s1 = put_out (MetricUp (ck_status s = Up)) (s\<lparr>ck_failures := 0, ck_first_run := True\<rparr>)
      in if check_period (ck_config s) = 0 then s1\<lparr>ck_phase := Panicked\<rparr>
         else s1\<lparr>ck_phase := Probing, ck_next_tick := now, ck_last_tick := now\<rparr>)"

definition probe_passed :: "check_actor \<Rightarrow> check_actor" where
  "probe_passed s =
     (let s1 = put_out MetricSuccess s;
          s2 = (if ck_status s1 = Down then send_event (put_out (MetricUp True) (s1\<lparr>ck_status := Up\<rparr>)) else s1)
      in s2\<lparr>ck_failures := 0\<rparr>)"

definition probe_failed :: "check_actor \<Rightarrow> check_actor" where
  "probe_failed s =
     (let s1 = put_out MetricFailure s;
          s2 = s1\<lparr>ck_failures := ck_failures s1 + 1\<rparr>
      in if check_threshold (ck_config s2) \<le> ck_failures s2 \<and> ck_status s2 = Up
         then send_event (put_out (MetricUp False) (s2\<lparr>ck_status := Down\<rparr>)) else s2)"

definition report_first_run :: "check_actor \<Rightarrow> check_actor" where
  "report_first_run s = (if ck_first_run s then send_event (s\<lparr>ck_first_run := False\<rparr>) else s)"

text \<open>One tick at \<open>now\<close>; with \<open>MissedTickBehavior::Delay\<close> the next is due a period later.\<close>

definition check_tick :: "nat \<Rightarrow> probe_env \<Rightarrow> check_actor \<Rightarrow> check_actor" where
  "check_tick now env s =
     (let s1 = s\<lparr>ck_last_tick := now, ck_next_tick := now + check_period (ck_config s)\<rparr>;
          ok = perform env (ck_config s1) (check_timeout (ck_config s1)) (ck_services s1)
      in report_first_run (if ok then probe_passed s1 else probe_failed s1))"

definition check_command :: "nat \<Rightarrow> check_cmd option \<Rightarrow> check_actor \<Rightarrow> check_actor" where
  "check_command now cmd s =
     (case cmd of
        Some GetStatus \<Rightarrow>
          put_out (SendInfo (case ck_phase s of Delaying _ \<Rightarrow> delay_info s | _ \<Rightarrow> loop_info now s)) s
      | _ \<Rightarrow> s\<lparr>ck_phase := Returned\<rparr>)"

datatype check_input = CkCmd nat "check_cmd option" | CkDelayOver nat | CkTick nat probe_env

fun check_enabled :: "check_actor \<Rightarrow> check_input \<Rightarrow> bool" where
  "check_enabled s (CkCmd now c) = (case ck_phase s of Delaying _ \<Rightarrow> True | Probing \<Rightarrow> True | _ \<Rightarrow> False)"
| "check_enabled s (CkDelayOver now) = (case ck_phase s of Delaying d \<Rightarrow> d \<le> now | _ \<Rightarrow> False)"
| "check_enabled s (CkTick now env) = (ck_phase s = Probing \<and> ck_next_tick s \<le> now)"

fun check_dispatch :: "check_input \<Rightarrow> check_actor \<Rightarrow> check_actor" where
  "check_dispatch (CkCmd now c) s = check_command now c s"
| "check_dispatch (CkDelayOver now) s = delay_over now s"
| "check_dispatch (CkTick now env) s = check_tick now env s"

inductive check_step :: "check_actor \<Rightarrow> check_actor \<Rightarrow> bool" where
  check_step: "check_enabled s i \<Longrightarrow> check_step s (check_dispatch i s)"

inductive_cases check_stepE: "check_step s t"

definition check_init :: "string \<Rightarrow> check_config \<Rightarrow> (string, service_config) indexmap \<Rightarrow> check_status \<Rightarrow> check_actor \<Rightarrow> bool" where
  "check_init nm cfg svcs st s \<longleftrightarrow> (\<exists>now. s = check_run now nm cfg svcs st)"

end
