(* ===== verification/CheckProps.thy ===== *)
theory CheckProps
  imports Check
begin

text \<open>
  What a check promises: its status follows the failure threshold, each change is reported, its
  gauge mirrors its status, and an exec probe runs in the context it was configured with.
\<close>

named_theorems check_simps \<open>fields after each primitive of the check actor\<close>

subsection \<open>Fields\<close>

lemma put_out_fields [check_simps]:
  "ck_name (put_out e s) = ck_name s" "ck_config (put_out e s) = ck_config s"
  "ck_services (put_out e s) = ck_services s" "ck_phase (put_out e s) = ck_phase s"
  "ck_failures (put_out e s) = ck_failures s" "ck_status (put_out e s) = ck_status s"
  "ck_first_run (put_out e s) = ck_first_run s" "ck_next_tick (put_out e s) = ck_next_tick s"
  "ck_last_tick (put_out e s) = ck_last_tick s" "ck_out (put_out e s) = ck_out s @ [e]"
  by (simp_all add: put_out_def)

lemma send_event_fields [check_simps]:
  "ck_name (send_event s) = ck_name s" "ck_config (send_event s) = ck_config s"
  "ck_services (send_event s) = ck_services s" "ck_phase (send_event s) = ck_phase s"
  "ck_failures (send_event s) = ck_failures s" "ck_status (send_event s) = ck_status s"
  "ck_first_run (send_event s) = ck_first_run s" "ck_next_tick (send_event s) = ck_next_tick s"
  "ck_last_tick (send_event s) = ck_last_tick s"
  "ck_out (send_event s) = ck_out s @ [SendEvent \<lparr>ce_check = ck_name s, ce_status = ck_status s\<rparr>]"
  by (simp_all add: send_event_def check_simps)

definition probe_ok :: "probe_env \<Rightarrow> check_actor \<Rightarrow> bool" where
  "probe_ok env s = perform env (ck_config s) (check_timeout (ck_config s)) (ck_services s)"

lemma check_tick_fields [check_simps]:
  "ck_config (check_tick now env s) = ck_config s" "ck_services (check_tick now env s) = ck_services s"
  "ck_name (check_tick now env s) = ck_name s" "ck_phase (check_tick now env s) = ck_phase s"
  "ck_first_run (check_tick now env s) = False"
  "ck_last_tick (check_tick now env s) = now"
  "ck_next_tick (check_tick now env s) = now + check_period (ck_config s)"
  by (simp_all add: check_tick_def report_first_run_def probe_passed_def probe_failed_def Let_def check_simps)

lemma check_tick_status [check_simps]:
  "ck_status (check_tick now env s) =
    (if probe_ok env s then Up
     else if check_threshold (ck_config s) \<le> ck_failures s + 1 then Down else ck_status s)"
  by (cases "ck_status s") (simp_all add: check_tick_def report_first_run_def probe_passed_def probe_failed_def
      probe_ok_def Let_def check_simps)

lemma check_tick_failures [check_simps]:
  "ck_failures (check_tick now env s) = (if probe_ok env s then 0 else ck_failures s + 1)"
  by (cases "ck_status s") (simp_all add: check_tick_def report_first_run_def probe_passed_def probe_failed_def
      probe_ok_def Let_def check_simps)

subsection \<open>The failure threshold\<close>

definition check_ticks :: "(nat \<times> probe_env) list \<Rightarrow> check_actor \<Rightarrow> check_actor" where
  "check_ticks ticks s = fold (\<lambda>(now, env). check_tick now env) ticks s"

definition outcomes :: "check_actor \<Rightarrow> (nat \<times> probe_env) list \<Rightarrow> bool list" where
  "outcomes s ticks = map (\<lambda>(now, env). probe_ok env s) ticks"

definition trailing :: "bool list \<Rightarrow> nat" where
  "trailing oks = length (takeWhile Not (rev oks))"

text \<open>The status a threshold asks for after a sequence of probe outcomes.\<close>

definition expected_status :: "u32 \<Rightarrow> check_status \<Rightarrow> bool list \<Rightarrow> check_status" where
  "expected_status thr st oks =
     (if max 1 (unat thr) \<le> trailing oks \<or> st = Down \<and> True \<notin> set oks then Down else Up)"

lemma trailing_simps [simp]:
  "trailing [] = 0" "trailing (oks @ [True]) = 0" "trailing (oks @ [False]) = Suc (trailing oks)"
  by (simp_all add: trailing_def)

lemma trailing_le: "trailing oks \<le> length oks"
  using length_takeWhile_le [of Not "rev oks"] by (simp add: trailing_def)

lemma check_ticks_config:
  "ck_config (check_ticks ticks s) = ck_config s" "ck_services (check_ticks ticks s) = ck_services s"
  "ck_name (check_ticks ticks s) = ck_name s"
  by (induction ticks arbitrary: s) (auto simp: check_ticks_def check_simps)

lemma check_ticks_snoc: "check_ticks (ticks @ [(now, env)]) s = check_tick now env (check_ticks ticks s)"
  by (simp add: check_ticks_def)

lemma outcomes_snoc: "outcomes s (ticks @ [(now, env)]) = outcomes s ticks @ [probe_ok env s]"
  by (simp add: outcomes_def)

lemma probe_ok_ticks: "probe_ok env (check_ticks ticks s) = probe_ok env s"
  by (simp add: probe_ok_def check_ticks_config)

lemma below_threshold: "k < 4294967296 \<Longrightarrow> (thr \<le> (of_nat k :: u32)) = (unat thr \<le> k)"
  by (simp add: word_le_nat_alt unat_of_nat)

lemma check_ticks_status:
  assumes "ck_failures s = 0" and "length ticks < 4294967296"
  shows "ck_failures (check_ticks ticks s) = of_nat (trailing (outcomes s ticks)) \<and>
    ck_status (check_ticks ticks s) = expected_status (check_threshold (ck_config s)) (ck_status s) (outcomes s ticks)"
  using assms(2)
proof (induction ticks rule: rev_induct)
  case Nil
  show ?case using assms(1) by (cases "ck_status s") (simp_all add: check_ticks_def outcomes_def expected_status_def)
next
  case (snoc x ticks)
  obtain now env where x: "x = (now, env)" by (cases x)
  let ?k = "trailing (outcomes s ticks)"
  from snoc have IH: "ck_failures (check_ticks ticks s) = of_nat ?k"
      "ck_status (check_ticks ticks s) = expected_status (check_threshold (ck_config s)) (ck_status s) (outcomes s ticks)"
    by auto
  have k: "Suc ?k < 4294967296"
    using trailing_le [of "outcomes s ticks"] snoc.prems by (simp add: outcomes_def)
  have reached: "(check_threshold (ck_config s) \<le> of_nat ?k + 1) = (unat (check_threshold (ck_config s)) \<le> Suc ?k)"
    using below_threshold [OF k, of "check_threshold (ck_config s)"] by (simp add: add.commute)
  show ?case
  proof (cases "probe_ok env s")
    case True
    then show ?thesis
      using IH by (simp add: x check_ticks_snoc outcomes_snoc check_simps probe_ok_ticks expected_status_def)
  next
    case False
    then show ?thesis
      using IH reached
      by (auto simp: x check_ticks_snoc outcomes_snoc check_simps probe_ok_ticks check_ticks_config
          expected_status_def add.commute)
  qed
qed

text \<open>
  C5. A check goes down exactly when its last probes failed \<open>threshold\<close> times in a row (once,
  for a threshold of 0), stays down until a probe succeeds, and is up again at the first
  success; its failure counter is the number of failures since the last success.
\<close>

theorem check_follows_threshold:
  assumes "ck_failures s = 0" and "length ticks < 2 ^ 32"
  shows "let t = check_ticks ticks s; oks = outcomes s ticks in
    ck_failures t = of_nat (trailing oks) \<and>
    (ck_status t = Down \<longleftrightarrow>
       max 1 (unat (check_threshold (ck_config s))) \<le> trailing oks \<or> ck_status s = Down \<and> True \<notin> set oks)"
proof -
  from assms(2) have "length ticks < 4294967296" by simp
  from check_ticks_status [OF assms(1) this] show ?thesis
    by (auto simp: Let_def expected_status_def)
qed

definition demo_env :: "nat \<Rightarrow> probe_env" where
  "demo_env code = \<lparr>
     pe_load_pem = (\<lambda>_. Inl ''no file''), pe_send = (\<lambda>_ _ _. InTime (Inr code)),
     pe_connect = (\<lambda>_. TimedOut), pe_exec = (\<lambda>_. InTime (Some (ExitedWith code))), pe_users = demo_db \<rparr>"

definition demo_check :: check_config where
  "demo_check = check_config_default\<lparr>chk_http := Some (http_check_default\<lparr>hc_url := ''http://x/''\<rparr>)\<rparr>"

lemma demo_probe: "perform (demo_env code) demo_check t svcs = status_is_success code"
  by (simp add: demo_env_def demo_check_def check_config_default_def http_check_default_def perform_def
      probe_http_def http_client_for_def)

lemma demo_settings: "check_threshold demo_check = 3" "check_period demo_check = 10000"
  by (simp_all add: demo_check_def check_config_default_def check_threshold_def default_threshold_def
      check_period_def default_period_def duration_or_def)

definition demo_actor :: check_actor where
  "demo_actor = delay_over 3000 (check_run 0 ''c'' demo_check [] Up)"

lemma demo_actor_fields: "ck_failures demo_actor = 0" "ck_status demo_actor = Up" "ck_config demo_actor = demo_check"
    "ck_services demo_actor = []" "ck_first_run demo_actor" "ck_name demo_actor = ''c''" "ck_out demo_actor = [MetricUp True]"
  by (simp_all add: demo_actor_def delay_over_def check_run_def Let_def check_simps demo_settings)

theorem check_follows_threshold_witness:
  "ck_status (check_ticks [(1, demo_env 200), (2, demo_env 500), (3, demo_env 500), (4, demo_env 503)] demo_actor) = Down"
proof -
  let ?ticks = "[(1, demo_env 200), (2, demo_env 500), (3, demo_env 500), (4, demo_env 503)]"
  have "trailing (outcomes demo_actor ?ticks) = 3"
    by (simp add: outcomes_def probe_ok_def demo_actor_fields demo_probe status_is_success_def trailing_def)
  then show ?thesis
    using check_follows_threshold [of demo_actor ?ticks] by (simp add: demo_actor_fields demo_settings Let_def)
qed

subsection \<open>Reports\<close>

fun sent_statuses :: "check_effect list \<Rightarrow> check_status list" where
  "sent_statuses [] = []"
| "sent_statuses (SendEvent e # es) = ce_status e # sent_statuses es"
| "sent_statuses (_ # es) = sent_statuses es"

lemma sent_statuses_append [simp]: "sent_statuses (xs @ ys) = sent_statuses xs @ sent_statuses ys"
  by (induction xs rule: sent_statuses.induct) auto

text \<open>The changes in a sequence of statuses, starting from a previous one.\<close>

fun changes :: "check_status \<Rightarrow> check_status list \<Rightarrow> check_status list" where
  "changes st [] = []"
| "changes st (x # xs) = (if x = st then [] else [x]) @ changes x xs"

definition statuses :: "u32 \<Rightarrow> check_status \<Rightarrow> bool list \<Rightarrow> check_status list" where
  "statuses thr st oks = map (\<lambda>i. expected_status thr st (take (Suc i) oks)) [0..<length oks]"

lemma check_tick_reports:
  "sent_statuses (ck_out (check_tick now env s)) = sent_statuses (ck_out s) @
    (let st = ck_status (check_tick now env s) in
     (if st = ck_status s then [] else [st]) @ (if ck_first_run s then [st] else []))"
  by (cases "ck_status s"; simp add: check_tick_def report_first_run_def probe_passed_def probe_failed_def
      Let_def check_simps)

lemma changes_snoc: "changes st (xs @ [x]) = changes st xs @ (if x = last (st # xs) then [] else [x])"
  by (induction st xs rule: changes.induct) auto

lemma statuses_snoc: "statuses thr st (oks @ [b]) = statuses thr st oks @ [expected_status thr st (oks @ [b])]"
  by (simp add: statuses_def)

lemma last_statuses: "last (st # statuses thr st oks) = (if oks = [] then st else expected_status thr st oks)"
  by (cases oks rule: rev_cases) (simp_all add: statuses_snoc, simp add: statuses_def)

lemma expected_status_Nil [simp]: "expected_status thr st [] = st"
  by (cases st) (simp_all add: expected_status_def)

lemma first_run_ticks: "ck_first_run (check_ticks ticks s) = (ck_first_run s \<and> ticks = [])"
  by (induction ticks rule: rev_induct) (auto simp: check_ticks_def check_simps)

text \<open>
  What the overlord hears of a check: the first probe's status is always reported, and after
  it exactly the changes are, in order. If the first probe itself changes the status, that status
  is reported twice.
\<close>

theorem check_reports:
  assumes "ck_failures s = 0" and "ck_first_run s" and "length ticks < 2 ^ 32"
  shows "sent_statuses (ck_out (check_ticks ticks s)) = sent_statuses (ck_out s) @
    (case statuses (check_threshold (ck_config s)) (ck_status s) (outcomes s ticks) of
       [] \<Rightarrow> []
     | st # sts \<Rightarrow> (if st = ck_status s then [] else [st]) @ [st] @ changes st sts)"
  using assms(3)
proof (induction ticks rule: rev_induct)
  case Nil
  show ?case by (simp add: check_ticks_def outcomes_def statuses_def)
next
  case (snoc x ticks)
  obtain now env where x: "x = (now, env)" by (cases x)
  let ?st = "\<lambda>ticks. statuses (check_threshold (ck_config s)) (ck_status s) (outcomes s ticks)"
  have len: "length ticks < 4294967296" "length (ticks @ [x]) < 4294967296" using snoc.prems by simp_all
  note st = check_ticks_status [OF assms(1) len(1)] check_ticks_status [OF assms(1) len(2)]
  have IH: "sent_statuses (ck_out (check_ticks ticks s)) = sent_statuses (ck_out s) @
    (case ?st ticks of [] \<Rightarrow> [] | y # ys \<Rightarrow> (if y = ck_status s then [] else [y]) @ [y] @ changes y ys)"
    using snoc by simp
  have snocs: "?st (ticks @ [x]) = ?st ticks @ [ck_status (check_ticks (ticks @ [x]) s)]"
    using st by (simp add: x outcomes_snoc statuses_snoc)
  show ?case
  proof (cases "?st ticks")
    case Nil
    then have "ticks = []" by (simp add: statuses_def outcomes_def)
    then show ?thesis
      using Nil IH snocs assms(2) check_tick_reports [of now env s]
      by (simp add: x check_ticks_def Let_def)
  next
    case (Cons y ys)
    then have ne: "ticks \<noteq> []" "outcomes s ticks \<noteq> []" by (auto simp: statuses_def outcomes_def)
    have "last (y # ys) = ck_status (check_ticks ticks s)"
      using Cons st last_statuses [of "ck_status s" "check_threshold (ck_config s)" "outcomes s ticks"] ne by simp
    then show ?thesis
      using Cons IH snocs ne check_tick_reports [of now env "check_ticks ticks s"]
      by (simp add: x check_ticks_snoc first_run_ticks changes_snoc Let_def)
  qed
qed

theorem check_reports_witness:
  "sent_statuses (ck_out (check_ticks [(1, demo_env 500), (2, demo_env 200)]
      (demo_actor\<lparr>ck_config := demo_check\<lparr>chk_threshold := Some 1\<rparr>\<rparr>))) = [Down, Down, Up]"
proof -
  let ?a = "demo_actor\<lparr>ck_config := demo_check\<lparr>chk_threshold := Some 1\<rparr>\<rparr>"
  let ?ticks = "[(1, demo_env 500), (2, demo_env 200)]"
  have "perform (demo_env c) (demo_check\<lparr>chk_threshold := Some 1\<rparr>) t svcs = status_is_success c" for c t svcs
    using demo_probe [of c t svcs] by (simp add: perform_def demo_check_def check_config_default_def)
  then have "outcomes ?a ?ticks = [False, True]"
    by (simp add: outcomes_def probe_ok_def demo_actor_fields status_is_success_def)
  moreover have "statuses 1 Up [False, True] = [Down, Up]"
    by (simp add: statuses_def expected_status_def trailing_def upt_rec)
  ultimately show ?thesis
    using check_reports [of ?a ?ticks] by (simp add: demo_actor_fields check_threshold_def)
qed

subsection \<open>The invariant of the task\<close>

fun note_up :: "check_effect \<Rightarrow> bool option \<Rightarrow> bool option" where
  "note_up (MetricUp b) _ = Some b"
| "note_up _ old = old"

definition gauge :: "check_actor \<Rightarrow> bool option" where
  "gauge s = fold note_up (ck_out s) None"

definition check_inv :: "string \<Rightarrow> check_config \<Rightarrow> check_actor \<Rightarrow> bool" where
  "check_inv nm cfg s \<longleftrightarrow> ck_name s = nm \<and> ck_config s = cfg \<and>
     (ck_phase s = Panicked \<longrightarrow> check_period cfg = 0) \<and>
     (ck_phase s = Probing \<longrightarrow> 0 < check_period cfg \<and> gauge s = Some (ck_status s = Up) \<and>
        (ck_next_tick s = ck_last_tick s + check_period cfg \<or> ck_first_run s \<and> ck_next_tick s = ck_last_tick s)) \<and>
     (\<forall>d. ck_phase s = Delaying d \<longrightarrow> sent_statuses (ck_out s) = []) \<and>
     (check_period cfg = 0 \<longrightarrow> sent_statuses (ck_out s) = []) \<and>
     (check_threshold cfg \<le> ck_failures s \<longrightarrow> check_threshold cfg \<noteq> 0 \<longrightarrow> ck_phase s = Probing \<longrightarrow> ck_status s = Down)"

lemma gauge_out: "gauge (put_out e s) = note_up e (gauge s)"
  by (simp add: gauge_def check_simps)

lemma gauge_send [simp]: "gauge (send_event s) = gauge s"
  by (simp add: send_event_def gauge_out)

lemma gauge_updates [simp]: "gauge (s\<lparr>ck_failures := f\<rparr>) = gauge s" "gauge (s\<lparr>ck_status := st\<rparr>) = gauge s"
    "gauge (s\<lparr>ck_first_run := b\<rparr>) = gauge s" "gauge (s\<lparr>ck_phase := ph\<rparr>) = gauge s"
    "gauge (s\<lparr>ck_last_tick := n\<rparr>) = gauge s" "gauge (s\<lparr>ck_next_tick := n\<rparr>) = gauge s"
  by (simp_all add: gauge_def)

lemma gauge_tick: "gauge s = Some (ck_status s = Up) \<Longrightarrow>
    gauge (check_tick now env s) = Some (ck_status (check_tick now env s) = Up)"
  by (cases "ck_status s"; simp add: check_tick_def report_first_run_def probe_passed_def probe_failed_def
      Let_def check_simps gauge_out)

lemma check_inv_step: "check_inv nm cfg s \<Longrightarrow> check_enabled s i \<Longrightarrow> check_inv nm cfg (check_dispatch i s)"
proof (cases i)
  case (CkCmd now c)
  assume "check_inv nm cfg s" "check_enabled s i"
  with CkCmd show ?thesis
    by (auto simp: check_inv_def check_command_def check_simps gauge_out split: option.splits check_cmd.splits check_phase.splits)
next
  case (CkDelayOver now)
  assume "check_inv nm cfg s" "check_enabled s i"
  with CkDelayOver show ?thesis
    by (auto simp: check_inv_def delay_over_def Let_def check_simps gauge_out split: check_phase.splits)
next
  case (CkTick now env)
  assume "check_inv nm cfg s" "check_enabled s i"
  with CkTick show ?thesis
    using gauge_tick [of s now env] by (auto simp: check_inv_def check_simps)
qed

lemma check_inv_run: "check_inv nm cfg (check_run now nm cfg svcs st)"
  by (simp add: check_inv_def check_run_def)

interpretation probing: invariant_system "check_init nm cfg svcs st" check_step "check_inv nm cfg" for nm cfg svcs st
  by unfold_locales (auto simp: check_init_def check_inv_run intro: check_inv_step elim!: check_stepE)

text \<open>
  C32. In every reachable state of a check task: while it probes, its gauge says whether the
  check is up and a check whose failures reached a positive threshold is down; nothing is
  reported during the initial delay; the next probe is due one period after the last; and the
  task has panicked only if the period is zero, in which case it never reports anything.
\<close>

theorem check_actor_invariant:
  assumes "reach (check_init nm cfg svcs st) check_step s"
  shows "(ck_phase s = Panicked \<longrightarrow> check_period cfg = 0) \<and>
    (check_period cfg = 0 \<longrightarrow> sent_statuses (ck_out s) = []) \<and>
    (\<forall>d. ck_phase s = Delaying d \<longrightarrow> sent_statuses (ck_out s) = []) \<and>
    (ck_phase s = Probing \<longrightarrow> gauge s = Some (ck_status s = Up) \<and>
       (ck_next_tick s = ck_last_tick s + check_period cfg \<or> ck_first_run s \<and> ck_next_tick s = ck_last_tick s) \<and>
       (check_threshold cfg \<le> ck_failures s \<and> check_threshold cfg \<noteq> 0 \<longrightarrow> ck_status s = Down))"
  using probing.reach_inv [OF assms] by (auto simp: check_inv_def)

theorem check_actor_invariant_witness:
  "sent_statuses (ck_out (delay_over 3000 (check_run 0 ''c'' (demo_check\<lparr>chk_period := Some ''0s''\<rparr>) [] Up))) = []"
proof -
  let ?cfg = "demo_check\<lparr>chk_period := Some ''0s''\<rparr>"
  let ?s = "check_run 0 ''c'' ?cfg [] Up"
  have "parse_duration ''0s'' = Inr 0"
    by (simp add: parse_duration_def parse_loop.simps [of _ 0 "''0s''"] parse_loop.simps [of _ _ "[]"]
        is_ascii_digit_def digit_val_def suffix_of_def Let_def)
  then have p: "check_period ?cfg = 0" by (simp add: check_period_def duration_or_def)
  have "reach (check_init ''c'' ?cfg [] Up) check_step ?s"
    by (rule reach_init) (auto simp: check_init_def)
  moreover have "check_enabled ?s (CkDelayOver 3000)"
    by (simp add: check_run_def check_delay_def duration_or_def default_check_delay_def demo_check_def check_config_default_def)
  then have "check_step ?s (check_dispatch (CkDelayOver 3000) ?s)" by (rule check_step)
  ultimately have "reach (check_init ''c'' ?cfg [] Up) check_step (delay_over 3000 ?s)"
    using reach_step by fastforce
  from check_actor_invariant [OF this] p show ?thesis by blast
qed

subsection \<open>Exec probes\<close>

text \<open>
  An exec probe that passes has run \<open>sh -c\<close> with the configured command, which exited with
  0; its environment is the service context's with the check's own variables on top; and under
  a root daemon it ran with exactly the credentials resolved from the check's user and group,
  each falling back to the service context's. If resolution fails nothing runs.
\<close>

theorem exec_probe_context:
  assumes "probe_exec env svcs ex"
  shows "\<exists>req creds. pe_exec env req = InTime (Some (ExitedWith 0)) \<and>
    xr_argv req = [''sh'', ''-c'', ec_command ex] \<and>
    (\<forall>k. map_of (xr_envs req) k =
       (case map_of (rev (ec_environment ex)) k of
          Some v \<Rightarrow> Some v
        | None \<Rightarrow> (case exec_context svcs ex of None \<Rightarrow> None | Some s \<Rightarrow> map_of (svc_environment s) k))) \<and>
    exec_credentials (pe_users env) (exec_context svcs ex) ex = Inr creds \<and>
    (db_euid (pe_users env) = 0 \<longrightarrow> xr_credentials req = creds)"
proof -
  from assms obtain req where req: "exec_request_of (pe_users env) svcs ex = Inr req"
      and run: "pe_exec env req = InTime (Some (ExitedWith 0))"
    by (auto simp: probe_exec_def exit_success_def split: sum.splits timed.splits option.splits)
  from req obtain creds where c: "exec_credentials (pe_users env) (exec_context svcs ex) ex = Inr creds"
    by (auto simp: exec_request_of_def Let_def split: sum.splits)
  with req have "req = \<lparr> xr_argv = [''sh'', ''-c'', ec_command ex], xr_envs = exec_env (exec_context svcs ex) ex,
      xr_current_dir = opt_or (ec_working_dir ex) (from_ctx (exec_context svcs ex) svc_working_dir),
      xr_credentials = apply_credentials (pe_users env) creds \<rparr>"
    by (simp add: exec_request_of_def Let_def)
  with run c show ?thesis
    by (intro exI [of _ req] exI [of _ creds])
      (auto simp: exec_env_def map_of_im_extend apply_credentials_def is_current_unprivileged_def split: option.splits)
qed

definition demo_exec :: exec_check where
  "demo_exec = \<lparr> ec_command = ''true'', ec_service_context = None, ec_environment = [(''K'', ''v'')],
     ec_user = None, ec_user_id = None, ec_group = None, ec_group_id = None, ec_working_dir = None \<rparr>"

theorem exec_probe_context_witness:
  "\<exists>req. pe_exec (demo_env 0) req = InTime (Some (ExitedWith 0)) \<and> map_of (xr_envs req) ''K'' = Some ''v''"
proof -
  have "probe_exec (demo_env 0) [] demo_exec"
    by (simp add: probe_exec_def exec_request_of_def demo_env_def demo_exec_def exec_credentials_def opt_or_def
        from_ctx_def exec_context_def resolve_credentials_def exit_success_def Let_def)
  from exec_probe_context [OF this] show ?thesis
    by (auto simp: demo_exec_def)
qed

end
