(* ===== verification/NoProxy.thy ===== *)
theory NoProxy
  imports Prelude
begin

text \<open>
  Which hosts bypass the proxy: \<open>crates/vigil-types/src/no_proxy\<close> (the CLI and the relay) and the
  older matcher of \<open>crates/vigild/src/tls/proxy.rs\<close> (alerts), with the part of the standard
  library's \<open>IpAddr::from_str\<close> and \<open>u32::from_str\<close> they rest on.
\<close>

subsection \<open>Parsing addresses (the standard library)\<close>

type_synonym 'a parser = "string \<Rightarrow> ('a \<times> string) option"

datatype ip_addr = V4 "32 word" | V6 "128 word"

definition hex_val :: "char \<Rightarrow> nat option" where
  "hex_val c =
     (let n = (of_char c :: nat) in
      if 48 \<le> n \<and> n \<le> 57 then Some (n - 48)
      else if 97 \<le> n \<and> n \<le> 102 then Some (n - 87)
      else if 65 \<le> n \<and> n \<le> 70 then Some (n - 55)
      else None)"

definition radix_digit :: "nat \<Rightarrow> char \<Rightarrow> nat option" where
  "radix_digit radix c = (case hex_val c of Some d \<Rightarrow> if d < radix then Some d else None | None \<Rightarrow> None)"

text \<open>\<open>read_digits radix bound digits value count s\<close>: the loop of \<open>Parser::read_number\<close>.\<close>

fun read_digits :: "nat \<Rightarrow> nat \<Rightarrow> nat \<Rightarrow> nat \<Rightarrow> nat \<Rightarrow> (nat \<times> nat) parser" where
  "read_digits radix bound digits acc count [] = Some ((acc, count), [])"
| "read_digits radix bound digits acc count (c # s) =
     (case radix_digit radix c of
        None \<Rightarrow> Some ((acc, count), c # s)
      | Some d \<Rightarrow>
          if bound < acc * radix + d then None
          else if digits < count + 1 then None
          else read_digits radix bound digits (acc * radix + d) (count + 1) s)"

definition read_number :: "nat \<Rightarrow> nat \<Rightarrow> nat \<Rightarrow> bool \<Rightarrow> nat parser" where
  "read_number radix bound digits zero_prefix s =
     (case read_digits radix bound digits 0 0 s of
        None \<Rightarrow> None
      | Some ((v, count), rest) \<Rightarrow>
          if count = 0 then None
          else if \<not> zero_prefix \<and> starts_with s ''0'' \<and> 1 < count then None
          else Some (v, rest))"

definition read_char :: "char \<Rightarrow> unit parser" where
  "read_char c s = (case s of [] \<Rightarrow> None | d # s' \<Rightarrow> if d = c then Some ((), s') else None)"

definition read_separator :: "char \<Rightarrow> nat \<Rightarrow> 'a parser \<Rightarrow> 'a parser" where
  "read_separator sep i p s =
     (if 0 < i then (case read_char sep s of None \<Rightarrow> None | Some (_, s') \<Rightarrow> p s') else p s)"

fun read_octets :: "nat \<Rightarrow> nat list parser" where
  "read_octets 0 s = Some ([], s)"
| "read_octets (Suc k) s =
     (case read_separator (CHR ''.'') (3 - k) (read_number 10 255 3 False) s of
        None \<Rightarrow> None
      | Some (v, s') \<Rightarrow> (case read_octets k s' of None \<Rightarrow> None | Some (vs, s'') \<Rightarrow> Some (v # vs, s'')))"

definition be_value :: "nat \<Rightarrow> nat list \<Rightarrow> nat" where
  "be_value base ds = foldl (\<lambda>acc d. acc * base + d) 0 ds"

definition read_ipv4 :: "nat list parser" where
  "read_ipv4 s = read_octets 4 s"

text \<open>
  \<open>read_groups n i limit s\<close>: at most \<open>n\<close> more groups, \<open>i\<close> are read and \<open>limit\<close> is the
  size of the buffer; the result are the groups, and whether an embedded IPv4 address ended them.
\<close>

fun read_groups :: "nat \<Rightarrow> nat \<Rightarrow> nat \<Rightarrow> string \<Rightarrow> (nat list \<times> bool) \<times> string" where
  "read_groups 0 i limit s = (([], False), s)"
| "read_groups (Suc n) i limit s =
     (case (if i < limit - 1 then read_separator (CHR '':'') i read_ipv4 s else None) of
        Some (os, s') \<Rightarrow> (([os ! 0 * 256 + os ! 1, os ! 2 * 256 + os ! 3], True), s')
      | None \<Rightarrow>
          (case read_separator (CHR '':'') i (read_number 16 65535 4 True) s of
             None \<Rightarrow> (([], False), s)
           | Some (g, s') \<Rightarrow>
               (case read_groups n (i + 1) limit s' of ((gs, v4), s'') \<Rightarrow> ((g # gs, v4), s''))))"

definition read_ipv6 :: "nat list parser" where
  "read_ipv6 s =
     (case read_groups 8 0 8 s of
        ((hd_groups, v4), s1) \<Rightarrow>
          if length hd_groups = 8 then Some (hd_groups, s1)
          else if v4 then None
          else (case read_char (CHR '':'') s1 of None \<Rightarrow> None | Some (_, s2) \<Rightarrow>
               (case read_char (CHR '':'') s2 of None \<Rightarrow> None | Some (_, s3) \<Rightarrow>
               (let limit = 8 - (length hd_groups + 1) in
                case read_groups limit 0 limit s3 of
                  ((tl_groups, _), s4) \<Rightarrow>
                    Some (hd_groups @ replicate (8 - length hd_groups - length tl_groups) 0 @ tl_groups, s4)))))"

definition parse_ip :: "string \<Rightarrow> ip_addr option" where
  "parse_ip s =
     (case (case read_ipv4 s of
              Some (os, rest) \<Rightarrow> Some (V4 (of_nat (be_value 256 os)), rest)
            | None \<Rightarrow> (case read_ipv6 s of
                         Some (gs, rest) \<Rightarrow> Some (V6 (of_nat (be_value 65536 gs)), rest)
                       | None \<Rightarrow> None))
      of Some (ip, []) \<Rightarrow> Some ip | _ \<Rightarrow> None)"

definition parse_u32 :: "string \<Rightarrow> u32 option" where
  "parse_u32 s =
     (let ds = (case s of [] \<Rightarrow> [] | c # cs \<Rightarrow> if c = CHR ''+'' then cs else s) in
      if ds = [] \<or> \<not> list_all is_ascii_digit ds \<or> 4294967295 < parse_digits 0 ds then None
      else Some (of_nat (parse_digits 0 ds)))"

subsection \<open>vigil-types\<close>

definition parse_no_proxy :: "string option \<Rightarrow> string list" where
  "parse_no_proxy s =
     (case s of
        None \<Rightarrow> []
      | Some s \<Rightarrow> filter (\<lambda>e. e \<noteq> []) (map (\<lambda>e. to_ascii_lowercase (trim e)) (split_on (CHR '','') s)))"

definition strip_port :: "string \<Rightarrow> string" where
  "strip_port host =
     (case (case strip_prefix ''['' host of None \<Rightarrow> None | Some rest \<Rightarrow> split_once (CHR '']'') rest) of
        Some (inner, _) \<Rightarrow> inner
      | None \<Rightarrow>
          if 1 < length (filter (\<lambda>c. c = CHR '':'') host) then host
          else (case rsplit_once (CHR '':'') host of
                  None \<Rightarrow> host
                | Some (h, port) \<Rightarrow> if list_all is_ascii_digit port then h else host))"

definition cidr_matches :: "ip_addr \<Rightarrow> string \<Rightarrow> bool option" where
  "cidr_matches ip entry =
     (case split_once (CHR ''/'') entry of None \<Rightarrow> None | Some (net_str, len_str) \<Rightarrow>
     (case parse_u32 len_str of None \<Rightarrow> None | Some prefix_len \<Rightarrow>
     (case parse_ip net_str of None \<Rightarrow> None | Some net_ip \<Rightarrow>
       Some (case (ip, net_ip) of
               (V4 host, V4 net) \<Rightarrow>
                 if 32 < prefix_len then False
                 else if prefix_len = 0 then True
                 else (let shift = unat (32 - prefix_len) in drop_bit shift host = drop_bit shift net)
             | (V6 host, V6 net) \<Rightarrow>
                 if 128 < prefix_len then False
                 else if prefix_len = 0 then True
                 else (let shift = unat (128 - prefix_len) in drop_bit shift host = drop_bit shift net)
             | _ \<Rightarrow> False))))"

text \<open>The domain rule both matchers share: equality, or a suffix after a dot.\<close>

definition strip_dot :: "string \<Rightarrow> string" where
  "strip_dot entry = (case strip_prefix ''.'' entry of Some e \<Rightarrow> e | None \<Rightarrow> entry)"

definition domain_matches :: "string \<Rightarrow> string \<Rightarrow> bool" where
  "domain_matches bare e \<longleftrightarrow> bare = e \<or>
     (length e < length bare \<and> bare ! (length bare - length e - 1) = CHR ''.'' \<and> ends_with bare e)"

definition no_proxy_matches :: "string \<Rightarrow> string list \<Rightarrow> bool" where
  "no_proxy_matches host entries =
     (if entries = [] then False
      else
        let bare = to_ascii_lowercase (strip_port host); host_ip = parse_ip bare in
        list_ex (\<lambda>entry.
          let e = strip_dot entry in
          case (case host_ip of None \<Rightarrow> None | Some ip \<Rightarrow> cidr_matches ip e) of
            Some matched \<Rightarrow> matched
          | None \<Rightarrow> domain_matches bare e) entries)"

subsection \<open>vigild\<close>

definition daemon_strip_port :: "string \<Rightarrow> string" where
  "daemon_strip_port host =
     (case rsplit_once (CHR '':'') host of
        None \<Rightarrow> host
      | Some (h, port) \<Rightarrow> if list_all is_ascii_digit port then h else host)"

definition daemon_no_proxy_matches :: "string \<Rightarrow> string list \<Rightarrow> bool" where
  "daemon_no_proxy_matches host entries =
     (if entries = [] then False
      else let bare = to_ascii_lowercase (daemon_strip_port host) in
           list_ex (\<lambda>entry. domain_matches bare (strip_dot entry)) entries)"

subsection \<open>Properties\<close>

lemma domain_matches_iff: "domain_matches bare e \<longleftrightarrow> bare = e \<or> (\<exists>sub. bare = sub @ CHR ''.'' # e)"
proof
  assume "domain_matches bare e"
  then consider "bare = e" | "length e < length bare" "bare ! (length bare - length e - 1) = CHR ''.''" "ends_with bare e"
    by (auto simp: domain_matches_def)
  then show "bare = e \<or> (\<exists>sub. bare = sub @ CHR ''.'' # e)"
  proof cases
    case 2
    then obtain t where t: "bare = t @ e" by (auto simp: ends_with_iff)
    with 2 have "t \<noteq> []" "t ! (length t - 1) = CHR ''.''" by (auto simp: nth_append)
    then have "t = butlast t @ [CHR ''.'']" by (metis append_butlast_last_id last_conv_nth)
    with t show ?thesis by (metis append.assoc append_Cons append_Nil)
  qed simp
next
  assume "bare = e \<or> (\<exists>sub. bare = sub @ CHR ''.'' # e)"
  then show "domain_matches bare e"
    by (auto simp: domain_matches_def ends_with_iff nth_append)
qed

lemma drop_bit_agree: "drop_bit s (a :: 'w::len word) = drop_bit s b \<longleftrightarrow>
    (\<forall>i < LENGTH('w). s \<le> i \<longrightarrow> bit a i = bit b i)"
proof
  assume h: "drop_bit s a = drop_bit s b"
  show "\<forall>i < LENGTH('w). s \<le> i \<longrightarrow> bit a i = bit b i"
  proof (intro allI impI)
    fix i assume "i < LENGTH('w)" "s \<le> i"
    then show "bit a i = bit b i"
      using arg_cong [OF h, of "\<lambda>w. bit w (i - s)"] by (simp add: bit_drop_bit_eq)
  qed
next
  assume "\<forall>i < LENGTH('w). s \<le> i \<longrightarrow> bit a i = bit b i"
  then show "drop_bit s a = drop_bit s b"
    by (intro bit_eqI) (metis bit_drop_bit_eq bit_imp_le_length comp_apply le_add1)
qed

lemma shift_value: "prefix_len \<le> (n :: u32) \<Longrightarrow> unat (n - prefix_len) = unat n - unat prefix_len"
  by (simp add: unat_sub)

lemmas read_octets_numeral = read_octets.simps(2) [of "pred_numeral k" for k, folded numeral_eq_Suc]
lemmas read_groups_numeral = read_groups.simps(2) [of "pred_numeral k" for k, folded numeral_eq_Suc]

lemmas parse_ip_simps = parse_ip_def read_ipv4_def read_ipv6_def read_octets_numeral read_groups_numeral
  read_separator_def read_number_def read_char_def radix_digit_def hex_val_def be_value_def Let_def

lemma lower_slash: "ascii_lower c = CHR ''/'' \<Longrightarrow> c = CHR ''/''"
proof (cases "65 \<le> (of_char c :: nat) \<and> (of_char c :: nat) \<le> 90")
  case True
  assume "ascii_lower c = CHR ''/''"
  with True have "(of_char (char_of (of_char c + 32 :: nat)) :: nat) = of_char (CHR ''/'')"
    by (simp add: ascii_lower_def)
  with True show ?thesis by simp
qed (auto simp: ascii_lower_def)

lemma lower_C: "ascii_lower (CHR ''C'') = CHR ''c''"
  by code_simp


text \<open>
  CIDR matching of IPv4 hosts: for an entry \<open>net/len\<close> with \<open>len\<close> at most 32 the host
  matches exactly when its first \<open>len\<close> bits are those of the network; a longer prefix never
  matches, and neither does an address of the other family.
\<close>

theorem cidr_matches_prefix:
  assumes "split_once (CHR ''/'') entry = Some (net_str, len_str)" and "parse_u32 len_str = Some len"
    and "parse_ip net_str = Some net"
  shows "cidr_matches ip entry = Some (case (ip, net) of
      (V4 h, V4 n) \<Rightarrow> len \<le> 32 \<and> (\<forall>i < 32. 32 - unat len \<le> i \<longrightarrow> bit h i = bit n i)
    | (V6 h, V6 n) \<Rightarrow> len \<le> 128 \<and> (\<forall>i < 128. 128 - unat len \<le> i \<longrightarrow> bit h i = bit n i)
    | _ \<Rightarrow> False)"
proof (cases ip)
  case (V4 h)
  then show ?thesis
    using assms by (cases net) (auto simp: cidr_matches_def Let_def drop_bit_agree shift_value not_less)
next
  case (V6 h)
  then show ?thesis
    using assms by (cases net) (auto simp: cidr_matches_def Let_def drop_bit_agree shift_value not_less)
qed

theorem cidr_matches_prefix_witness:
  "cidr_matches (V4 0x0A010203) ''10.0.0.0/8'' = Some True"
proof -
  have h: "split_once (CHR ''/'') ''10.0.0.0/8'' = Some (''10.0.0.0'', ''8'')" "parse_u32 ''8'' = Some 8"
      "parse_ip ''10.0.0.0'' = Some (V4 0x0A000000)"
    by (simp_all add: parse_ip_simps parse_u32_def is_ascii_digit_def digit_val_def)
  have "drop_bit 24 (0x0A010203 :: u32) = drop_bit 24 (0x0A000000 :: u32)"
    by (simp add: drop_bit_eq_div word_div_def)
  then have "\<forall>i < LENGTH(32). 24 \<le> i \<longrightarrow> bit (0x0A010203 :: u32) i = bit (0x0A000000 :: u32) i"
    by (simp only: drop_bit_agree)
  with cidr_matches_prefix [OF h, of "V4 0x0A010203"] show ?thesis by simp
qed

text \<open>
  The domain rule: a host name (one that is not an address) bypasses the proxy exactly when,
  without its port and in lower case, it equals an entry without its leading dot or ends in a dot
  followed by it.
\<close>

theorem no_proxy_domains:
  assumes "parse_ip (to_ascii_lowercase (strip_port host)) = None"
  shows "no_proxy_matches host entries \<longleftrightarrow>
    (\<exists>e \<in> set entries. let bare = to_ascii_lowercase (strip_port host) in
       bare = strip_dot e \<or> (\<exists>sub. bare = sub @ CHR ''.'' # strip_dot e))"
  using assms by (auto simp: no_proxy_matches_def Let_def list_ex_iff domain_matches_iff)

theorem no_proxy_domains_witness: "no_proxy_matches ''api.Corp:443'' [''.corp'']"
proof -
  have s: "strip_port ''api.Corp:443'' = ''api.Corp''" "strip_dot ''.corp'' = ''corp''" "parse_ip ''api.corp'' = None"
    by (simp_all add: strip_port_def strip_prefix_def rsplit_once_def is_ascii_digit_def strip_dot_def parse_ip_simps)
  moreover have l: "to_ascii_lowercase ''api.Corp'' = ''api.corp''"
    by (simp add: to_ascii_lowercase_def lower_C) (simp add: ascii_lower_def)
  ultimately have "parse_ip (to_ascii_lowercase (strip_port ''api.Corp:443'')) = None" by simp
  from no_proxy_domains [OF this, of "[''.corp'']"] s l show ?thesis by (simp add: Let_def)
qed

lemma strip_port_simple: "\<not> starts_with host ''['' \<Longrightarrow> length (filter (\<lambda>c. c = CHR '':'') host) \<le> 1 \<Longrightarrow>
    strip_port host = daemon_strip_port host"
  by (simp add: strip_port_def daemon_strip_port_def strip_prefix_def)

text \<open>
  The daemon's own matcher agrees with the shared one on host names: for a host that is not
  an address, with at most one colon and no bracket, both give the same answer for every list.
\<close>

theorem daemon_matcher_agrees:
  assumes "parse_ip (to_ascii_lowercase (strip_port host)) = None"
    and "\<not> starts_with host ''[''" and "length (filter (\<lambda>c. c = CHR '':'') host) \<le> 1"
  shows "daemon_no_proxy_matches host entries = no_proxy_matches host entries"
  using assms(1) strip_port_simple [OF assms(2,3)]
  by (simp add: daemon_no_proxy_matches_def no_proxy_matches_def Let_def)

theorem daemon_matcher_agrees_witness:
  "daemon_no_proxy_matches ''db.local:5432'' [''local''] = no_proxy_matches ''db.local:5432'' [''local'']"
  by (rule daemon_matcher_agrees)
    (simp_all add: strip_port_def strip_prefix_def rsplit_once_def is_ascii_digit_def to_ascii_lowercase_def
      ascii_lower_def parse_ip_simps)

text \<open>
  The daemon's matcher has no address ranges: no entry with a slash ever matches a host
  without one, although the same list makes the shared matcher bypass the proxy.
\<close>

theorem daemon_ignores_ranges:
  assumes "CHR ''/'' \<notin> set host" and "\<forall>e \<in> set entries. CHR ''/'' \<in> set e"
  shows "\<not> daemon_no_proxy_matches host entries"
proof
  assume "daemon_no_proxy_matches host entries"
  then obtain e where e: "e \<in> set entries" "domain_matches (to_ascii_lowercase (daemon_strip_port host)) (strip_dot e)"
    by (auto simp: daemon_no_proxy_matches_def list_ex_iff Let_def split: if_splits)
  have "CHR ''/'' \<in> set (strip_dot e)"
    using assms(2) e(1) by (auto simp: strip_dot_def strip_prefix_Some split: option.splits)
  with e(2) have "CHR ''/'' \<in> set (to_ascii_lowercase (daemon_strip_port host))"
    by (auto simp: domain_matches_iff)
  then obtain c where "c \<in> set (daemon_strip_port host)" "ascii_lower c = CHR ''/''"
    by (auto simp: to_ascii_lowercase_def)
  moreover from this have "c = CHR ''/''" by (simp add: lower_slash)
  moreover have "set (daemon_strip_port host) \<subseteq> set host"
    by (auto simp: daemon_strip_port_def rsplit_once_Some split: option.splits if_splits)
  ultimately show False using assms(1) by blast
qed

theorem daemon_ignores_ranges_witness:
  "\<not> daemon_no_proxy_matches ''10.1.2.3'' [''10.0.0.0/8''] \<and> no_proxy_matches ''10.1.2.3'' [''10.0.0.0/8'']"
proof
  show "\<not> daemon_no_proxy_matches ''10.1.2.3'' [''10.0.0.0/8'']"
    by (rule daemon_ignores_ranges) simp_all
  have "drop_bit 24 (0x0A010203 :: u32) = drop_bit 24 (0x0A000000 :: u32)"
    by (simp add: drop_bit_eq_div word_div_def)
  then show "no_proxy_matches ''10.1.2.3'' [''10.0.0.0/8'']"
    by (simp add: no_proxy_matches_def strip_port_def strip_prefix_def rsplit_once_def is_ascii_digit_def strip_dot_def
        to_ascii_lowercase_def ascii_lower_def parse_ip_simps cidr_matches_def parse_u32_def digit_val_def)
qed

end
