(* ===== verification/HttpClient.thy ===== *)
theory HttpClient
  imports NoProxy
begin

text \<open>
  Outgoing HTTP clients: \<open>crates/vigild/src/tls/proxy.rs\<close> and \<open>load_pem_chain\<close> of
  \<open>tls/cert.rs\<close>. Files, environment variables, URL and certificate parsing and reqwest's own
  builder are the fields of \<open>host_env\<close>.
\<close>

record host_env =
  he_read_file :: "string \<Rightarrow> string + string"
  he_from_pem :: "string \<Rightarrow> string + string"
  he_parse_url :: "string \<Rightarrow> string + string"
  he_getenv :: "string \<Rightarrow> string option"

subsection \<open>Certificate chains\<close>

text \<open>\<open>str::lines\<close>: split at line feeds, without a last empty line and without trailing returns.\<close>

definition strip_return :: "string \<Rightarrow> string" where
  "strip_return l = (if l \<noteq> [] \<and> last l = CHR 0x0D then butlast l else l)"

definition str_lines :: "string \<Rightarrow> string list" where
  "str_lines s =
     (let ls = split_on (CHR 0x0A) s;
          ls' = (if last ls = [] then butlast ls else ls)
      in map (\<lambda>(i, l). if i + 1 < length ls then strip_return l else l) (enumerate 0 ls'))"

definition pem_end :: string where
  "pem_end = ''-----END CERTIFICATE-----''"

fun pem_loop :: "host_env \<Rightarrow> string \<Rightarrow> string list \<Rightarrow> string list \<Rightarrow> string + string list" where
  "pem_loop env block certs [] = Inr certs"
| "pem_loop env block certs (line # ls) =
     (let block' = block @ line @ [CHR 0x0A] in
      if trim line = pem_end
      then (case he_from_pem env block' of
              Inl e \<Rightarrow> Inl (''invalid PEM block: '' @ e)
            | Inr cert \<Rightarrow> pem_loop env [] (certs @ [cert]) ls)
      else pem_loop env block' certs ls)"

definition load_pem_chain :: "host_env \<Rightarrow> string \<Rightarrow> string + string list" where
  "load_pem_chain env path =
     (case he_read_file env path of
        Inl e \<Rightarrow> Inl e
      | Inr pem \<Rightarrow>
          (case pem_loop env [] [] (str_lines pem) of
             Inl e \<Rightarrow> Inl e
           | Inr certs \<Rightarrow> if certs = [] then Inl (''no certificates found in '' @ path) else Inr certs))"

subsection \<open>Building a client\<close>

record http_client_config =
  hcc_insecure :: bool
  hcc_ca :: "string option"
  hcc_proxy :: "string option"
  hcc_proxy_ca :: "string option"
  hcc_no_proxy :: "string option"

text \<open>The proxy of a client is the URL it was given and the hosts that bypass it.\<close>

record built_client =
  bc_accept_invalid :: bool
  bc_roots :: "string list"
  bc_proxy :: "(string \<times> string list) option"

definition plain_client :: built_client where
  "plain_client = \<lparr> bc_accept_invalid = False, bc_roots = [], bc_proxy = None \<rparr>"

definition proxy_vars :: "string list" where
  "proxy_vars = [''HTTPS_PROXY'', ''https_proxy'', ''ALL_PROXY'', ''all_proxy'', ''HTTP_PROXY'', ''http_proxy'']"

fun first_nonempty :: "(string \<Rightarrow> string option) \<Rightarrow> string list \<Rightarrow> string option" where
  "first_nonempty getenv [] = None"
| "first_nonempty getenv (var # vars) =
     (case getenv var of
        Some v \<Rightarrow> if v \<noteq> [] then Some v else first_nonempty getenv vars
      | None \<Rightarrow> first_nonempty getenv vars)"

definition effective_proxy :: "host_env \<Rightarrow> http_client_config \<Rightarrow> string option" where
  "effective_proxy env cfg =
     (case hcc_proxy cfg of Some p \<Rightarrow> Some p | None \<Rightarrow> first_nonempty (he_getenv env) proxy_vars)"

definition load_roots :: "host_env \<Rightarrow> string option \<Rightarrow> string + string list" where
  "load_roots env path = (case path of None \<Rightarrow> Inr [] | Some p \<Rightarrow> load_pem_chain env p)"

text \<open>\<open>builds\<close> is reqwest's \<open>ClientBuilder::build\<close>, which may fail.\<close>

definition build_http_client :: "host_env \<Rightarrow> (built_client \<Rightarrow> string option) \<Rightarrow> http_client_config \<Rightarrow> string + built_client" where
  "build_http_client env builds cfg =
     (case load_roots env (hcc_ca cfg) of Inl e \<Rightarrow> Inl e | Inr roots \<Rightarrow>
     (case load_roots env (hcc_proxy_ca cfg) of Inl e \<Rightarrow> Inl e | Inr proxy_roots \<Rightarrow>
       let finish = (\<lambda>proxy.
             let c = \<lparr> bc_accept_invalid = hcc_insecure cfg, bc_roots = roots @ proxy_roots, bc_proxy = proxy \<rparr>
             in case builds c of None \<Rightarrow> Inr c | Some e \<Rightarrow> Inl e)
       in case effective_proxy env cfg of
            None \<Rightarrow> finish None
          | Some proxy_url \<Rightarrow>
              (case he_parse_url env proxy_url of
                 Inl e \<Rightarrow> Inl e
               | Inr uri \<Rightarrow> finish (Some (uri, parse_no_proxy (hcc_no_proxy cfg))))))"

text \<open>The closure given to \<open>Proxy::custom\<close>: the proxy for a request to \<open>host\<close>.\<close>

definition proxy_for :: "built_client \<Rightarrow> string \<Rightarrow> string option" where
  "proxy_for client host =
     (case bc_proxy client of
        None \<Rightarrow> None
      | Some (uri, entries) \<Rightarrow> if daemon_no_proxy_matches host entries then None else Some uri)"

subsection \<open>Properties\<close>

definition pem_text :: "string list \<Rightarrow> string" where
  "pem_text ls = concat (map (\<lambda>l. l @ [CHR 0x0A]) ls)"

lemma pem_loop_skip: "\<forall>l \<in> set ls. trim l \<noteq> pem_end \<Longrightarrow>
    pem_loop env block certs (ls @ rest) = pem_loop env (block @ pem_text ls) certs rest"
  by (induction ls arbitrary: block) (auto simp: pem_text_def Let_def)

lemma pem_loop_block: "\<forall>l \<in> set ls. trim l \<noteq> pem_end \<Longrightarrow> trim e = pem_end \<Longrightarrow>
    pem_loop env [] certs (ls @ e # rest) =
    (case he_from_pem env (pem_text (ls @ [e])) of
       Inl err \<Rightarrow> Inl (''invalid PEM block: '' @ err)
     | Inr cert \<Rightarrow> pem_loop env [] (certs @ [cert]) rest)"
  by (subst pem_loop_skip) (auto simp: pem_text_def Let_def)

text \<open>
  A chain file with any number of certificates, each a run of lines up to its END line, gives
  the certificates of all its blocks, in order; lines after the last END line are ignored.
\<close>

theorem pem_chain_blocks:
  assumes "\<forall>(ls, e, cert) \<in> set blocks. (\<forall>l \<in> set ls. trim l \<noteq> pem_end) \<and> trim e = pem_end \<and>
      he_from_pem env (pem_text (ls @ [e])) = Inr cert"
    and "\<forall>l \<in> set rest. trim l \<noteq> pem_end"
  shows "pem_loop env [] certs (concat (map (\<lambda>(ls, e, _). ls @ [e]) blocks) @ rest) =
    Inr (certs @ map (\<lambda>(_, _, cert). cert) blocks)"
  using assms(1)
proof (induction blocks arbitrary: certs)
  case Nil
  show ?case using pem_loop_skip [OF assms(2), of env "[]" certs "[]"] by simp
next
  case (Cons b blocks)
  obtain ls e cert where b: "b = (ls, e, cert)" by (cases b)
  with Cons.prems have "\<forall>l \<in> set ls. trim l \<noteq> pem_end" "trim e = pem_end"
      "he_from_pem env (pem_text (ls @ [e])) = Inr cert" by auto
  then show ?case
    using Cons by (simp add: b pem_loop_block)
qed

theorem pem_chain_blocks_witness:
  "pem_loop \<lparr>he_read_file = Inl, he_from_pem = (\<lambda>b. Inr (takeWhile (\<lambda>c. c \<noteq> CHR 0x0A) b)), he_parse_url = Inr,
      he_getenv = (\<lambda>_. None)\<rparr> [] [] [''A'', pem_end, ''B'', pem_end, ''junk''] = Inr [''A'', ''B'']"
proof -
  have e: "trim pem_end = pem_end" by (simp add: pem_end_def trim_def is_whitespace_def)
  have n: "trim ''A'' \<noteq> pem_end" "trim ''B'' \<noteq> pem_end" "trim ''junk'' \<noteq> pem_end"
    by (simp_all add: pem_end_def trim_def is_whitespace_def)
  show ?thesis
    using pem_chain_blocks [of "[([''A''], pem_end, ''A''), ([''B''], pem_end, ''B'')]"
        "\<lparr>he_read_file = Inl, he_from_pem = (\<lambda>b. Inr (takeWhile (\<lambda>c. c \<noteq> CHR 0x0A) b)), he_parse_url = Inr,
          he_getenv = (\<lambda>_. None)\<rparr>" "[''junk'']" "[]"]
    by (simp add: e n pem_text_def)
qed

lemma first_nonempty_Some: "first_nonempty getenv vars = Some v \<longleftrightarrow>
    (\<exists>i < length vars. getenv (vars ! i) = Some v \<and> v \<noteq> [] \<and> (\<forall>j < i. getenv (vars ! j) \<in> {None, Some []}))"
proof (induction vars)
  case (Cons x xs)
  consider "getenv x = None" | "getenv x = Some []" | w where "getenv x = Some w" "w \<noteq> []"
    by (cases "getenv x") auto
  then show ?case
    by cases (use Cons in \<open>simp_all add: Ex_less_Suc2 All_less_Suc2 del: all_simps\<close>, auto)
qed simp

text \<open>
  The proxy of a client: a configured proxy wins; otherwise the first non-empty variable of
  HTTPS_PROXY, ALL_PROXY and HTTP_PROXY (upper case before lower case each) is used; and a request
  goes through it exactly when its host is not in the configured bypass list.
\<close>

theorem proxy_choice:
  assumes "build_http_client env builds cfg = Inr c"
  shows "proxy_for c host = Some uri \<longleftrightarrow>
    (\<exists>url. he_parse_url env url = Inr uri \<and>
       (hcc_proxy cfg = Some url \<or> hcc_proxy cfg = None \<and>
         (\<exists>i < length proxy_vars. he_getenv env (proxy_vars ! i) = Some url \<and> url \<noteq> [] \<and>
            (\<forall>j < i. he_getenv env (proxy_vars ! j) \<in> {None, Some []})))) \<and>
    \<not> daemon_no_proxy_matches host (parse_no_proxy (hcc_no_proxy cfg))"
proof -
  have chosen: "effective_proxy env cfg = Some url \<longleftrightarrow>
      hcc_proxy cfg = Some url \<or> hcc_proxy cfg = None \<and>
         (\<exists>i < length proxy_vars. he_getenv env (proxy_vars ! i) = Some url \<and> url \<noteq> [] \<and>
            (\<forall>j < i. he_getenv env (proxy_vars ! j) \<in> {None, Some []}))" for url
    unfolding effective_proxy_def first_nonempty_Some [symmetric] by (cases "hcc_proxy cfg") auto
  have "bc_proxy c = (case effective_proxy env cfg of None \<Rightarrow> None
      | Some url \<Rightarrow> (case he_parse_url env url of Inr u \<Rightarrow> Some (u, parse_no_proxy (hcc_no_proxy cfg)) | Inl _ \<Rightarrow> None))"
    using assms by (auto simp: build_http_client_def Let_def split: sum.splits option.splits)
  then have "proxy_for c host = Some uri \<longleftrightarrow>
      (\<exists>url. effective_proxy env cfg = Some url \<and> he_parse_url env url = Inr uri) \<and>
      \<not> daemon_no_proxy_matches host (parse_no_proxy (hcc_no_proxy cfg))"
    by (auto simp: proxy_for_def split: option.splits sum.splits)
  then show ?thesis unfolding chosen by blast
qed

theorem proxy_choice_witness:
  "\<exists>c. build_http_client \<lparr>he_read_file = Inl, he_from_pem = Inr, he_parse_url = Inr,
        he_getenv = (\<lambda>v. if v = ''HTTP_PROXY'' then Some ''http://p'' else None)\<rparr> (\<lambda>_. None)
      \<lparr>hcc_insecure = False, hcc_ca = None, hcc_proxy = Some ''http://q'', hcc_proxy_ca = None, hcc_no_proxy = None\<rparr> = Inr c \<and>
    proxy_for c ''example.org'' = Some ''http://q''"
proof -
  let ?env = "\<lparr>he_read_file = Inl, he_from_pem = Inr, he_parse_url = Inr,
        he_getenv = (\<lambda>v. if v = ''HTTP_PROXY'' then Some ''http://p'' else None)\<rparr> :: host_env"
  let ?cfg = "\<lparr>hcc_insecure = False, hcc_ca = None, hcc_proxy = Some ''http://q'', hcc_proxy_ca = None, hcc_no_proxy = None\<rparr>"
  have b: "build_http_client ?env (\<lambda>_. None) ?cfg = Inr \<lparr>bc_accept_invalid = False, bc_roots = [], bc_proxy = Some (''http://q'', [])\<rparr>"
    by (simp add: build_http_client_def load_roots_def effective_proxy_def parse_no_proxy_def)
  show ?thesis
    using proxy_choice [OF b, of "''example.org''" "''http://q''"] b
    by (auto simp: parse_no_proxy_def daemon_no_proxy_matches_def)
qed

end
