(* ===== verification/Alert.thy ===== *)
theory Alert
  imports ApiTypes HttpClient Duration
begin

text \<open>
  Alerts: \<open>crates/vigild/src/alert\<close>. The sender deduplicates check events and queues delivery
  jobs; a worker per queue discards expired jobs and starts a delivery for the others; a delivery
  posts the payload with retries. The environment, the clock, UUIDs, the template engine and the
  endpoint's responses are parameters.
\<close>

subsection \<open>Payloads\<close>

text \<open>A JSON value; an object is the list of its members (their order means nothing in JSON).\<close>

datatype json = JNull | JBool bool | JNum int | JStr string | JArr "json list" | JObj "(string \<times> json) list"

record alert_env =
  ax_getenv :: "string \<Rightarrow> string option"
  ax_now :: string
  ax_now_nanos :: string
  ax_uuid :: string
  ax_version :: string
  ax_render :: "string \<Rightarrow> string \<Rightarrow> string \<Rightarrow> string \<Rightarrow> (string, string) indexmap \<Rightarrow> (string, string) indexmap \<Rightarrow> string option"
  ax_parse_json :: "string \<Rightarrow> json option"

definition resolve_value :: "alert_env \<Rightarrow> string \<Rightarrow> string" where
  "resolve_value env val =
     (case strip_prefix ''env:'' val of
        Some var \<Rightarrow> (case ax_getenv env var of Some v \<Rightarrow> v | None \<Rightarrow> [])
      | None \<Rightarrow> val)"

definition resolved_map :: "alert_env \<Rightarrow> (string, string) indexmap \<Rightarrow> (string, string) indexmap" where
  "resolved_map env m = map (\<lambda>(k, v). (k, resolve_value env v)) m"

definition string_object :: "(string, string) indexmap \<Rightarrow> json" where
  "string_object m = JObj (map (\<lambda>(k, v). (k, JStr v)) m)"

definition resolved_json :: "alert_env \<Rightarrow> (string, string) indexmap \<Rightarrow> json" where
  "resolved_json env m = string_object (resolved_map env m)"

definition status_str :: "check_status \<Rightarrow> string" where
  "status_str st = (if st = Down then ''down'' else ''up'')"

definition format_webhook :: "alert_env \<Rightarrow> string \<Rightarrow> check_status \<Rightarrow> alert_config \<Rightarrow> json" where
  "format_webhook env check st cfg = JObj
     [(''check'', JStr check), (''status'', JStr (status_str st)), (''timestamp'', JStr (ax_now env)),
      (''labels'', resolved_json env (al_labels cfg)), (''info'', resolved_json env (al_send_info_fields cfg))]"

definition format_webhook_template :: "alert_env \<Rightarrow> string \<Rightarrow> check_status \<Rightarrow> alert_config \<Rightarrow> string \<Rightarrow> json" where
  "format_webhook_template env check st cfg template =
     (case ax_render env template check (status_str st) (ax_now env)
             (resolved_map env (al_labels cfg)) (resolved_map env (al_send_info_fields cfg)) of
        None \<Rightarrow> format_webhook env check st cfg
      | Some rendered \<Rightarrow>
          (case ax_parse_json env rendered of Some v \<Rightarrow> v | None \<Rightarrow> format_webhook env check st cfg))"

definition zero_time :: string where
  "zero_time = ''0001-01-01T00:00:00Z''"

definition format_alertmanager :: "alert_env \<Rightarrow> string \<Rightarrow> check_status \<Rightarrow> alert_config \<Rightarrow> json" where
  "format_alertmanager env check st cfg =
     (let (starts_at, ends_at) = (if st = Down then (ax_now env, zero_time) else (zero_time, ax_now env));
          labels = im_insert ''check'' check (im_insert ''alertname'' check (resolved_map env (al_labels cfg)))
      in JArr [JObj
        [(''labels'', string_object labels), (''annotations'', resolved_json env (al_send_info_fields cfg)),
         (''startsAt'', JStr starts_at), (''endsAt'', JStr ends_at)]])"

definition format_cloudevents :: "alert_env \<Rightarrow> string \<Rightarrow> check_status \<Rightarrow> alert_config \<Rightarrow> json" where
  "format_cloudevents env check st cfg = JObj
     [(''specversion'', JStr ''1.0''), (''id'', JStr (ax_uuid env)), (''source'', JStr ''vigild''),
      (''type'', JStr (if st = Down then ''io.vigil.check.failed'' else ''io.vigil.check.recovered'')),
      (''time'', JStr (ax_now env)), (''datacontenttype'', JStr ''application/json''),
      (''data'', JObj
        [(''check'', JStr check), (''status'', JStr (status_str st)),
         (''labels'', resolved_json env (al_labels cfg)), (''info'', resolved_json env (al_send_info_fields cfg))])]"

definition otlp_attribute :: "string \<Rightarrow> string \<Rightarrow> json" where
  "otlp_attribute k v = JObj [(''key'', JStr k), (''value'', JObj [(''stringValue'', JStr v)])]"

definition format_otlp_logs :: "alert_env \<Rightarrow> string \<Rightarrow> check_status \<Rightarrow> alert_config \<Rightarrow> json" where
  "format_otlp_logs env check st cfg =
     (let (severity_number, severity_text) = (if st = Down then (17, ''ERROR'') else (9, ''INFO''));
          body = (if st = Down then ''check '' @ check @ '' failed'' else ''check '' @ check @ '' recovered'');
          attributes =
            [otlp_attribute ''check.name'' check, otlp_attribute ''check.status'' (status_str st)] @
            map (\<lambda>(k, v). otlp_attribute k v) (resolved_map env (al_labels cfg)) @
            map (\<lambda>(k, v). otlp_attribute k v) (resolved_map env (al_send_info_fields cfg))
      in JObj [(''resourceLogs'', JArr [JObj
           [(''resource'', JObj [(''attributes'', JArr [])]),
            (''scopeLogs'', JArr [JObj
              [(''scope'', JObj [(''name'', JStr ''vigild''), (''version'', JStr (ax_version env))]),
               (''logRecords'', JArr [JObj
                 [(''timeUnixNano'', JStr (ax_now_nanos env)), (''severityNumber'', JNum severity_number),
                  (''severityText'', JStr severity_text), (''body'', JObj [(''stringValue'', JStr body)]),
                  (''attributes'', JArr attributes)]])]])]])])"

definition format_payload :: "alert_env \<Rightarrow> string \<Rightarrow> check_status \<Rightarrow> alert_config \<Rightarrow> json" where
  "format_payload env check st cfg =
     (case al_format cfg of
        Webhook \<Rightarrow>
          (case al_body_template cfg of
             Some tmpl \<Rightarrow> format_webhook_template env check st cfg tmpl
           | None \<Rightarrow> format_webhook env check st cfg)
      | Alertmanager \<Rightarrow> format_alertmanager env check st cfg
      | CloudEvents \<Rightarrow> format_cloudevents env check st cfg
      | OtlpLogs \<Rightarrow> format_otlp_logs env check st cfg)"

subsection \<open>Delivery\<close>

definition build_client :: "host_env \<Rightarrow> (built_client \<Rightarrow> string option) \<Rightarrow> alert_config \<Rightarrow> built_client" where
  "build_client env builds cfg =
     (case build_http_client env builds
             \<lparr> hcc_insecure = al_tls_insecure cfg, hcc_ca = al_tls_ca cfg, hcc_proxy = al_proxy cfg,
               hcc_proxy_ca = al_proxy_ca cfg, hcc_no_proxy = al_no_proxy cfg \<rparr> of
        Inr c \<Rightarrow> c
      | Inl _ \<Rightarrow> plain_client)"

record delivery_job =
  dj_client :: built_client
  dj_config :: alert_config
  dj_body :: json
  dj_queued_at :: nat

record post_request =
  pr_client :: built_client
  pr_url :: string
  pr_headers :: "(string \<times> string) list"
  pr_body :: json

datatype delivery_effect = Post post_request | Sleep nat

definition is_server_error :: "nat \<Rightarrow> bool" where
  "is_server_error code \<longleftrightarrow> 500 \<le> code \<and> code < 600"

definition is_success_status :: "nat \<Rightarrow> bool" where
  "is_success_status code \<longleftrightarrow> 200 \<le> code \<and> code < 300"

definition max_attempts :: "alert_config \<Rightarrow> nat" where
  "max_attempts cfg = max (case al_retry_attempts cfg of Some n \<Rightarrow> unat n | None \<Rightarrow> 3) 1"

definition backoff_table :: "alert_config \<Rightarrow> nat list" where
  "backoff_table cfg =
     (if al_retry_backoff cfg = [] then [1000, 2000]
      else map (\<lambda>s. case parse_duration s of Inr d \<Rightarrow> d | Inl _ \<Rightarrow> 1000) (al_retry_backoff cfg))"

definition retry_delay :: "alert_config \<Rightarrow> nat \<Rightarrow> nat" where
  "retry_delay cfg attempt =
     (if attempt < length (backoff_table cfg) then backoff_table cfg ! attempt else last (backoff_table cfg))"

definition content_type :: "alert_config \<Rightarrow> string" where
  "content_type cfg =
     (if al_format cfg = CloudEvents then ''application/cloudevents+json'' else ''application/json'')"

text \<open>
  The attempt loop; \<open>respond\<close> gives the endpoint's answer to each attempt (a connection error or
  a status code), \<open>left\<close> counts the attempts that remain.
\<close>

fun attempt_loop :: "(nat \<Rightarrow> string + nat) \<Rightarrow> (nat \<Rightarrow> nat) \<Rightarrow> post_request \<Rightarrow> nat \<Rightarrow> nat \<Rightarrow> delivery_effect list" where
  "attempt_loop respond delay req attempt 0 = []"
| "attempt_loop respond delay req attempt (Suc left) =
     Post req #
     (case respond attempt of
        Inr code \<Rightarrow>
          if is_success_status code then []
          else if is_server_error code \<and> 0 < left
          then Sleep (delay attempt) # attempt_loop respond delay req (attempt + 1) left
          else []
      | Inl _ \<Rightarrow>
          if 0 < left then Sleep (delay attempt) # attempt_loop respond delay req (attempt + 1) left else [])"

definition http_send :: "alert_env \<Rightarrow> (nat \<Rightarrow> string + nat) \<Rightarrow> built_client \<Rightarrow> alert_config \<Rightarrow> json \<Rightarrow> delivery_effect list" where
  "http_send env respond client cfg body =
     (let url = resolve_value env (al_url cfg) in
      if url = [] then []
      else attempt_loop respond (retry_delay cfg)
             \<lparr> pr_client = client, pr_url = url,
               pr_headers = (''Content-Type'', content_type cfg) # al_headers cfg, pr_body = body \<rparr>
             0 (max_attempts cfg))"

subsection \<open>The sender\<close>

definition default_delivery_queue :: nat where "default_delivery_queue = 256"
definition default_delivery_age :: nat where "default_delivery_age = 60000"

record alert_entry =
  an_name :: string
  an_config :: alert_config
  an_client :: built_client

text \<open>
  \<open>sd_queue\<close> is the channel new jobs go to; \<open>sd_old\<close> are the channels of earlier queue depths,
  which their workers still drain. \<open>mpsc::channel(0)\<close> panics: then there is no sender.
\<close>

record alert_sender =
  sd_alerts :: "alert_entry list"
  sd_state :: "(string, check_status) indexmap"
  sd_queue :: "delivery_job list"
  sd_old :: "delivery_job list list"
  sd_max_age_secs :: nat
  sd_queue_depth :: nat

definition with_queue_limits :: "nat \<Rightarrow> nat \<Rightarrow> alert_sender option" where
  "with_queue_limits depth max_age =
     (if depth = 0 then None
      else Some \<lparr> sd_alerts = [], sd_state = [], sd_queue = [], sd_old = [],
                  sd_max_age_secs = max_age div 1000, sd_queue_depth = depth \<rparr>)"

definition update_queue_limits :: "nat \<Rightarrow> nat \<Rightarrow> alert_sender \<Rightarrow> alert_sender option" where
  "update_queue_limits depth max_age s =
     (let s1 = s\<lparr>sd_max_age_secs := max_age div 1000\<rparr> in
      if depth \<noteq> sd_queue_depth s1
      then if depth = 0 then None
           else Some (s1\<lparr>sd_old := sd_queue s1 # sd_old s1, sd_queue := [], sd_queue_depth := depth\<rparr>)
      else Some s1)"

definition update_alerts :: "(alert_config \<Rightarrow> built_client) \<Rightarrow> (string, alert_config) indexmap \<Rightarrow> alert_sender \<Rightarrow> alert_sender" where
  "update_alerts client_of alerts s =
     s\<lparr>sd_alerts := map (\<lambda>(nm, cfg). \<lparr> an_name = nm, an_config = cfg, an_client = client_of cfg \<rparr>) alerts\<rparr>"

definition alert_check_status_of :: "alert_sender \<Rightarrow> string \<Rightarrow> check_status option" where
  "alert_check_status_of s check = map_of (sd_state s) check"

definition try_send :: "delivery_job \<Rightarrow> alert_sender \<Rightarrow> alert_sender option" where
  "try_send job s =
     (if length (sd_queue s) < sd_queue_depth s then Some (s\<lparr>sd_queue := sd_queue s @ [job]\<rparr>) else None)"

fun fire_alerts :: "alert_env \<Rightarrow> nat \<Rightarrow> string \<Rightarrow> check_status \<Rightarrow> alert_entry list \<Rightarrow> alert_sender \<Rightarrow> string list \<Rightarrow> alert_sender \<times> string list" where
  "fire_alerts env now check st [] s fired = (s, fired)"
| "fire_alerts env now check st (entry # es) s fired =
     (if check \<notin> set (al_on_check (an_config entry)) then fire_alerts env now check st es s fired
      else
        case try_send \<lparr> dj_client = an_client entry, dj_config = an_config entry,
                        dj_body = format_payload env check st (an_config entry), dj_queued_at = now \<rparr> s of
          None \<Rightarrow> fire_alerts env now check st es s fired
        | Some s1 \<Rightarrow> fire_alerts env now check st es s1 (fired @ [an_name entry]))"

definition alert_handle_event :: "alert_env \<Rightarrow> nat \<Rightarrow> string \<Rightarrow> check_status \<Rightarrow> alert_sender \<Rightarrow> alert_sender \<times> string list" where
  "alert_handle_event env now check st s =
     (let prev = alert_check_status_of s check in
      if prev = Some st then (s, [])
      else let s1 = s\<lparr>sd_state := im_insert check st (sd_state s)\<rparr> in
           if st = Up \<and> prev = None then (s1, [])
           else fire_alerts env now check st (sd_alerts s1) s1 [])"

subsection \<open>The worker\<close>

text \<open>One job taken from a queue: discarded when too old, otherwise delivered.\<close>

definition worker_job :: "alert_env \<Rightarrow> (nat \<Rightarrow> string + nat) \<Rightarrow> nat \<Rightarrow> nat \<Rightarrow> delivery_job \<Rightarrow> delivery_effect list option" where
  "worker_job env respond now max_age_secs job =
     (if max_age_secs * 1000 < now - dj_queued_at job then None
      else Some (http_send env respond (dj_client job) (dj_config job) (dj_body job)))"

definition worker_step :: "alert_sender \<Rightarrow> (delivery_job \<times> alert_sender) option" where
  "worker_step s =
     (case sd_queue s of [] \<Rightarrow> None | job # jobs \<Rightarrow> Some (job, s\<lparr>sd_queue := jobs\<rparr>))"

fun drain_old :: "delivery_job list list \<Rightarrow> (delivery_job \<times> delivery_job list list) option" where
  "drain_old [] = None"
| "drain_old ([] # qs) = (case drain_old qs of None \<Rightarrow> None | Some (j, qs') \<Rightarrow> Some (j, [] # qs'))"
| "drain_old ((j # js) # qs) = Some (j, js # qs)"

end
