(* ===== verification/AlertProps.thy ===== *)
theory AlertProps
  imports Alert
begin

text \<open>
  What alerting promises: an alert is queued on each transition of a check and only then, the
  queue is bounded, a delivery makes at most the configured number of attempts, and a payload
  carries the check and its resolved labels.
\<close>

subsection \<open>Firing\<close>

definition notifiable :: "check_status option \<Rightarrow> check_status \<Rightarrow> bool" where
  "notifiable prev st \<longleftrightarrow> prev \<noteq> Some st \<and> \<not> (st = Up \<and> prev = None)"

definition subscribed :: "string \<Rightarrow> alert_sender \<Rightarrow> alert_entry list" where
  "subscribed check s = filter (\<lambda>e. check \<in> set (al_on_check (an_config e))) (sd_alerts s)"

definition job_for :: "alert_env \<Rightarrow> nat \<Rightarrow> string \<Rightarrow> check_status \<Rightarrow> alert_entry \<Rightarrow> delivery_job" where
  "job_for env now check st e =
     \<lparr> dj_client = an_client e, dj_config = an_config e, dj_body = format_payload env check st (an_config e),
       dj_queued_at = now \<rparr>"

definition free_slots :: "alert_sender \<Rightarrow> nat" where
  "free_slots s = sd_queue_depth s - length (sd_queue s)"

lemma fire_alerts_eq:
  "fire_alerts env now check st es s fired =
    (let sub = take (free_slots s) (filter (\<lambda>e. check \<in> set (al_on_check (an_config e))) es) in
     (s\<lparr>sd_queue := sd_queue s @ map (job_for env now check st) sub\<rparr>, fired @ map an_name sub))"
proof (induction es arbitrary: s fired)
  case (Cons e es)
  show ?case
  proof (cases "check \<in> set (al_on_check (an_config e)) \<and> length (sd_queue s) < sd_queue_depth s")
    case True
    let ?s1 = "s\<lparr>sd_queue := sd_queue s @ [job_for env now check st e]\<rparr>"
    have "free_slots s = Suc (free_slots ?s1)" using True by (simp add: free_slots_def Suc_diff_Suc)
    then show ?thesis
      using True Cons [of ?s1] by (simp add: try_send_def job_for_def Let_def)
  next
    case False
    then show ?thesis using Cons [of s] by (auto simp: try_send_def Let_def free_slots_def)
  qed
qed simp

text \<open>
  C21. A check event fires exactly when it is a transition that matters: the status differs from
  the last known one, and it is not a first \<open>up\<close>. Then one job per subscribed alert is queued, in
  the order of the configuration, as far as the queue has room, and the names returned are those
  of the queued alerts; in every case the status is recorded, and for no other check.
\<close>

theorem alert_fires_on_transition:
  shows "let prev = alert_check_status_of s check; (t, fired) = alert_handle_event env now check st s;
      sub = (if notifiable prev st then take (free_slots s) (subscribed check s) else [])
    in fired = map an_name sub \<and> sd_queue t = sd_queue s @ map (job_for env now check st) sub \<and>
       (\<forall>c. alert_check_status_of t c = (if c = check then Some st else alert_check_status_of s c))"
  by (auto simp: alert_handle_event_def Let_def notifiable_def fire_alerts_eq subscribed_def free_slots_def
      alert_check_status_of_def im.get_put)

subsection \<open>The sequence of alerts of a check\<close>

fun notified :: "check_status option \<Rightarrow> check_status list \<Rightarrow> check_status list" where
  "notified prev [] = []"
| "notified prev (st # sts) = (if notifiable prev st then [st] else []) @ notified (Some st) sts"

definition run_check_events :: "alert_env \<Rightarrow> nat \<Rightarrow> string \<Rightarrow> check_status list \<Rightarrow> alert_sender \<Rightarrow> alert_sender" where
  "run_check_events env now check sts s = fold (\<lambda>st s. fst (alert_handle_event env now check st s)) sts s"

definition flip_status :: "check_status \<Rightarrow> check_status" where
  "flip_status st = (if st = Up then Down else Up)"

lemma notified_alternates:
  "i < length (notified (Some st) sts) \<Longrightarrow> notified (Some st) sts ! i = (if even i then flip_status st else st)"
proof (induction sts arbitrary: st i)
  case (Cons x sts)
  show ?case
  proof (cases "x = st")
    case True
    with Cons show ?thesis by (simp add: notifiable_def)
  next
    case False
    then have x: "x = flip_status st" "flip_status x = st" by (cases x; cases st; simp add: flip_status_def)+
    with Cons False show ?thesis
      by (cases i) (auto simp: notifiable_def)
  qed
qed simp

lemma notified_fresh_alternates:
  "i < length (notified None sts) \<Longrightarrow> notified None sts ! i = (if even i then Down else Up)"
proof (cases sts)
  case (Cons x xs)
  assume "i < length (notified None sts)"
  with Cons show ?thesis
    using notified_alternates [of i x xs] notified_alternates [of "i - 1" x xs]
    by (cases x; cases i) (auto simp: notifiable_def flip_status_def)
qed simp

lemma handle_event_fields:
  "subscribed c (fst (alert_handle_event env now check st s)) = subscribed c s"
  "sd_queue_depth (fst (alert_handle_event env now check st s)) = sd_queue_depth s"
  "alert_check_status_of (fst (alert_handle_event env now check st s)) check = Some st"
  "sd_queue (fst (alert_handle_event env now check st s)) = sd_queue s @
    (if notifiable (alert_check_status_of s check) st
     then map (job_for env now check st) (take (free_slots s) (subscribed check s)) else [])"
  by (auto simp: alert_handle_event_def Let_def notifiable_def fire_alerts_eq subscribed_def free_slots_def
      alert_check_status_of_def)

lemma run_check_events_queue:
  "length (sd_queue s) + length sts * length (subscribed check s) \<le> sd_queue_depth s \<Longrightarrow>
   sd_queue (run_check_events env now check sts s) = sd_queue s @
     concat (map (\<lambda>st. map (job_for env now check st) (subscribed check s)) (notified (alert_check_status_of s check) sts))"
proof (induction sts arbitrary: s)
  case (Cons st sts)
  let ?t = "fst (alert_handle_event env now check st s)"
  have "length (subscribed check s) \<le> free_slots s"
    using Cons.prems by (simp add: free_slots_def)
  then have q: "sd_queue ?t = sd_queue s @
      (if notifiable (alert_check_status_of s check) st then map (job_for env now check st) (subscribed check s) else [])"
    by (simp add: handle_event_fields)
  have "length (sd_queue ?t) + length sts * length (subscribed check ?t) \<le> sd_queue_depth ?t"
    using Cons.prems q by (simp add: handle_event_fields)
  from Cons.IH [OF this] q show ?case
    by (simp add: run_check_events_def handle_event_fields)
qed (simp add: run_check_events_def)

text \<open>
  Over any sequence of events of a check, as long as the queue has room, each subscribed
  alert is sent for a status sequence that starts with \<open>down\<close> and strictly alternates: no alert is
  repeated, and there is no recovery without a failure before it.
\<close>

theorem alerts_alternate:
  assumes "alert_check_status_of s check = None"
    and "length (sd_queue s) + length sts * length (subscribed check s) \<le> sd_queue_depth s"
  shows "\<exists>ns. sd_queue (run_check_events env now check sts s) = sd_queue s @
      concat (map (\<lambda>st. map (job_for env now check st) (subscribed check s)) ns) \<and>
    (\<forall>i < length ns. ns ! i = (if even i then Down else Up))"
  using run_check_events_queue [OF assms(2)] assms(1) notified_fresh_alternates
  by (intro exI [of _ "notified None sts"]) auto

definition demo_alert :: alert_config where
  "demo_alert = alert_config_default\<lparr>al_url := ''http://x'', al_on_check := [''c'']\<rparr>"

definition demo_sender :: alert_sender where
  "demo_sender = \<lparr> sd_alerts = [\<lparr>an_name = ''a'', an_config = demo_alert, an_client = plain_client\<rparr>],
     sd_state = [], sd_queue = [], sd_old = [], sd_max_age_secs = 60, sd_queue_depth = 256 \<rparr>"

theorem alerts_alternate_witness:
  "\<forall>env. \<exists>ns. sd_queue (run_check_events env 0 ''c'' [Up, Down, Down, Up] demo_sender) =
      concat (map (\<lambda>st. [job_for env 0 ''c'' st (hd (sd_alerts demo_sender))]) ns)"
proof
  fix env
  show "\<exists>ns. sd_queue (run_check_events env 0 ''c'' [Up, Down, Down, Up] demo_sender) =
      concat (map (\<lambda>st. [job_for env 0 ''c'' st (hd (sd_alerts demo_sender))]) ns)"
    using alerts_alternate [of demo_sender "''c''" "[Up, Down, Down, Up]" env 0]
    by (auto simp: demo_sender_def demo_alert_def alert_config_default_def alert_check_status_of_def subscribed_def)
qed

subsection \<open>The queue\<close>

text \<open>What can happen to the sender: events, a worker taking a job, and a replan.\<close>

inductive sender_step :: "alert_sender \<Rightarrow> alert_sender \<Rightarrow> bool" where
  step_event: "sender_step s (fst (alert_handle_event env now check st s))"
| step_worker: "worker_step s = Some (job, t) \<Longrightarrow> sender_step s t"
| step_alerts: "sender_step s (update_alerts client_of alerts s)"
| step_limits: "update_queue_limits depth age s = Some t \<Longrightarrow> sender_step s t"
| step_old: "drain_old (sd_old s) = Some (job, old) \<Longrightarrow> sender_step s (s\<lparr>sd_old := old\<rparr>)"

inductive_cases sender_stepE: "sender_step s t"

definition sender_init :: "nat \<Rightarrow> nat \<Rightarrow> alert_sender \<Rightarrow> bool" where
  "sender_init depth age s \<longleftrightarrow> with_queue_limits depth age = Some s"

definition sender_inv :: "alert_sender \<Rightarrow> bool" where
  "sender_inv s \<longleftrightarrow> length (sd_queue s) \<le> sd_queue_depth s \<and> 0 < sd_queue_depth s \<and> im_wf (sd_state s)"

lemma sender_inv_event: "sender_inv s \<Longrightarrow> sender_inv (fst (alert_handle_event env now check st s))"
  by (auto simp: sender_inv_def alert_handle_event_def Let_def fire_alerts_eq free_slots_def)

interpretation sender: invariant_system "sender_init depth age" sender_step sender_inv for depth age
proof unfold_locales
  fix s assume "sender_init depth age s"
  then show "sender_inv s" by (auto simp: sender_init_def with_queue_limits_def sender_inv_def split: if_splits)
next
  fix s t assume "sender_inv s" "sender_step s t"
  from this(2,1) show "sender_inv t"
    by (cases rule: sender_step.cases)
      (auto simp: sender_inv_event, auto simp: sender_inv_def worker_step_def update_alerts_def
        update_queue_limits_def Let_def split: list.splits if_splits)
qed

text \<open>
  The queue never holds more jobs than its depth, whatever events, workers and replans do,
  and the table of statuses has one entry per check.
\<close>

theorem alert_queue_bounded:
  assumes "reach (sender_init depth age) sender_step s"
  shows "length (sd_queue s) \<le> sd_queue_depth s \<and> distinct (im_keys (sd_state s))"
  using sender.reach_inv [OF assms] by (simp add: sender_inv_def im_wf_def)

theorem alert_queue_bounded_witness:
  "\<forall>env. length (sd_queue (fst (alert_handle_event env 0 ''c'' Down demo_sender))) \<le> 256"
proof
  fix env
  let ?s0 = "\<lparr>sd_alerts = [], sd_state = [], sd_queue = [], sd_old = [], sd_max_age_secs = 60, sd_queue_depth = 256\<rparr> :: alert_sender"
  have "reach (sender_init 256 60000) sender_step ?s0"
    by (rule reach_init) (simp add: sender_init_def with_queue_limits_def)
  then have "reach (sender_init 256 60000) sender_step (update_alerts (\<lambda>_. plain_client) [(''a'', demo_alert)] ?s0)"
    by (rule reach_step) (rule step_alerts)
  then have "reach (sender_init 256 60000) sender_step demo_sender"
    by (simp add: update_alerts_def demo_sender_def)
  then have "reach (sender_init 256 60000) sender_step (fst (alert_handle_event env 0 ''c'' Down demo_sender))"
    by (rule reach_step) (rule step_event)
  moreover have "sd_queue_depth (fst (alert_handle_event env 0 ''c'' Down demo_sender)) = 256"
    by (simp only: handle_event_fields) (simp add: demo_sender_def)
  ultimately show "length (sd_queue (fst (alert_handle_event env 0 ''c'' Down demo_sender))) \<le> 256"
    using alert_queue_bounded by metis
qed

subsection \<open>Delivery\<close>

definition retryable :: "string + nat \<Rightarrow> bool" where
  "retryable r = (case r of Inl _ \<Rightarrow> True | Inr code \<Rightarrow> is_server_error code)"

text \<open>How often a delivery is retried: until an answer is final or the attempts are used up.\<close>

definition retries :: "(nat \<Rightarrow> string + nat) \<Rightarrow> nat \<Rightarrow> nat" where
  "retries respond attempts = length (takeWhile (\<lambda>i. retryable (respond i)) [0..<attempts - 1])"

lemma attempt_loop_eq:
  "attempt_loop respond delay req a (Suc left) =
    concat (map (\<lambda>i. [Post req, Sleep (delay i)]) (takeWhile (\<lambda>i. retryable (respond i)) [a..<a + left])) @ [Post req]"
proof (induction left arbitrary: a)
  case 0
  show ?case by (simp split: sum.splits)
next
  case (Suc left)
  have up: "[a..<a + Suc left] = a # [Suc a..<Suc a + left]" by (simp add: upt_conv_Cons)
  show ?case
    unfolding up using Suc [of "Suc a"]
    by (auto simp: retryable_def is_success_status_def is_server_error_def split: sum.splits)
qed

text \<open>
  C35. A delivery with a non-empty URL posts the same request again, after the configured delay
  for that attempt, as long as the endpoint cannot be reached or answers 5xx, and stops at the
  first other answer or when the configured attempts (at least one) are used up. The configured
  headers are sent as they are written: only the URL's \<open>env:\<close> reference is resolved.
\<close>

theorem delivery_retries:
  assumes "resolve_value env (al_url cfg) \<noteq> []"
  shows "http_send env respond client cfg body =
    (let req = \<lparr> pr_client = client, pr_url = resolve_value env (al_url cfg),
                 pr_headers = (''Content-Type'', content_type cfg) # al_headers cfg, pr_body = body \<rparr>;
         k = retries respond (max_attempts cfg)
     in concat (map (\<lambda>i. [Post req, Sleep (retry_delay cfg i)]) [0..<k]) @ [Post req]) \<and>
    retries respond (max_attempts cfg) < max_attempts cfg"
proof -
  obtain left where left: "max_attempts cfg = Suc left"
    by (cases "max_attempts cfg") (auto simp: max_attempts_def)
  have le: "retries respond (Suc left) \<le> left"
    using length_takeWhile_le [of "\<lambda>i. retryable (respond i)" "[0..<left]"] by (simp add: retries_def)
  have "takeWhile (\<lambda>i. retryable (respond i)) [0..<left] = [0..<retries respond (Suc left)]"
    using le by (subst takeWhile_eq_take) (simp add: retries_def take_upt)
  with assms le show ?thesis
    by (simp add: http_send_def Let_def left attempt_loop_eq del: attempt_loop.simps)
qed

theorem delivery_retries_witness:
  "length (http_send \<lparr>ax_getenv = (\<lambda>_. None), ax_now = '''', ax_now_nanos = '''', ax_uuid = '''', ax_version = '''',
      ax_render = (\<lambda>_ _ _ _ _ _. None), ax_parse_json = (\<lambda>_. None)\<rparr> (\<lambda>i. if i < 1 then Inl ''refused'' else Inr 200)
      plain_client demo_alert JNull) = 3"
proof -
  let ?env = "\<lparr>ax_getenv = (\<lambda>_. None), ax_now = '''', ax_now_nanos = '''', ax_uuid = '''', ax_version = '''',
      ax_render = (\<lambda>_ _ _ _ _ _. None), ax_parse_json = (\<lambda>_. None)\<rparr> :: alert_env"
  let ?r = "\<lambda>i::nat. if i < 1 then Inl ''refused'' else Inr (200::nat)"
  have "resolve_value ?env (al_url demo_alert) \<noteq> []"
    by (simp add: resolve_value_def strip_prefix_def demo_alert_def alert_config_default_def)
  moreover have "max_attempts demo_alert = 3"
    by (simp add: max_attempts_def demo_alert_def alert_config_default_def)
  moreover have "retries ?r 3 = 1"
    by (simp add: retries_def retryable_def is_server_error_def upt_rec)
  ultimately show ?thesis
    using delivery_retries [of ?env demo_alert ?r plain_client JNull] by (simp add: Let_def)
qed

subsection \<open>Payloads\<close>

lemma map_of_resolved: "map_of (resolved_map env m) k = map_option (resolve_value env) (map_of m k)"
  by (induction m) (auto simp: resolved_map_def)

text \<open>
  The Alertmanager payload identifies the alert by the check: \<open>alertname\<close> and \<open>check\<close> are the
  check's name whatever labels are configured, every other label is the configured one with its
  \<open>env:\<close> reference resolved, and a failure is open-ended while a recovery has an end.
\<close>

theorem alertmanager_payload:
  assumes "al_format cfg = Alertmanager"
  shows "\<exists>labels. format_payload env check st cfg =
      JArr [JObj [(''labels'', JObj (map (\<lambda>(k, v). (k, JStr v)) labels)),
        (''annotations'', resolved_json env (al_send_info_fields cfg)),
        (''startsAt'', JStr (if st = Down then ax_now env else zero_time)),
        (''endsAt'', JStr (if st = Down then zero_time else ax_now env))]] \<and>
    (\<forall>k. map_of labels k = (if k \<in> {''alertname'', ''check''} then Some check
       else map_option (resolve_value env) (map_of (al_labels cfg) k)))"
  using assms
  by (intro exI [of _ "im_insert ''check'' check (im_insert ''alertname'' check (resolved_map env (al_labels cfg)))"])
    (auto simp: format_payload_def format_alertmanager_def string_object_def im.get_put map_of_resolved)

theorem alertmanager_payload_witness:
  "\<exists>labels rest. format_payload env ''c'' Down (demo_alert\<lparr>al_format := Alertmanager, al_labels := [(''check'', ''x'')]\<rparr>) =
    JArr [JObj ((''labels'', JObj (map (\<lambda>(k, v). (k, JStr v)) labels)) # rest)] \<and> map_of labels ''check'' = Some ''c''"
  using alertmanager_payload [of "demo_alert\<lparr>al_format := Alertmanager, al_labels := [(''check'', ''x'')]\<rparr>" env "''c''" Down]
  by auto

end
