(* ===== verification/Logs.thy ===== *)
theory Logs
  imports ApiTypes
begin

text \<open>
  Service logs: \<open>crates/vigild/src/logs\<close> and the log handlers of \<open>api/handlers/logs.rs\<close>. The store
  keeps a ring buffer per service and a broadcast channel. A buffer is shared by reference
  (\<open>Arc\<close>): \<open>ls_heap\<close> holds the buffers and \<open>ls_buffers\<close> maps a service to its buffer's index, so
  that interleaved pushes are modelled with the aliasing they have. JSON serialisation of an entry
  is the parameter \<open>to_json\<close>.
\<close>

subsection \<open>The ring buffer\<close>

record buffer =
  bf_entries :: "log_entry list"
  bf_capacity :: nat

definition buffer_new :: "nat \<Rightarrow> buffer" where
  "buffer_new capacity = \<lparr> bf_entries = [], bf_capacity = capacity \<rparr>"

definition buffer_push :: "log_entry \<Rightarrow> buffer \<Rightarrow> buffer" where
  "buffer_push e b =
     (let kept = (if bf_capacity b \<le> length (bf_entries b) then drop 1 (bf_entries b) else bf_entries b)
      in b\<lparr>bf_entries := kept @ [e]\<rparr>)"

subsection \<open>The store\<close>

record log_store =
  ls_heap :: "buffer list"
  ls_buffers :: "(string, nat) indexmap"
  ls_sent :: "log_entry list"
  ls_capacity :: nat

definition log_store_new :: "nat \<Rightarrow> log_store" where
  "log_store_new capacity = \<lparr> ls_heap = [], ls_buffers = [], ls_sent = [], ls_capacity = capacity \<rparr>"

text \<open>
  The two critical sections of \<open>buffer_for\<close>: a lookup under the read lock, and, when it found
  nothing, an insertion under the write lock.
\<close>

definition lookup_buffer :: "string \<Rightarrow> log_store \<Rightarrow> nat option" where
  "lookup_buffer service s = map_of (ls_buffers s) service"

definition insert_buffer :: "string \<Rightarrow> log_store \<Rightarrow> nat \<times> log_store" where
  "insert_buffer service s =
     (let b = length (ls_heap s) in
      (b, s\<lparr>ls_heap := ls_heap s @ [buffer_new (ls_capacity s)], ls_buffers := im_insert service b (ls_buffers s)\<rparr>))"

definition buffer_for :: "string \<Rightarrow> log_store \<Rightarrow> nat \<times> log_store" where
  "buffer_for service s = (case lookup_buffer service s of Some b \<Rightarrow> (b, s) | None \<Rightarrow> insert_buffer service s)"

definition push_to :: "nat \<Rightarrow> log_entry \<Rightarrow> log_store \<Rightarrow> log_store" where
  "push_to b e s = s\<lparr>ls_heap := (ls_heap s)[b := buffer_push e (ls_heap s ! b)]\<rparr>"

definition broadcast_entry :: "log_entry \<Rightarrow> log_store \<Rightarrow> log_store" where
  "broadcast_entry e s = s\<lparr>ls_sent := ls_sent s @ [e]\<rparr>"

text \<open>\<open>LogStore::push\<close>, run without another task in between.\<close>

definition push_entry :: "log_entry \<Rightarrow> log_store \<Rightarrow> log_store" where
  "push_entry e s =
     (case buffer_for (le_service e) s of (b, s1) \<Rightarrow> broadcast_entry e (push_to b e s1))"

definition snapshot_of :: "string \<Rightarrow> log_store \<Rightarrow> log_entry list" where
  "snapshot_of service s = (case lookup_buffer service s of None \<Rightarrow> [] | Some b \<Rightarrow> bf_entries (ls_heap s ! b))"

text \<open>\<open>order\<close> is the order in which the hash map is iterated.\<close>

definition tail_entries :: "string list \<Rightarrow> string list \<Rightarrow> nat \<Rightarrow> log_store \<Rightarrow> log_entry list" where
  "tail_entries order services n s =
     (let wanted = filter (\<lambda>name. services = [] \<or> name \<in> set services) order;
          all = sort_key le_timestamp (concat (map (\<lambda>name. snapshot_of name s) wanted))
      in if n < length all then drop (length all - n) all else all)"

subsection \<open>Interleaved pushes\<close>

text \<open>A task inside \<open>push\<close>, at each of its suspension points.\<close>

datatype push_task =
    PushStart log_entry
  | PushMissing log_entry
  | PushHas log_entry nat
  | PushSend log_entry
  | PushDone

fun push_task_step :: "push_task \<Rightarrow> log_store \<Rightarrow> push_task \<times> log_store" where
  "push_task_step (PushStart e) s =
     (case lookup_buffer (le_service e) s of Some b \<Rightarrow> (PushHas e b, s) | None \<Rightarrow> (PushMissing e, s))"
| "push_task_step (PushMissing e) s =
     (case insert_buffer (le_service e) s of (b, s1) \<Rightarrow> (PushHas e b, s1))"
| "push_task_step (PushHas e b) s = (PushSend e, push_to b e s)"
| "push_task_step (PushSend e) s = (PushDone, broadcast_entry e s)"
| "push_task_step PushDone s = (PushDone, s)"

text \<open>\<open>interleave sched\<close> runs the tasks in the order of the schedule.\<close>

fun interleave :: "nat list \<Rightarrow> push_task list \<Rightarrow> log_store \<Rightarrow> push_task list \<times> log_store" where
  "interleave [] ts s = (ts, s)"
| "interleave (i # sched) ts s =
     (case push_task_step (ts ! i) s of (t, s1) \<Rightarrow> interleave sched (ts[i := t]) s1)"

subsection \<open>Reading a service's output\<close>

text \<open>
  One result of \<open>next_line\<close>: a line with the time it was read, the end of the stream, or an error
  (a read error, or bytes that are not UTF-8).
\<close>

datatype line_result = Line datetime string | EndOfStream | LineError

datatype reader_effect = Mirror log_stream string | Store log_entry

fun read_lines :: "string \<Rightarrow> log_stream \<Rightarrow> bool \<Rightarrow> line_result list \<Rightarrow> reader_effect list" where
  "read_lines service stream forward (Line now line # rs) =
     (if forward then [Mirror stream (''['' @ service @ ''] '' @ line)] else []) @
     [Store \<lparr> le_timestamp = now, le_service = service, le_stream = stream, le_message = line \<rparr>] @
     read_lines service stream forward rs"
| "read_lines service stream forward _ = []"

subsection \<open>Following and pushing\<close>

datatype recv_result = Received log_entry | Lagged nat | Closed

datatype push_end = BroadcastClosed | ConnectionLost | StillWaiting

text \<open>
  \<open>push_loop\<close> over what the receiver returns; \<open>writes\<close> tells which write succeeds. The result
  are the lines written and how the loop ended.
\<close>

fun push_loop :: "(log_entry \<Rightarrow> string) \<Rightarrow> string \<Rightarrow> recv_result list \<Rightarrow> bool list \<Rightarrow> string list \<times> push_end" where
  "push_loop to_json service [] writes = ([], StillWaiting)"
| "push_loop to_json service (Received e # rs) writes =
     (if le_service e = service
      then (case writes of
              [] \<Rightarrow> ([], StillWaiting)
            | w # ws \<Rightarrow>
                if w then (case push_loop to_json service rs ws of (ls, r) \<Rightarrow> ((to_json e @ [CHR 0x0A]) # ls, r))
                else ([], ConnectionLost))
      else push_loop to_json service rs writes)"
| "push_loop to_json service (Lagged n # rs) writes = push_loop to_json service rs writes"
| "push_loop to_json service (Closed # rs) writes = ([], BroadcastClosed)"

text \<open>
  The reconnect loop of both push tasks: an attempt fails to connect, or connects and later ends;
  the result are the delays slept after each attempt.
\<close>

datatype push_attempt = ConnectFailed | Connected push_end

definition push_initial_backoff :: nat where "push_initial_backoff = 500"
definition push_max_backoff :: nat where "push_max_backoff = 30000"

definition push_next_backoff :: "nat \<Rightarrow> nat" where
  "push_next_backoff backoff = min (backoff * 2) push_max_backoff"

fun push_task_loop :: "nat \<Rightarrow> push_attempt list \<Rightarrow> nat list" where
  "push_task_loop backoff [] = []"
| "push_task_loop backoff (ConnectFailed # as) = backoff # push_task_loop (push_next_backoff backoff) as"
| "push_task_loop backoff (Connected r # as) =
     (if r = BroadcastClosed then []
      else push_initial_backoff # push_task_loop (push_next_backoff push_initial_backoff) as)"

definition spawn_push :: "push_attempt list \<Rightarrow> nat list" where
  "spawn_push as = push_task_loop push_initial_backoff as"

subsection \<open>The follow endpoint\<close>

datatype log_format = FmtJson | FmtText | FmtNdjson

datatype follow_item = Data string | Comment string

definition follow_line :: "(log_entry \<Rightarrow> string) \<Rightarrow> log_format \<Rightarrow> log_entry \<Rightarrow> string" where
  "follow_line to_json fmt e =
     (case fmt of
        FmtText \<Rightarrow> ''['' @ le_service e @ ''] '' @ le_message e
      | FmtJson \<Rightarrow> to_json e
      | FmtNdjson \<Rightarrow> to_json e @ [CHR 0x0A])"

definition follow_item_of :: "(log_entry \<Rightarrow> string) \<Rightarrow> log_format \<Rightarrow> string list \<Rightarrow> recv_result \<Rightarrow> follow_item option" where
  "follow_item_of to_json fmt services r =
     (case r of
        Received e \<Rightarrow>
          if services = [] \<or> le_service e \<in> set services then Some (Data (follow_line to_json fmt e)) else None
      | Lagged n \<Rightarrow>
          if fmt = FmtNdjson then None else Some (Comment (''lagged: skipped '' @ show_nat n @ '' entries''))
      | Closed \<Rightarrow> None)"

definition follow_logs :: "(log_entry \<Rightarrow> string) \<Rightarrow> log_format option \<Rightarrow> string list \<Rightarrow> recv_result list \<Rightarrow> follow_item list" where
  "follow_logs to_json fmt services rs =
     List.map_filter (follow_item_of to_json (case fmt of Some f \<Rightarrow> f | None \<Rightarrow> FmtJson) services)
       (takeWhile (\<lambda>r. r \<noteq> Closed) rs)"

end
