(* ===== verification/LogsProps.thy ===== *)
theory LogsProps
  imports Logs "HOL-Library.Multiset"
begin

text \<open>
  What the log store promises: each service's buffer holds its last entries, the tail is the most
  recent part of the requested buffers, the push tasks deliver in order and back off.
\<close>

subsection \<open>The ring keeps the last entries\<close>

definition lastn :: "nat \<Rightarrow> 'a list \<Rightarrow> 'a list" where
  "lastn n xs = drop (length xs - n) xs"

lemma lastn_snoc: "0 < n \<Longrightarrow> lastn n (xs @ [x]) = (if n \<le> length xs then drop 1 (lastn n xs) @ [x] else xs @ [x])"
  by (auto simp: lastn_def Suc_diff_le)

lemma buffer_push_lastn: "bf_entries b = lastn (max 1 (bf_capacity b)) xs \<Longrightarrow>
    bf_entries (buffer_push e b) = lastn (max 1 (bf_capacity b)) (xs @ [e])"
proof -
  assume h: "bf_entries b = lastn (max 1 (bf_capacity b)) xs"
  let ?n = "max 1 (bf_capacity b)"
  have len: "length (lastn ?n xs) = min (length xs) ?n" by (simp add: lastn_def)
  show ?thesis
  proof (cases "?n \<le> length xs")
    case True
    then have "bf_capacity b \<le> length (bf_entries b)" using len h by simp
    with True show ?thesis by (simp add: buffer_push_def lastn_snoc h)
  next
    case False
    then have "length xs - ?n = 0" by linarith
    then have all: "lastn ?n xs = xs" by (simp only: lastn_def drop_0)
    show ?thesis
    proof (cases "xs = []")
      case True
      then show ?thesis using h by (simp add: buffer_push_def lastn_def)
    next
      case ne: False
      then have "\<not> bf_capacity b \<le> length xs" using False by (cases xs; cases "bf_capacity b") auto
      moreover have "lastn ?n (xs @ [e]) = xs @ [e]" using False by (subst lastn_snoc) auto
      moreover have "bf_entries b = xs" using h all by (simp only:)
      ultimately show ?thesis by (simp only: buffer_push_def Let_def if_False) simp
    qed
  qed
qed

definition of_service :: "string \<Rightarrow> log_entry list \<Rightarrow> log_entry list" where
  "of_service name es = filter (\<lambda>e. le_service e = name) es"

definition store_inv :: "log_entry list \<Rightarrow> log_store \<Rightarrow> bool" where
  "store_inv es s \<longleftrightarrow>
     (\<forall>name b. lookup_buffer name s = Some b \<longrightarrow> b < length (ls_heap s)) \<and>
     (\<forall>name name' b. lookup_buffer name s = Some b \<longrightarrow> lookup_buffer name' s = Some b \<longrightarrow> name' = name) \<and>
     (\<forall>b < length (ls_heap s). bf_capacity (ls_heap s ! b) = ls_capacity s) \<and>
     (\<forall>name. snapshot_of name s = lastn (max 1 (ls_capacity s)) (of_service name es)) \<and>
     ls_sent s = es"

lemma lastn_eq_Nil: "lastn (max 1 n) ys = [] \<longleftrightarrow> ys = []"
  by (cases ys) (auto simp: lastn_def)

lemma insert_buffer_inv:
  assumes "store_inv es s" and "lookup_buffer name s = None" and "insert_buffer name s = (b, s1)"
  shows "store_inv es s1 \<and> lookup_buffer name s1 = Some b \<and> ls_capacity s1 = ls_capacity s"
proof -
  have b: "b = length (ls_heap s)" and heap: "ls_heap s1 = ls_heap s @ [buffer_new (ls_capacity s)]"
      and cap: "ls_capacity s1 = ls_capacity s" and sent: "ls_sent s1 = ls_sent s"
      and lk: "\<And>nm. lookup_buffer nm s1 = (if nm = name then Some b else lookup_buffer nm s)"
    using assms(3) by (auto simp: insert_buffer_def lookup_buffer_def Let_def)
  have old: "c < length (ls_heap s)" if "lookup_buffer nm s = Some c" for nm c
    using assms(1) that by (simp add: store_inv_def)
  have "snapshot_of name s = lastn (max 1 (ls_capacity s)) (of_service name es)"
    using assms(1) by (simp add: store_inv_def)
  then have "lastn (max 1 (ls_capacity s)) (of_service name es) = []"
    using assms(2) by (simp add: snapshot_of_def)
  moreover have "snapshot_of nm s1 = (if nm = name then [] else snapshot_of nm s)" for nm
    using old by (auto simp: snapshot_of_def lk heap b buffer_new_def nth_append split: option.splits)
  ultimately have snap: "snapshot_of nm s1 = lastn (max 1 (ls_capacity s)) (of_service nm es)" for nm
    using assms(1) by (simp add: store_inv_def)
  have caps: "bf_capacity (ls_heap s1 ! c) = ls_capacity s" if "c < length (ls_heap s1)" for c
    using assms(1) that by (cases "c = length (ls_heap s)") (auto simp: heap buffer_new_def nth_append store_inv_def)
  have fresh: "c < length (ls_heap s1)" if "lookup_buffer nm s1 = Some c" for nm c
    using old [of nm c] that by (cases "nm = name") (simp_all add: lk heap b)
  have inj: "nm' = nm" if "lookup_buffer nm s1 = Some c" "lookup_buffer nm' s1 = Some c" for nm nm' c
  proof -
    have "lookup_buffer nm s = Some c \<Longrightarrow> lookup_buffer nm' s = Some c \<Longrightarrow> nm' = nm"
      using assms(1) unfolding store_inv_def by blast
    then show ?thesis
      using old [of nm c] old [of nm' c] that by (cases "nm = name"; cases "nm' = name") (simp_all add: lk b)
  qed
  have "ls_sent s1 = es" using assms(1) by (simp add: store_inv_def sent)
  then have "store_inv es s1"
    unfolding store_inv_def cap using caps fresh inj snap by blast
  then show ?thesis by (simp add: lk cap)
qed

lemma push_to_inv:
  assumes "store_inv es s" and "lookup_buffer (le_service e) s = Some b"
  shows "store_inv (es @ [e]) (broadcast_entry e (push_to b e s))"
proof -
  let ?n = "max 1 (ls_capacity s)" and ?t = "broadcast_entry e (push_to b e s)"
  have b: "b < length (ls_heap s)" "bf_capacity (ls_heap s ! b) = ls_capacity s"
    using assms by (auto simp: store_inv_def)
  have snap: "snapshot_of name s = lastn ?n (of_service name es)" for name
    using assms by (simp add: store_inv_def)
  have "bf_entries (ls_heap s ! b) = lastn (max 1 (bf_capacity (ls_heap s ! b))) (of_service (le_service e) es)"
    using snap [of "le_service e"] assms(2) b by (simp add: snapshot_of_def)
  from buffer_push_lastn [OF this, of e] b
  have new: "bf_entries (buffer_push e (ls_heap s ! b)) = lastn ?n (of_service (le_service e) (es @ [e]))"
    by (simp add: of_service_def)
  have cap: "bf_capacity (buffer_push e (ls_heap s ! b)) = ls_capacity s"
    using b by (simp add: buffer_push_def)
  have lk: "lookup_buffer name ?t = lookup_buffer name s" for name
    by (simp add: push_to_def broadcast_entry_def lookup_buffer_def)
  have heap: "ls_heap ?t = (ls_heap s)[b := buffer_push e (ls_heap s ! b)]"
    by (simp add: push_to_def broadcast_entry_def)
  have snap': "snapshot_of name ?t = lastn ?n (of_service name (es @ [e]))" for name
  proof (cases "name = le_service e")
    case True
    then show ?thesis using assms(2) b new by (simp add: snapshot_of_def lk heap)
  next
    case False
    then have "lookup_buffer name s \<noteq> Some b" using assms unfolding store_inv_def by blast
    then have "snapshot_of name ?t = snapshot_of name s"
      by (auto simp: snapshot_of_def lk heap nth_list_update split: option.splits)
    with False snap show ?thesis by (simp add: of_service_def)
  qed
  have "ls_capacity ?t = ls_capacity s" "ls_sent ?t = ls_sent s @ [e]"
    by (simp_all add: push_to_def broadcast_entry_def)
  then show ?thesis
    using assms(1) snap' b cap by (auto simp: store_inv_def lk heap nth_list_update)
qed

lemma push_entry_inv:
  assumes "store_inv es s"
  shows "store_inv (es @ [e]) (push_entry e s) \<and> ls_capacity (push_entry e s) = ls_capacity s"
proof -
  obtain b s1 where bf: "buffer_for (le_service e) s = (b, s1)" by force
  then have "store_inv es s1 \<and> lookup_buffer (le_service e) s1 = Some b \<and> ls_capacity s1 = ls_capacity s"
    using assms insert_buffer_inv [OF assms] by (auto simp: buffer_for_def split: option.splits)
  with push_to_inv [of es s1 e b] bf show ?thesis
    by (simp add: push_entry_def) (simp add: push_to_def broadcast_entry_def)
qed

interpretation push_delay: doubling_delay push_initial_backoff push_max_backoff push_next_backoff
  by unfold_locales (simp add: push_next_backoff_def)

text \<open>
  C36. Pushed one after the other, any sequence of entries leaves in each service's buffer exactly
  its last \<open>capacity\<close> entries (at least one), in order, and everything was broadcast in order.
\<close>

theorem store_keeps_last:
  shows "let s = fold push_entry es (log_store_new capacity) in
    snapshot_of name s = lastn (max 1 capacity) (filter (\<lambda>e. le_service e = name) es) \<and> ls_sent s = es"
proof -
  have "store_inv es (fold push_entry es (log_store_new capacity)) \<and>
      ls_capacity (fold push_entry es (log_store_new capacity)) = capacity"
  proof (induction es rule: rev_induct)
    case Nil
    show ?case by (simp add: store_inv_def log_store_new_def lookup_buffer_def snapshot_of_def of_service_def lastn_def)
  next
    case (snoc e es)
    then show ?case using push_entry_inv [of es _ e] by simp
  qed
  then show ?thesis by (simp add: store_inv_def of_service_def)
qed

text \<open>
  Two tasks that push the first lines of a new service at the same time (its stdout and its
  stderr readers do) can lose a line: each finds no buffer and creates one, the second replaces
  the first, and the entry pushed to the replaced buffer is in no tail.
\<close>

theorem concurrent_push_loses_entry:
  assumes "le_service e1 = le_service e2"
  shows "let (ts, s) = interleave [0, 1, 0, 0, 0, 1, 1, 1] [PushStart e1, PushStart e2] (log_store_new capacity) in
    ts = [PushDone, PushDone] \<and> ls_sent s = [e1, e2] \<and> snapshot_of (le_service e1) s = [e2]"
  using assms
  by (simp add: log_store_new_def lookup_buffer_def insert_buffer_def push_to_def buffer_push_def buffer_new_def
      broadcast_entry_def snapshot_of_def Let_def)

definition demo_log_entry :: "datetime \<Rightarrow> string \<Rightarrow> log_entry" where
  "demo_log_entry t msg = \<lparr> le_timestamp = t, le_service = ''web'', le_stream = Stdout, le_message = msg \<rparr>"

theorem concurrent_push_loses_entry_witness:
  "snapshot_of ''web'' (snd (interleave [0, 1, 0, 0, 0, 1, 1, 1]
     [PushStart (demo_log_entry 1 ''out''), PushStart (demo_log_entry 2 ''err'')] (log_store_new 10))) = [demo_log_entry 2 ''err'']"
proof -
  have "le_service (demo_log_entry 1 ''out'') = le_service (demo_log_entry 2 ''err'')" by (simp add: demo_log_entry_def)
  from concurrent_push_loses_entry [OF this, of 10] show ?thesis
    by (simp add: split_beta Let_def del: interleave.simps) (simp add: demo_log_entry_def)
qed

text \<open>
  A tail is the most recent part of what is buffered: whatever the order the hash map is
  iterated in, it is sorted by time, it has \<open>n\<close> entries or all there are, and no entry it leaves
  out is newer than one it shows.
\<close>

theorem tail_is_most_recent:
  "let buffered = concat (map (\<lambda>name. snapshot_of name s) (filter (\<lambda>name. services = [] \<or> name \<in> set services) order));
       shown = tail_entries order services n s
   in length shown = min n (length buffered) \<and>
     (\<exists>older. mset (older @ shown) = mset buffered \<and> sorted (map le_timestamp (older @ shown)))"
proof -
  let ?buffered = "concat (map (\<lambda>name. snapshot_of name s) (filter (\<lambda>name. services = [] \<or> name \<in> set services) order))"
  let ?all = "sort_key le_timestamp ?buffered" and ?k = "length ?buffered - n"
  have t: "tail_entries order services n s = drop ?k ?all"
    by (auto simp: tail_entries_def Let_def)
  have all: "take ?k ?all @ drop ?k ?all = ?all" by simp
  have "mset (take ?k ?all @ drop ?k ?all) = mset ?buffered \<and> sorted (map le_timestamp (take ?k ?all @ drop ?k ?all))"
    unfolding all by simp
  moreover have "length (drop ?k ?all) = min n (length ?buffered)" by simp
  ultimately show ?thesis
    unfolding t Let_def by blast
qed

text \<open>
  While the peer refuses connections the push task waits 500 ms, then twice as long each
  time, never more than 30 s.
\<close>

theorem push_backoff:
  shows "spawn_push (replicate n ConnectFailed) = map (\<lambda>i. min (500 * 2 ^ i) 30000) [0..<n]"
proof -
  have "push_task_loop b (replicate n ConnectFailed) = map (\<lambda>i. (push_next_backoff ^^ i) b) [0..<n]" for b
  proof (induction n arbitrary: b)
    case (Suc n)
    have "[0..<Suc n] = 0 # map Suc [0..<n]" by (simp add: upt_conv_Cons map_Suc_upt)
    with Suc show ?case by (simp add: funpow_swap1 comp_def)
  qed simp
  then show ?thesis
    using push_delay.iterate_eq by (simp add: spawn_push_def push_initial_backoff_def push_max_backoff_def)
qed

text \<open>
  A read error ends the capture of a stream: no line after it is ever stored, even though
  the service still runs.
\<close>

theorem reader_stops_at_error:
  shows "read_lines service stream forward (rs @ LineError # later) = read_lines service stream forward rs"
  by (induction service stream forward rs rule: read_lines.induct) auto

end
