(* ===== verification/Reaper.thy ===== *)
theory Reaper
  imports ProcUtil
begin

unbundle bit_operations_syntax

text \<open>
  The zombie reaper: \<open>crates/vigild/src/reaper.rs\<close>. As PID 1 the daemon collects every exited
  child with \<open>waitpid(-1)\<close>, possibly before the task that waits for it; the statuses it collected
  are kept in a table that \<open>wait_child\<close> consults. A raw wait status is an \<open>i32\<close>, times are in
  milliseconds.
\<close>

subsection \<open>Raw wait statuses\<close>

type_synonym i32 = "32 word"

datatype wait_status = WExited u32 i32 | WSignaled u32 nat bool | WOther | WStillAlive

datatype wait_error = Echild | OtherErrno nat

definition encode_status :: "wait_status \<Rightarrow> (u32 \<times> i32) option" where
  "encode_status st =
     (case st of
        WExited pid code \<Rightarrow> Some (pid, push_bit 8 (code AND 0xff))
      | WSignaled pid sig core \<Rightarrow> Some (pid, of_nat sig OR (if core then 0x80 else 0))
      | _ \<Rightarrow> None)"

text \<open>\<open>ExitStatus::from_raw\<close>, as the wait macros read it.\<close>

definition exit_status_of_raw :: "i32 \<Rightarrow> exit_status" where
  "exit_status_of_raw raw =
     (if raw AND 0x7f = 0 then ExitedWith (unat (drop_bit 8 raw AND 0xff)) else KilledBy (unat (raw AND 0x7f)))"

subsection \<open>The table\<close>

type_synonym reaped = "(u32, nat \<times> i32) indexmap"

definition reaped_keep :: nat where "reaped_keep = 60000"
definition reaped_lookup :: nat where "reaped_lookup = 200"

definition record_reaped :: "nat \<Rightarrow> wait_status \<Rightarrow> reaped \<Rightarrow> reaped" where
  "record_reaped now st m =
     (case encode_status st of
        None \<Rightarrow> m
      | Some (pid, raw) \<Rightarrow> im_insert pid (now, raw) (filter (\<lambda>(_, at, _). now - at < reaped_keep) m))"

definition take_reaped :: "u32 \<Rightarrow> reaped \<Rightarrow> exit_status option \<times> reaped" where
  "take_reaped pid m =
     (case map_of m pid of
        None \<Rightarrow> (None, m)
      | Some (_, raw) \<Rightarrow> (Some (exit_status_of_raw raw), im_remove pid m))"

text \<open>\<open>reap_children\<close> over the results of successive \<open>waitpid\<close> calls.\<close>

fun reap_children :: "nat \<Rightarrow> (wait_error + wait_status) list \<Rightarrow> reaped \<Rightarrow> reaped" where
  "reap_children now [] m = m"
| "reap_children now (Inl e # rs) m = m"
| "reap_children now (Inr st # rs) m =
     (if st = WStillAlive then m else reap_children now rs (record_reaped now st m))"

subsection \<open>Waiting for a child\<close>

text \<open>
  The polling loop of \<open>wait_child\<close>: \<open>tables t\<close> is the table as the poll at time \<open>t\<close> finds it
  (the reaper runs in between), and a sleep of 5 ms started at \<open>t\<close> ends at \<open>wake t\<close>, never early.
\<close>

function poll_reaped :: "(nat \<Rightarrow> reaped) \<Rightarrow> (nat \<Rightarrow> nat) \<Rightarrow> u32 \<Rightarrow> nat \<Rightarrow> nat \<Rightarrow> exit_status option" where
  "poll_reaped tables wake pid deadline now =
     (case fst (take_reaped pid (tables now)) of
        Some status \<Rightarrow> Some status
      | None \<Rightarrow> if deadline \<le> now then None else poll_reaped tables wake pid deadline (max (now + 5) (wake now)))"
  by pat_completeness auto
termination
  by (relation "measure (\<lambda>(_, _, _, deadline, now). deadline - now)") auto

declare poll_reaped.simps [simp del]

text \<open>\<open>pid\<close> is \<open>Child::id\<close>, \<open>None\<close> for a child already waited for; \<open>waited\<close> is tokio's answer.\<close>

definition wait_child :: "(nat \<Rightarrow> reaped) \<Rightarrow> (nat \<Rightarrow> nat) \<Rightarrow> u32 option \<Rightarrow> nat \<Rightarrow> wait_error + exit_status \<Rightarrow> wait_error + exit_status" where
  "wait_child tables wake pid now waited =
     (case waited of
        Inl Echild \<Rightarrow>
          (case pid of
             None \<Rightarrow> Inl Echild
           | Some p \<Rightarrow>
               (case poll_reaped tables wake p (now + reaped_lookup) now of
                  Some status \<Rightarrow> Inr status
                | None \<Rightarrow> Inl Echild))
      | other \<Rightarrow> other)"

subsection \<open>Properties\<close>

lemma byte_mask: "(0xff :: i32) = mask 8" "(0x7f :: i32) = mask 7"
  by (simp_all add: mask_eq_exp_minus_1)

lemma exit_raw: "exit_status_of_raw (push_bit 8 (code AND 0xff)) = ExitedWith (unat (code AND 0xff))"
proof -
  have "push_bit 8 (code AND 0xff) AND 0x7f = (0 :: i32)"
    unfolding byte_mask by (rule bit_eqI) (auto simp: bit_simps)
  moreover have "drop_bit 8 (push_bit 8 (code AND 0xff)) AND 0xff = (code AND 0xff :: i32)"
    unfolding byte_mask by (rule bit_eqI) (auto simp: bit_simps)
  ultimately show ?thesis by (simp only: exit_status_of_raw_def if_True refl)
qed

lemma signal_raw:
  assumes "0 < sig" and "sig < 127"
  shows "exit_status_of_raw (of_nat sig OR (if core then 0x80 else 0)) = KilledBy sig"
proof -
  have "(of_nat sig :: i32) AND 0x7f = of_nat sig"
    unfolding byte_mask take_bit_eq_mask [symmetric] using assms by (simp add: take_bit_of_nat take_bit_nat_eq_self)
  then have low: "(of_nat sig OR (if core then 0x80 else 0)) AND 0x7f = (of_nat sig :: i32)"
    by (simp add: bit.conj_disj_distrib2)
  have val: "unat (of_nat sig :: i32) = sig" using assms by (simp add: unat_of_nat)
  then have "(of_nat sig :: i32) \<noteq> 0" using assms(1) by (metis unat_0 less_irrefl)
  with low val show ?thesis by (simp only: exit_status_of_raw_def if_False)
qed

definition collected :: "wait_status \<Rightarrow> exit_status option" where
  "collected st =
     (case st of WExited _ code \<Rightarrow> Some (ExitedWith (unat (code AND 0xff))) | WSignaled _ sig _ \<Rightarrow> Some (KilledBy sig) | _ \<Rightarrow> None)"

definition status_pid :: "wait_status \<Rightarrow> u32 option" where
  "status_pid st = (case st of WExited pid _ \<Rightarrow> Some pid | WSignaled pid _ _ \<Rightarrow> Some pid | _ \<Rightarrow> None)"

text \<open>Linux signal numbers a wait status can carry.\<close>

definition wait_status_ok :: "wait_status \<Rightarrow> bool" where
  "wait_status_ok st = (case st of WSignaled _ sig _ \<Rightarrow> 0 < sig \<and> sig < 127 | _ \<Rightarrow> True)"

lemma encode_status_collected:
  assumes "wait_status_ok st" and "status_pid st = Some pid"
  shows "\<exists>raw. encode_status st = Some (pid, raw) \<and> Some (exit_status_of_raw raw) = collected st"
  using assms exit_raw [of "case st of WExited _ code \<Rightarrow> code | _ \<Rightarrow> 0"]
  by (cases st) (auto simp: encode_status_def collected_def status_pid_def wait_status_ok_def signal_raw)

lemma map_of_filter_kept: "im_wf m \<Longrightarrow> map_of (filter (\<lambda>(_, at, _). now - at < reaped_keep) m) k =
    (case map_of m k of Some (at, raw) \<Rightarrow> if now - at < reaped_keep then Some (at, raw) else None | None \<Rightarrow> None)"
proof (induction m)
  case (Cons e m)
  obtain k' at raw where e: "e = (k', at, raw)" by (cases e)
  have "im_wf m" "k' \<notin> fst ` set m" using Cons.prems by (auto simp: im_wf_def e)
  then show ?case using Cons.IH by (auto simp: e map_of_eq_None_iff dest: map_of_SomeD split: option.splits)
qed simp

text \<open>
  What the reaper collected is what the waiter gets: recording the status of an exited or
  killed child and taking it gives its exit code (the low byte) or its signal, once; every other
  recorded status stays as long as it is younger than a minute.
\<close>

theorem reaper_round_trip:
  assumes "im_wf m" and "wait_status_ok st" and "status_pid st = Some pid"
  shows "let m1 = record_reaped now st m; (status, m2) = take_reaped pid m1 in
    status = collected st \<and> fst (take_reaped pid m2) = None \<and>
    (\<forall>k. k \<noteq> pid \<longrightarrow> map_of m2 k =
      (case map_of m k of Some (at, raw) \<Rightarrow> if now - at < reaped_keep then Some (at, raw) else None | None \<Rightarrow> None))"
proof -
  from encode_status_collected [OF assms(2,3)] obtain raw
    where "encode_status st = Some (pid, raw)" "Some (exit_status_of_raw raw) = collected st" by blast
  then show ?thesis
    using map_of_filter_kept [OF assms(1), of now]
    by (simp add: record_reaped_def take_reaped_def Let_def)
qed

theorem reaper_round_trip_witness:
  "fst (take_reaped 7 (record_reaped 0 (WExited 7 0x103) [])) = Some (ExitedWith 3)"
proof -
  have "(0x103 :: i32) AND 0xff = 3" by simp
  then show ?thesis
    using reaper_round_trip [of "[]" "WExited 7 0x103" 7 0]
    by (simp add: wait_status_ok_def status_pid_def collected_def Let_def split_beta)
qed

lemma poll_reaped_finds:
  assumes "\<And>t. r \<le> t \<Longrightarrow> fst (take_reaped pid (tables t)) = Some status"
    and "\<And>t. t < r \<Longrightarrow> fst (take_reaped pid (tables t)) \<in> {None, Some status}" and "r \<le> deadline"
  shows "poll_reaped tables wake pid deadline now = Some status"
  using assms
proof (induction tables wake pid deadline now rule: poll_reaped.induct)
  case (1 tables wake pid deadline now)
  show ?case
  proof (cases "fst (take_reaped pid (tables now))")
    case None
    then have "\<not> r \<le> now" using 1(2) [of now] by auto
    then have "\<not> deadline \<le> now" using 1(4) by simp
    with None show ?thesis
      using "1.IH" [OF None _ 1(2-4)] by (subst poll_reaped.simps) simp
  next
    case (Some s)
    then have "s = status" using 1(2,3) [of now] by (cases "r \<le> now") auto
    with Some show ?thesis by (subst poll_reaped.simps) simp
  qed
qed

text \<open>
  No exit status is lost to the race with the reaper: if the wait fails because the reaper
  collected the child, and the reaper has recorded the status at most 200 ms after the failed wait,
  then \<open>wait_child\<close> returns exactly that status, however the 5 ms sleeps are delayed.
\<close>

theorem wait_child_recovers:
  assumes "\<And>t. r \<le> t \<Longrightarrow> fst (take_reaped pid (tables t)) = Some status"
    and "\<And>t. t < r \<Longrightarrow> fst (take_reaped pid (tables t)) \<in> {None, Some status}"
    and "r \<le> now + 200"
  shows "wait_child tables wake (Some pid) now (Inl Echild) = Inr status"
  using poll_reaped_finds [OF assms(1,2), where deadline = "now + reaped_lookup"] assms(3)
  by (simp add: wait_child_def reaped_lookup_def)

theorem wait_child_recovers_witness:
  "wait_child (\<lambda>t. if t < 150 then [] else record_reaped 150 (WExited 7 0) []) (\<lambda>t. t + 9) (Some 7) 0 (Inl Echild) =
    Inr (ExitedWith 0)"
  by (rule wait_child_recovers [where r = 150])
    (simp_all add: record_reaped_def encode_status_def take_reaped_def exit_status_of_raw_def)

end
