(* ===== verification/Auth.thy ===== *)
theory Auth
  imports ApiTypes
begin

text \<open>
  Identities and access: \<open>crates/vigild/src/identity\<close> and \<open>api/auth\<close>. The store maps names to
  identities (its list is the iteration order of the hash map); a request carries what the
  transport knows of its peer. Password hashing, base64, UTF-8 and X.509 verification are the
  fields of \<open>auth_env\<close>.
\<close>

subsection \<open>The identity store\<close>

type_synonym identity_store = "(string, identity) indexmap"

definition identity_of_spec :: "string \<Rightarrow> identity_spec \<Rightarrow> identity" where
  "identity_of_spec name spec =
     \<lparr> id_name = name, id_access = is_access spec, id_local = is_local spec, id_basic = is_basic spec,
       id_tls = is_tls spec \<rparr>"

definition identity_list :: "string list \<Rightarrow> identity_store \<Rightarrow> identity list" where
  "identity_list names m = filter (\<lambda>i. names = [] \<or> id_name i \<in> set names) (map snd m)"

definition identity_is_empty :: "identity_store \<Rightarrow> bool" where
  "identity_is_empty m \<longleftrightarrow> m = []"

definition identity_add :: "string \<Rightarrow> identity_spec \<Rightarrow> identity_store \<Rightarrow> identity_store" where
  "identity_add name spec m = im_insert name (identity_of_spec name spec) m"

fun identity_remove :: "string list \<Rightarrow> identity_store \<Rightarrow> string list \<times> identity_store" where
  "identity_remove [] m = ([], m)"
| "identity_remove (name # names) m =
     (case map_of m name of
        None \<Rightarrow> identity_remove names m
      | Some _ \<Rightarrow> (case identity_remove names (im_remove name m) of (removed, m') \<Rightarrow> (name # removed, m')))"

text \<open>\<open>Iterator::max\<close> over the access levels.\<close>

fun max_access :: "identity_access list \<Rightarrow> identity_access option" where
  "max_access [] = None"
| "max_access (a # as) = (case max_access as of None \<Rightarrow> Some a | Some b \<Rightarrow> Some (max a b))"

definition local_access :: "u32 \<Rightarrow> identity_store \<Rightarrow> identity_access option" where
  "local_access uid m =
     max_access (List.map_filter (\<lambda>i.
       case id_local i of
         None \<Rightarrow> None
       | Some l \<Rightarrow> if li_user_id l = None \<or> li_user_id l = Some uid then Some (id_access i) else None)
       (map snd m))"

record auth_env =
  ae_sha512_check :: "string \<Rightarrow> string \<Rightarrow> bool"
  ae_pem_certs :: "string \<Rightarrow> string list option"
  ae_add_root :: "string list \<Rightarrow> string \<Rightarrow> string list option"
  ae_verifies :: "string list \<Rightarrow> string \<Rightarrow> bool option"
  ae_header_text :: "string \<Rightarrow> string option"
  ae_b64_decode :: "string \<Rightarrow> string option"
  ae_utf8 :: "string \<Rightarrow> bool"

fun add_roots :: "auth_env \<Rightarrow> string list \<Rightarrow> string list \<Rightarrow> string list option" where
  "add_roots env roots [] = Some roots"
| "add_roots env roots (ca # cas) =
     (case ae_add_root env roots ca of None \<Rightarrow> None | Some roots' \<Rightarrow> add_roots env roots' cas)"

text \<open>\<open>ae_verifies\<close> is \<open>None\<close> where the verifier cannot be built from the roots.\<close>

definition verify_cert_against_ca :: "auth_env \<Rightarrow> string \<Rightarrow> string \<Rightarrow> bool" where
  "verify_cert_against_ca env cert_der ca_pem =
     (case ae_pem_certs env ca_pem of
        None \<Rightarrow> False
      | Some cas \<Rightarrow>
          if cas = [] then False
          else (case add_roots env [] cas of
                  None \<Rightarrow> False
                | Some roots \<Rightarrow> (case ae_verifies env roots cert_der of None \<Rightarrow> False | Some b \<Rightarrow> b)))"

definition tls_access :: "auth_env \<Rightarrow> string \<Rightarrow> identity_store \<Rightarrow> identity_access option" where
  "tls_access env cert m =
     max_access (List.map_filter (\<lambda>i.
       case id_tls i of
         None \<Rightarrow> None
       | Some t \<Rightarrow> if verify_cert_against_ca env cert (ti_ca_cert t) then Some (id_access i) else None)
       (map snd m))"

definition basic_access :: "auth_env \<Rightarrow> string \<Rightarrow> string \<Rightarrow> identity_store \<Rightarrow> identity_access option" where
  "basic_access env username password m =
     (case map_of m username of
        None \<Rightarrow> None
      | Some i \<Rightarrow>
          (case id_basic i of
             None \<Rightarrow> None
           | Some b \<Rightarrow> if ae_sha512_check env password (bi_password_hash b) then Some (id_access i) else None))"

subsection \<open>Resolving a caller\<close>

record request_parts =
  rp_authorization :: "string option"
  rp_peer_cert :: "string option"
  rp_unix_peer :: "u32 option option"

text \<open>The credentials of a Basic \<open>Authorization\<close> header.\<close>

definition basic_credentials :: "auth_env \<Rightarrow> request_parts \<Rightarrow> (string \<times> string) option" where
  "basic_credentials env parts =
     (case rp_authorization parts of None \<Rightarrow> None | Some hdr \<Rightarrow>
     (case ae_header_text env hdr of None \<Rightarrow> None | Some auth_str \<Rightarrow>
     (case strip_prefix ''Basic '' auth_str of None \<Rightarrow> None | Some encoded \<Rightarrow>
     (case ae_b64_decode env (trim encoded) of None \<Rightarrow> None | Some decoded \<Rightarrow>
       if ae_utf8 env decoded then split_once (CHR '':'') decoded else None))))"

definition resolve_access :: "auth_env \<Rightarrow> identity_store \<Rightarrow> request_parts \<Rightarrow> identity_access" where
  "resolve_access env m parts =
     (case (case basic_credentials env parts of None \<Rightarrow> None | Some (user, pass) \<Rightarrow> basic_access env user pass m) of
        Some level \<Rightarrow> level
      | None \<Rightarrow>
     (case (case rp_peer_cert parts of None \<Rightarrow> None | Some cert \<Rightarrow> tls_access env cert m) of
        Some level \<Rightarrow> level
      | None \<Rightarrow>
     (case (case rp_unix_peer parts of Some (Some uid) \<Rightarrow> local_access uid m | _ \<Rightarrow> None) of
        Some level \<Rightarrow> level
      | None \<Rightarrow> Open)))"

definition caller_access :: "auth_env \<Rightarrow> identity_store \<Rightarrow> request_parts \<Rightarrow> identity_access" where
  "caller_access env m parts = (if identity_is_empty m then Admin else resolve_access env m parts)"

definition require :: "identity_access \<Rightarrow> identity_access \<Rightarrow> (nat \<times> string) + unit" where
  "require caller needed = (if needed \<le> caller then Inr () else Inl (403, ''forbidden''))"

subsection \<open>Properties\<close>

lemma max_access_None: "max_access as = None \<longleftrightarrow> as = []"
  by (cases as) (auto split: option.splits)

lemma max_access_Some: "max_access as = Some a \<longleftrightarrow> a \<in> set as \<and> (\<forall>b \<in> set as. b \<le> a)"
proof (induction as arbitrary: a)
  case (Cons x xs)
  show ?case
  proof (cases "max_access xs")
    case None
    then show ?thesis by (auto simp: max_access_None)
  next
    case (Some b)
    with Cons [of b] have "b \<in> set xs" "\<forall>c \<in> set xs. c \<le> b" by auto
    then show ?thesis using Some by (auto simp: max_def) (meson order.trans order.antisym linear)+
  qed
qed simp

lemma set_map_filter: "set (List.map_filter f xs) = {y. \<exists>x \<in> set xs. f x = Some y}"
  by (auto simp: List.map_filter_def image_iff) force+

text \<open>What proves that a peer is an identity.\<close>

definition authenticates :: "auth_env \<Rightarrow> request_parts \<Rightarrow> string \<Rightarrow> identity \<Rightarrow> bool" where
  "authenticates env parts name i \<longleftrightarrow>
     (\<exists>pass b. basic_credentials env parts = Some (name, pass) \<and> id_basic i = Some b \<and>
        ae_sha512_check env pass (bi_password_hash b)) \<or>
     (\<exists>cert t. rp_peer_cert parts = Some cert \<and> id_tls i = Some t \<and>
        verify_cert_against_ca env cert (ti_ca_cert t)) \<or>
     (\<exists>uid l. rp_unix_peer parts = Some (Some uid) \<and> id_local i = Some l \<and>
        (li_user_id l = None \<or> li_user_id l = Some uid))"

lemma local_access_sound: "local_access uid m = Some a \<Longrightarrow> \<exists>(name, i) \<in> set m. id_access i = a \<and>
    (\<exists>l. id_local i = Some l \<and> (li_user_id l = None \<or> li_user_id l = Some uid))"
  by (fastforce simp: local_access_def max_access_Some set_map_filter split: option.splits if_splits)

lemma tls_access_sound: "tls_access env cert m = Some a \<Longrightarrow> \<exists>(name, i) \<in> set m. id_access i = a \<and>
    (\<exists>t. id_tls i = Some t \<and> verify_cert_against_ca env cert (ti_ca_cert t))"
  by (fastforce simp: tls_access_def max_access_Some set_map_filter split: option.splits if_splits)

lemma basic_access_sound: "basic_access env user pass m = Some a \<Longrightarrow> \<exists>i. (user, i) \<in> set m \<and> id_access i = a \<and>
    (\<exists>b. id_basic i = Some b \<and> ae_sha512_check env pass (bi_password_hash b))"
  by (auto simp: basic_access_def dest: map_of_SomeD split: option.splits if_splits)

lemma access_sound:
  assumes "m \<noteq> []"
  shows "caller_access env m parts = Open \<or>
    (\<exists>(name, i) \<in> set m. id_access i = caller_access env m parts \<and> authenticates env parts name i)"
proof -
  have eq: "caller_access env m parts = resolve_access env m parts"
    using assms by (simp add: caller_access_def identity_is_empty_def)
  let ?B = "case basic_credentials env parts of None \<Rightarrow> None | Some (user, pass) \<Rightarrow> basic_access env user pass m"
  let ?C = "case rp_peer_cert parts of None \<Rightarrow> None | Some cert \<Rightarrow> tls_access env cert m"
  let ?U = "case rp_unix_peer parts of Some (Some uid) \<Rightarrow> local_access uid m | _ \<Rightarrow> None"
  have res: "resolve_access env m parts =
      (case ?B of Some a \<Rightarrow> a | None \<Rightarrow> (case ?C of Some a \<Rightarrow> a | None \<Rightarrow> (case ?U of Some a \<Rightarrow> a | None \<Rightarrow> Open)))"
    by (simp only: resolve_access_def)
  consider a where "?B = Some a" "resolve_access env m parts = a"
    | a where "?C = Some a" "resolve_access env m parts = a"
    | a where "?U = Some a" "resolve_access env m parts = a"
    | "resolve_access env m parts = Open"
    unfolding res by (cases ?B; cases ?C; cases ?U) simp_all
  then show ?thesis
  proof cases
    case 1
    then obtain user pass where "basic_credentials env parts = Some (user, pass)" "basic_access env user pass m = Some a"
      by (auto split: option.splits)
    with basic_access_sound [of env user pass m a] 1(2) show ?thesis unfolding eq authenticates_def by fast
  next
    case 2
    then obtain cert where "rp_peer_cert parts = Some cert" "tls_access env cert m = Some a"
      by (auto split: option.splits)
    with tls_access_sound [of env cert m a] 2(2) show ?thesis unfolding eq authenticates_def by fast
  next
    case 3
    then obtain uid where "rp_unix_peer parts = Some (Some uid)" "local_access uid m = Some a"
      by (auto split: option.splits)
    with local_access_sound [of uid m a] 3(2) show ?thesis unfolding eq authenticates_def by fast
  next
    case 4
    then show ?thesis by (simp add: eq)
  qed
qed

text \<open>
  C6. No access without proof: once the store has an identity, a caller's level is \<open>open\<close> or the
  level of a registered identity that the request proves: a password that matches the hash of the
  named user, a client certificate its CA signed, or the peer's user id.
\<close>

theorem access_needs_proof:
  assumes "m \<noteq> []"
  shows "caller_access env m parts = Open \<or>
    (\<exists>(name, i) \<in> set m. id_access i = caller_access env m parts \<and> authenticates env parts name i)"
  using assms by (rule access_sound)

definition demo_auth :: auth_env where
  "demo_auth = \<lparr> ae_sha512_check = (\<lambda>p h. h = ''$6$'' @ p), ae_pem_certs = (\<lambda>_. None), ae_add_root = (\<lambda>rs c. Some (rs @ [c])),
     ae_verifies = (\<lambda>_ _. Some False), ae_header_text = Some, ae_b64_decode = Some, ae_utf8 = (\<lambda>_. True) \<rparr>"

definition demo_ids :: identity_store where
  "demo_ids = identity_add ''bob'' \<lparr>is_access = Write, is_local = None, is_basic = Some \<lparr>bi_password_hash = ''$6$pw''\<rparr>, is_tls = None\<rparr> []"

theorem access_needs_proof_witness:
  "caller_access demo_auth demo_ids \<lparr>rp_authorization = Some ''Basic bob:no'', rp_peer_cert = None, rp_unix_peer = None\<rparr> = Open"
proof -
  let ?p = "\<lparr>rp_authorization = Some ''Basic bob:no'', rp_peer_cert = None, rp_unix_peer = None\<rparr> :: request_parts"
  have c: "basic_credentials demo_auth ?p = Some (''bob'', ''no'')"
    by (simp add: basic_credentials_def demo_auth_def strip_prefix_def trim_def is_whitespace_def)
  have "demo_ids \<noteq> []" by (simp add: demo_ids_def identity_add_def)
  from access_needs_proof [OF this, of demo_auth ?p] c show ?thesis
    by (auto simp: authenticates_def demo_ids_def identity_add_def identity_of_spec_def demo_auth_def)
qed

text \<open>
  Among the local identities the most permissive one that matches the peer's user id counts;
  but a valid password decides alone: the certificate and the user id of the same request are
  not considered, even where they would give more.
\<close>

theorem access_precedence:
  assumes "m \<noteq> []"
  shows "(\<forall>user pass a. basic_credentials env parts = Some (user, pass) \<longrightarrow> basic_access env user pass m = Some a \<longrightarrow>
      caller_access env m parts = a) \<and>
    (\<forall>uid. basic_credentials env parts = None \<longrightarrow> rp_peer_cert parts = None \<longrightarrow> rp_unix_peer parts = Some (Some uid) \<longrightarrow>
      (\<forall>(name, i) \<in> set m. (\<exists>l. id_local i = Some l \<and> (li_user_id l = None \<or> li_user_id l = Some uid)) \<longrightarrow>
         id_access i \<le> caller_access env m parts))"
proof (intro conjI allI impI)
  fix user pass a
  assume "basic_credentials env parts = Some (user, pass)" "basic_access env user pass m = Some a"
  then show "caller_access env m parts = a"
    using assms by (simp add: caller_access_def identity_is_empty_def resolve_access_def)
next
  fix uid
  assume h: "basic_credentials env parts = None" "rp_peer_cert parts = None" "rp_unix_peer parts = Some (Some uid)"
  then have eq: "caller_access env m parts = (case local_access uid m of Some a \<Rightarrow> a | None \<Rightarrow> Open)"
    using assms by (simp add: caller_access_def identity_is_empty_def resolve_access_def)
  let ?f = "\<lambda>i. case id_local i of None \<Rightarrow> None
      | Some l \<Rightarrow> if li_user_id l = None \<or> li_user_id l = Some uid then Some (id_access i) else None"
  show "\<forall>(name, i) \<in> set m. (\<exists>l. id_local i = Some l \<and> (li_user_id l = None \<or> li_user_id l = Some uid)) \<longrightarrow>
         id_access i \<le> caller_access env m parts"
  proof (clarify)
    fix name i l
    assume "(name, i) \<in> set m" "id_local i = Some l" "li_user_id l = None \<or> li_user_id l = Some uid"
    then have mem: "id_access i \<in> set (List.map_filter ?f (map snd m))"
      by (force simp: set_map_filter)
    then obtain a where a: "local_access uid m = Some a"
      using max_access_None [of "List.map_filter ?f (map snd m)"] by (fastforce simp: local_access_def)
    then have "id_access i \<le> a" using mem by (auto simp: local_access_def max_access_Some)
    with a show "id_access i \<le> caller_access env m parts" by (simp add: eq)
  qed
qed

theorem access_precedence_witness:
  "caller_access demo_auth (identity_add ''root'' \<lparr>is_access = Admin, is_local = Some \<lparr>li_user_id = Some 0\<rparr>, is_basic = None, is_tls = None\<rparr> demo_ids)
     \<lparr>rp_authorization = Some ''Basic bob:pw'', rp_peer_cert = None, rp_unix_peer = Some (Some 0)\<rparr> = Write"
proof -
  let ?m = "identity_add ''root'' \<lparr>is_access = Admin, is_local = Some \<lparr>li_user_id = Some 0\<rparr>, is_basic = None, is_tls = None\<rparr> demo_ids"
  let ?p = "\<lparr>rp_authorization = Some ''Basic bob:pw'', rp_peer_cert = None, rp_unix_peer = Some (Some 0)\<rparr> :: request_parts"
  have "basic_credentials demo_auth ?p = Some (''bob'', ''pw'')"
    by (simp add: basic_credentials_def demo_auth_def strip_prefix_def trim_def is_whitespace_def)
  moreover have "basic_access demo_auth ''bob'' ''pw'' ?m = Some Write" "?m \<noteq> []"
    by (simp_all add: basic_access_def demo_auth_def demo_ids_def identity_add_def identity_of_spec_def)
  ultimately show ?thesis using access_precedence [of ?m demo_auth ?p] by blast
qed

lemma identity_remove_get: "map_of (snd (identity_remove names m)) k = (if k \<in> set names then None else map_of m k)"
  by (induction names m rule: identity_remove.induct) (auto split: option.splits prod.splits)

text \<open>
  Managing identities: an added identity replaces one of the same name; a removal forgets
  exactly the named identities and returns those that existed, each once; and when the last
  identity is removed, the store is in bootstrap mode again: every caller is an administrator.
\<close>

theorem identities_managed:
  shows "map_of (identity_add name spec m) k = (if k = name then Some (identity_of_spec name spec) else map_of m k) \<and>
    map_of (snd (identity_remove names m)) k = (if k \<in> set names then None else map_of m k) \<and>
    set (fst (identity_remove names m)) = set names \<inter> fst ` set m \<and> distinct (fst (identity_remove names m)) \<and>
    (fst ` set m \<subseteq> set names \<longrightarrow> caller_access env (snd (identity_remove names m)) parts = Admin)"
proof -
  have removed: "set (fst (identity_remove names m)) = set names \<inter> fst ` set m \<and> distinct (fst (identity_remove names m))" for m
  proof (induction names arbitrary: m)
    case (Cons n ns)
    show ?case
    proof (cases "map_of m n")
      case None
      then have "n \<notin> fst ` set m" by (simp add: map_of_eq_None_iff)
      with Cons.IH [of m] None show ?thesis by auto
    next
      case (Some i)
      then have "n \<in> fst ` set m" by (metis map_of_eq_None_iff option.distinct(1))
      moreover have "fst (identity_remove (n # ns) m) = n # fst (identity_remove ns (im_remove n m))"
        using Some by (simp add: split_beta)
      ultimately show ?thesis using Cons.IH [of "im_remove n m"] by auto
    qed
  qed simp
  have "caller_access env (snd (identity_remove names m)) parts = Admin" if "fst ` set m \<subseteq> set names"
  proof -
    have "map_of (snd (identity_remove names m)) k = None" for k
      using that by (auto simp: identity_remove_get map_of_eq_None_iff)
    then have "snd (identity_remove names m) = []"
      by (metis list.set_intros(1) map_of_eq_None_iff neq_Nil_conv image_eqI)
    then show ?thesis by (simp add: caller_access_def identity_is_empty_def)
  qed
  with removed show ?thesis by (simp add: identity_remove_get identity_add_def)
qed

theorem identities_managed_witness:
  "caller_access demo_auth (snd (identity_remove [''bob''] demo_ids)) \<lparr>rp_authorization = None, rp_peer_cert = None, rp_unix_peer = None\<rparr> = Admin"
  using identities_managed [of "''x''" _ demo_ids "''x''" "[''bob'']" demo_auth "\<lparr>rp_authorization = None, rp_peer_cert = None, rp_unix_peer = None\<rparr>"]
  by (simp add: demo_ids_def identity_add_def)

end
