(* ===== verification/Plan.thy ===== *)
theory Plan
  imports PlanTypes
begin

text \<open>
  \<open>Plan::from_layers\<close> and the merge rules of services, checks and alerts
  (\<open>crates/vigil-types/src/plan\<close>). The tables of the merged plan are insertion-ordered.
\<close>

named_theorems merge_defs \<open>the merge rules of the three kinds of entries\<close>

subsection \<open>Merge rules\<close>

text \<open>\<open>opt!(f)\<close>: an overlay value replaces the base value when it is set.\<close>

definition opt_over :: "'a option \<Rightarrow> 'a option \<Rightarrow> 'a option" where
  "opt_over base overlay = (if overlay \<noteq> None then overlay else base)"

text \<open>The loops that append each element not yet contained.\<close>

definition push_new :: "'a list \<Rightarrow> 'a list \<Rightarrow> 'a list" where
  "push_new base overlay = fold (\<lambda>v acc. if v \<in> set acc then acc else acc @ [v]) overlay base"

definition merge_service :: "service_config \<Rightarrow> service_config \<Rightarrow> service_config" where
  "merge_service base overlay = base \<lparr>
     svc_summary := opt_over (svc_summary base) (svc_summary overlay),
     svc_description := opt_over (svc_description base) (svc_description overlay),
     svc_command := opt_over (svc_command base) (svc_command overlay),
     svc_startup := svc_startup overlay,
     svc_after := push_new (svc_after base) (svc_after overlay),
     svc_before := push_new (svc_before base) (svc_before overlay),
     svc_requires := push_new (svc_requires base) (svc_requires overlay),
     svc_environment := im_extend (svc_environment base) (svc_environment overlay),
     svc_user := opt_over (svc_user base) (svc_user overlay),
     svc_user_id := opt_over (svc_user_id base) (svc_user_id overlay),
     svc_group := opt_over (svc_group base) (svc_group overlay),
     svc_group_id := opt_over (svc_group_id base) (svc_group_id overlay),
     svc_working_dir := opt_over (svc_working_dir base) (svc_working_dir overlay),
     svc_stop_signal := opt_over (svc_stop_signal base) (svc_stop_signal overlay),
     svc_kill_delay := opt_over (svc_kill_delay base) (svc_kill_delay overlay),
     svc_on_success := opt_over (svc_on_success base) (svc_on_success overlay),
     svc_on_failure := opt_over (svc_on_failure base) (svc_on_failure overlay),
     svc_on_check_failure := im_extend (svc_on_check_failure base) (svc_on_check_failure overlay),
     svc_backoff_delay := opt_over (svc_backoff_delay base) (svc_backoff_delay overlay),
     svc_backoff_factor := opt_over (svc_backoff_factor base) (svc_backoff_factor overlay),
     svc_backoff_limit := opt_over (svc_backoff_limit base) (svc_backoff_limit overlay),
     svc_logs_forward := opt_over (svc_logs_forward base) (svc_logs_forward overlay),
     svc_logs_push_socket := opt_over (svc_logs_push_socket base) (svc_logs_push_socket overlay),
     svc_logs_push_addr := opt_over (svc_logs_push_addr base) (svc_logs_push_addr overlay),
     svc_logs_push_format := opt_over (svc_logs_push_format base) (svc_logs_push_format overlay) \<rparr>"

definition merge_check :: "check_config \<Rightarrow> check_config \<Rightarrow> check_config" where
  "merge_check base overlay = base \<lparr>
     chk_level := chk_level overlay,
     chk_startup := chk_startup overlay,
     chk_delay := opt_over (chk_delay base) (chk_delay overlay),
     chk_period := opt_over (chk_period base) (chk_period overlay),
     chk_timeout := opt_over (chk_timeout base) (chk_timeout overlay),
     chk_threshold := opt_over (chk_threshold base) (chk_threshold overlay),
     chk_http := opt_over (chk_http base) (chk_http overlay),
     chk_tcp := opt_over (chk_tcp base) (chk_tcp overlay),
     chk_exec := opt_over (chk_exec base) (chk_exec overlay) \<rparr>"

definition merge_alert :: "alert_config \<Rightarrow> alert_config \<Rightarrow> alert_config" where
  "merge_alert base overlay = base \<lparr>
     al_url := (if al_url overlay \<noteq> [] then al_url overlay else al_url base),
     al_format := al_format overlay,
     al_tls_insecure := al_tls_insecure overlay,
     al_tls_ca := opt_over (al_tls_ca base) (al_tls_ca overlay),
     al_proxy := opt_over (al_proxy base) (al_proxy overlay),
     al_proxy_ca := opt_over (al_proxy_ca base) (al_proxy_ca overlay),
     al_no_proxy := opt_over (al_no_proxy base) (al_no_proxy overlay),
     al_retry_attempts := opt_over (al_retry_attempts base) (al_retry_attempts overlay),
     al_body_template := opt_over (al_body_template base) (al_body_template overlay),
     al_retry_backoff := (if al_retry_backoff overlay \<noteq> [] then al_retry_backoff overlay
                          else al_retry_backoff base),
     al_headers := im_extend (al_headers base) (al_headers overlay),
     al_labels := im_extend (al_labels base) (al_labels overlay),
     al_send_info_fields := im_extend (al_send_info_fields base) (al_send_info_fields overlay),
     al_on_check := push_new (al_on_check base) (al_on_check overlay) \<rparr>"

lemmas [merge_defs] = merge_service_def merge_check_def merge_alert_def

subsection \<open>Building the plan\<close>

text \<open>
  One entry of a layer: \<open>Replace\<close> stores it, \<open>Merge\<close> merges it into an existing entry of
  that name in place and stores it otherwise.
\<close>

definition put_entry ::
  "('c \<Rightarrow> override) \<Rightarrow> ('c \<Rightarrow> 'c \<Rightarrow> 'c) \<Rightarrow> string \<times> 'c \<Rightarrow> (string, 'c) indexmap \<Rightarrow> (string, 'c) indexmap" where
  "put_entry mode merge e m =
     (case e of (name, x) \<Rightarrow>
        (case mode x of
           Replace \<Rightarrow> im_insert name x m
         | Merge \<Rightarrow> (case map_of m name of
                        None \<Rightarrow> im_insert name x m
                      | Some existing \<Rightarrow> im_insert name (merge existing x) m)))"

definition apply_layer :: "layer \<Rightarrow> plan \<Rightarrow> plan" where
  "apply_layer l p = p \<lparr>
     plan_services := fold (put_entry svc_override_mode merge_service) (lay_services l) (plan_services p),
     plan_checks := fold (put_entry chk_override_mode merge_check) (lay_checks l) (plan_checks p),
     plan_alert_queue_depth := opt_over (plan_alert_queue_depth p) (ab_max_queue_depth (lay_alerts l)),
     plan_alert_max_queue_time := opt_over (plan_alert_max_queue_time p) (ab_max_queue_time (lay_alerts l)),
     plan_alerts := fold (put_entry al_override_mode merge_alert) (ab_entries (lay_alerts l)) (plan_alerts p) \<rparr>"

definition from_layers :: "layer list \<Rightarrow> plan" where
  "from_layers layers = (fold apply_layer layers plan_default) \<lparr> plan_layers := layers \<rparr>"

subsection \<open>Lemmas on the merge rules\<close>

lemma opt_over_assoc: "opt_over (opt_over a b) c = opt_over a (opt_over b c)"
  by (cases c) (simp_all add: opt_over_def)

lemma opt_over_idem [simp]: "opt_over (opt_over a b) b = opt_over a b"
  by (simp add: opt_over_def)

lemma push_new_Nil [simp]: "push_new xs [] = xs"
  by (simp add: push_new_def)

lemma push_new_snoc: "push_new xs (ys @ [v]) =
    (if v \<in> set (push_new xs ys) then push_new xs ys else push_new xs ys @ [v])"
  by (simp add: push_new_def)

lemma set_push_new [simp]: "set (push_new xs ys) = set xs \<union> set ys"
  by (induction ys rule: rev_induct) (auto simp: push_new_snoc)

lemma distinct_push_new: "distinct xs \<Longrightarrow> distinct (push_new xs ys)"
  by (induction ys rule: rev_induct) (auto simp: push_new_snoc)

lemma push_new_assoc: "push_new (push_new a b) c = push_new a (push_new b c)"
  by (induction c rule: rev_induct) (auto simp: push_new_snoc)

lemma push_new_idem: "push_new (push_new a b) b = push_new a b"
proof -
  have "set ys \<subseteq> set xs \<Longrightarrow> push_new xs ys = xs" for xs ys :: "'a list"
    by (induction ys rule: rev_induct) (auto simp: push_new_snoc)
  then show ?thesis by simp
qed

lemma im_insert_twice: "im_insert k v (im_insert k w m) = im_insert k v m"
  by (induction k w m rule: im_insert.induct) auto

lemma im_insert_commute: "k \<in> fst ` set m \<Longrightarrow> k \<noteq> k' \<Longrightarrow>
    im_insert k v (im_insert k' v' m) = im_insert k' v' (im_insert k v m)"
proof (induction m)
  case Nil
  then show ?case by simp
next
  case (Cons e m)
  then show ?case by (cases e) auto
qed

lemma im_extend_Nil [simp]: "im_extend m [] = m"
  by (simp add: im_extend_def)

lemma im_extend_Cons: "im_extend m ((k, v) # xs) = im_extend (im_insert k v m) xs"
  by (simp add: im_extend_def)

lemma im_extend_snoc: "im_extend m (xs @ [(k, v)]) = im_insert k v (im_extend m xs)"
  by (simp add: im_extend_def)

lemma im_insert_extend: "k \<in> fst ` set m \<Longrightarrow> k \<notin> fst ` set xs \<Longrightarrow>
    im_insert k v (im_extend m xs) = im_extend (im_insert k v m) xs"
proof (induction xs arbitrary: m)
  case Nil
  then show ?case by simp
next
  case (Cons e xs)
  obtain a b where e: "e = (a, b)" by force
  with Cons.prems Cons.IH [of "im_insert a b m"] show ?case
    by (simp add: im_extend_Cons im_insert_commute)
qed

lemma im_extend_insert: "im_wf xs \<Longrightarrow>
    im_extend m (im_insert k v xs) = im_insert k v (im_extend m xs)"
proof (induction xs arbitrary: m)
  case Nil
  then show ?case by (simp add: im_extend_Cons)
next
  case (Cons e xs)
  obtain k' v' where e: "e = (k', v')" by force
  from Cons.prems have wf: "im_wf xs" "k' \<notin> fst ` set xs" by (auto simp: im_wf_def e)
  show ?case
  proof (cases "k = k'")
    case True
    then show ?thesis
      using im_insert_extend [of k' "im_insert k' v' m" xs v] wf
      by (simp add: e im_extend_Cons im_insert_twice)
  next
    case False
    then show ?thesis using Cons.IH [OF wf(1)] by (simp add: e im_extend_Cons)
  qed
qed

lemma im_extend_assoc: "im_wf b \<Longrightarrow> im_extend (im_extend a b) c = im_extend a (im_extend b c)"
proof (induction c rule: rev_induct)
  case Nil
  then show ?case by simp
next
  case (snoc e c)
  then show ?case
    by (cases e) (simp add: im_extend_snoc im_extend_insert im_wf_extend)
qed

text \<open>
  Merging is associative: merging a third layer onto the merge of two gives the same
  service as merging the (already merged) last two onto the first. Layers can be combined in
  any grouping, only their order matters.
\<close>

theorem merge_service_assoc:
  assumes "im_wf (svc_environment b)" and "im_wf (svc_on_check_failure b)"
  shows "merge_service (merge_service a b) c = merge_service a (merge_service b c)"
  using assms by (simp add: merge_service_def opt_over_assoc push_new_assoc im_extend_assoc)

theorem merge_service_assoc_witness:
  "merge_service (merge_service service_config_default
       (service_config_default\<lparr>svc_after := [''a''], svc_environment := [(''K'', ''1'')]\<rparr>))
     (service_config_default\<lparr>svc_after := [''b'', ''a''], svc_environment := [(''K'', ''2'')]\<rparr>)
   = merge_service service_config_default
     (merge_service (service_config_default\<lparr>svc_after := [''a''], svc_environment := [(''K'', ''1'')]\<rparr>)
       (service_config_default\<lparr>svc_after := [''b'', ''a''], svc_environment := [(''K'', ''2'')]\<rparr>))"
  by (rule merge_service_assoc) (simp_all add: service_config_default_def im_wf_def)

subsection \<open>Resolution of a name\<close>

text \<open>
  The specification: the entries a name has in the layers, in order, and their resolution
  from left to right.
\<close>

definition entries_of :: "string \<Rightarrow> (string \<times> 'c) list \<Rightarrow> 'c list" where
  "entries_of n es = map snd (filter (\<lambda>e. fst e = n) es)"

definition combine :: "('c \<Rightarrow> override) \<Rightarrow> ('c \<Rightarrow> 'c \<Rightarrow> 'c) \<Rightarrow> 'c \<Rightarrow> 'c option \<Rightarrow> 'c option" where
  "combine mode merge x old =
     Some (case mode x of Replace \<Rightarrow> x | Merge \<Rightarrow> (case old of None \<Rightarrow> x | Some b \<Rightarrow> merge b x))"

definition resolve :: "('c \<Rightarrow> override) \<Rightarrow> ('c \<Rightarrow> 'c \<Rightarrow> 'c) \<Rightarrow> 'c list \<Rightarrow> 'c option" where
  "resolve mode merge xs = fold (combine mode merge) xs None"

lemma entries_of_append: "entries_of n (xs @ ys) = entries_of n xs @ entries_of n ys"
  by (simp add: entries_of_def)

lemma get_put_entry: "map_of (put_entry mode merge (n, x) m) k =
    (if k = n then combine mode merge x (map_of m n) else map_of m k)"
  by (auto simp: put_entry_def combine_def split: override.splits option.splits)

lemma get_fold_put_entry:
  "map_of (fold (put_entry mode merge) es m) k = fold (combine mode merge) (entries_of k es) (map_of m k)"
proof (induction es arbitrary: m)
  case Nil
  then show ?case by (simp add: entries_of_def)
next
  case (Cons e es)
  obtain n x where e: "e = (n, x)" by force
  show ?case using Cons.IH by (simp add: e get_put_entry entries_of_def)
qed

lemma wf_put_entry: "im_wf m \<Longrightarrow> im_wf (put_entry mode merge e m)"
  by (auto simp: put_entry_def split: prod.splits override.splits option.splits)

lemma wf_fold_put_entry: "im_wf m \<Longrightarrow> im_wf (fold (put_entry mode merge) es m)"
  by (induction es arbitrary: m) (auto intro: wf_put_entry)

lemma plan_services_fold: "plan_services (fold apply_layer ls p) =
    fold (put_entry svc_override_mode merge_service) (concat (map lay_services ls)) (plan_services p)"
  by (induction ls arbitrary: p) (auto simp: apply_layer_def)

lemma plan_checks_fold: "plan_checks (fold apply_layer ls p) =
    fold (put_entry chk_override_mode merge_check) (concat (map lay_checks ls)) (plan_checks p)"
  by (induction ls arbitrary: p) (auto simp: apply_layer_def)

lemma plan_alerts_fold: "plan_alerts (fold apply_layer ls p) =
    fold (put_entry al_override_mode merge_alert) (concat (map (ab_entries \<circ> lay_alerts) ls)) (plan_alerts p)"
  by (induction ls arbitrary: p) (auto simp: apply_layer_def)

lemma from_layers_tables:
  "plan_services (from_layers ls) = fold (put_entry svc_override_mode merge_service) (concat (map lay_services ls)) []"
  "plan_checks (from_layers ls) = fold (put_entry chk_override_mode merge_check) (concat (map lay_checks ls)) []"
  "plan_alerts (from_layers ls) =
     fold (put_entry al_override_mode merge_alert) (concat (map (ab_entries \<circ> lay_alerts) ls)) []"
  by (simp_all add: from_layers_def plan_services_fold plan_checks_fold plan_alerts_fold plan_default_def)

text \<open>
  C19. The merged plan resolves every service, check and alert on its own: its entry is the
  left-to-right resolution of exactly the entries that carry its name in the layers, and no
  other entry influences it.
\<close>

theorem from_layers_resolves:
  "map_of (plan_services (from_layers ls)) n =
     resolve svc_override_mode merge_service (entries_of n (concat (map lay_services ls))) \<and>
   map_of (plan_checks (from_layers ls)) n =
     resolve chk_override_mode merge_check (entries_of n (concat (map lay_checks ls))) \<and>
   map_of (plan_alerts (from_layers ls)) n =
     resolve al_override_mode merge_alert (entries_of n (concat (map (ab_entries \<circ> lay_alerts) ls)))"
  by (simp add: from_layers_tables get_fold_put_entry resolve_def)

lemma from_layers_wf:
  "im_wf (plan_services (from_layers ls))" "im_wf (plan_checks (from_layers ls))"
  "im_wf (plan_alerts (from_layers ls))"
  by (simp_all add: from_layers_tables wf_fold_put_entry)

lemma from_layers_service: "map_of (plan_services (from_layers ls)) n =
    resolve svc_override_mode merge_service (entries_of n (concat (map lay_services ls)))"
  by (simp add: from_layers_tables get_fold_put_entry resolve_def)

lemma resolve_replace: "mode x = Replace \<Longrightarrow> resolve mode merge (xs @ x # ys) = resolve mode merge (x # ys)"
  by (simp add: resolve_def combine_def)

text \<open>
  An entry in \<open>replace\<close> mode cuts the history: what any earlier layer said about the
  service has no effect on the merged plan.
\<close>

theorem replace_discards_history:
  assumes "map_of (lay_services l) n = Some cfg" and "svc_override_mode cfg = Replace"
  shows "map_of (plan_services (from_layers (before @ l # later))) n =
         map_of (plan_services (from_layers (l # later))) n"
proof -
  from assms(1) obtain xs ys where "lay_services l = xs @ (n, cfg) # ys"
    by (meson map_of_SomeD split_list)
  then have eq: "entries_of n (concat (map lay_services (bs @ l # later))) =
      (entries_of n (concat (map lay_services bs)) @ entries_of n xs) @
       cfg # (entries_of n ys @ entries_of n (concat (map lay_services later)))" for bs
    by (simp add: entries_of_def)
  have "map_of (plan_services (from_layers (bs @ l # later))) n =
      resolve svc_override_mode merge_service
        (cfg # (entries_of n ys @ entries_of n (concat (map lay_services later))))" for bs
    unfolding from_layers_service eq by (rule resolve_replace [where mode = svc_override_mode and x = cfg, OF assms(2)])
  from this [of before] this [of "[]"] show ?thesis by simp
qed

definition layer_of :: "(string, service_config) indexmap \<Rightarrow> layer" where
  "layer_of svcs = \<lparr> lay_order = 0, lay_label = '''', lay_summary = None, lay_description = None,
     lay_services = svcs, lay_checks = [],
     lay_alerts = \<lparr> ab_max_queue_depth = None, ab_max_queue_time = None, ab_entries = [] \<rparr> \<rparr>"

theorem replace_discards_history_witness:
  "map_of (plan_services (from_layers ([layer_of [(''s'', service_config_default\<lparr>svc_after := [''x'']\<rparr>)]] @
        layer_of [(''s'', service_config_default\<lparr>svc_override_mode := Replace\<rparr>)] # []))) ''s'' =
   map_of (plan_services (from_layers
        (layer_of [(''s'', service_config_default\<lparr>svc_override_mode := Replace\<rparr>)] # []))) ''s''"
  by (rule replace_discards_history [where cfg = "service_config_default\<lparr>svc_override_mode := Replace\<rparr>"])
    (simp_all add: layer_of_def im_wf_def)

text \<open>The effective value of an optional setting is the last one set.\<close>

definition last_set :: "('c \<Rightarrow> 'a option) \<Rightarrow> 'c list \<Rightarrow> 'a option" where
  "last_set f xs = fold (\<lambda>x old. opt_over old (f x)) xs None"

lemma resolve_field:
  assumes "\<And>b x. f (merge b x) = opt_over (f b) (f x)" and "\<forall>x \<in> set xs. mode x = Merge" and "xs \<noteq> []"
  shows "\<exists>c. resolve mode merge xs = Some c \<and> f c = last_set f xs"
  using assms(2,3)
proof (induction xs rule: rev_induct)
  case Nil
  then show ?case by simp
next
  case (snoc x xs)
  show ?case
  proof (cases "xs = []")
    case True
    with snoc.prems show ?thesis by (simp add: resolve_def combine_def last_set_def opt_over_def)
  next
    case False
    with snoc obtain c where "resolve mode merge xs = Some c" "f c = last_set f xs" by auto
    with snoc.prems assms(1) show ?thesis
      by (auto simp: resolve_def combine_def last_set_def)
  qed
qed

text \<open>
  Last layer wins: for a service that no layer replaces, the effective command, stop
  signal, kill delay, exit policies and backoff settings are each the last value any layer
  sets, and unset values never erase one.
\<close>

theorem last_layer_wins:
  assumes "entries_of n (concat (map lay_services ls)) = es" and "es \<noteq> []"
    and "\<forall>x \<in> set es. svc_override_mode x = Merge"
  shows "\<exists>c. map_of (plan_services (from_layers ls)) n = Some c \<and>
      svc_command c = last_set svc_command es \<and>
      svc_stop_signal c = last_set svc_stop_signal es \<and>
      svc_kill_delay c = last_set svc_kill_delay es \<and>
      svc_on_success c = last_set svc_on_success es \<and>
      svc_on_failure c = last_set svc_on_failure es \<and>
      svc_backoff_delay c = last_set svc_backoff_delay es \<and>
      svc_backoff_factor c = last_set svc_backoff_factor es \<and>
      svc_backoff_limit c = last_set svc_backoff_limit es"
proof -
  have r: "map_of (plan_services (from_layers ls)) n = resolve svc_override_mode merge_service es"
    using assms(1) by (simp add: from_layers_service)
  obtain c where c: "resolve svc_override_mode merge_service es = Some c"
    using resolve_field [of svc_command merge_service es svc_override_mode] assms
    by (auto simp: merge_service_def)
  note field = resolve_field [of _ merge_service es svc_override_mode, OF _ assms(3,2)]
  show ?thesis
    using r c field [of svc_command] field [of svc_stop_signal] field [of svc_kill_delay]
      field [of svc_on_success] field [of svc_on_failure] field [of svc_backoff_delay]
      field [of svc_backoff_factor] field [of svc_backoff_limit]
    by (simp add: merge_service_def)
qed

definition two_layers :: "layer list" where
  "two_layers =
     [layer_of [(''s'', service_config_default\<lparr>svc_command := Some ''/bin/a'', svc_on_failure := Some Ignore\<rparr>)],
      layer_of [(''s'', service_config_default\<lparr>svc_command := Some ''/bin/b''\<rparr>)]]"

lemma two_layers_entries: "entries_of ''s'' (concat (map lay_services two_layers)) =
    [service_config_default\<lparr>svc_command := Some ''/bin/a'', svc_on_failure := Some Ignore\<rparr>,
     service_config_default\<lparr>svc_command := Some ''/bin/b''\<rparr>]"
  by (simp add: two_layers_def layer_of_def entries_of_def)

theorem last_layer_wins_witness:
  "\<exists>c. map_of (plan_services (from_layers two_layers)) ''s'' = Some c \<and>
      svc_command c = Some ''/bin/b'' \<and> svc_on_failure c = Some Ignore"
  using last_layer_wins [OF two_layers_entries]
  by (auto simp: last_set_def opt_over_def service_config_default_def)

end
