(* ===== verification/LoadPlan.thy ===== *)
theory LoadPlan
  imports Plan "HOL-Library.Multiset" "HOL-Library.List_Lexorder" "HOL-Library.Char_ord"
begin

text \<open>
  \<open>crates/vigild/src/overlord/plan.rs\<close>: reading the layer files of a directory into a plan. The
  file system and the YAML parser are the fields of \<open>layer_fs\<close>; file names are ordered by bytes,
  which is the lexicographic order on strings.
\<close>

record layer_fs =
  fs_exists :: bool
  fs_read_dir :: "string + string list"
  fs_read :: "string \<Rightarrow> string + string"
  fs_yaml :: "string \<Rightarrow> string + layer"

datatype load_error = ReadingDir string | ReadingFile string string | ParsingFile string string

definition is_layer_file :: "string \<Rightarrow> bool" where
  "is_layer_file n \<longleftrightarrow> ends_with n ''.yaml'' \<or> ends_with n ''.yml''"

definition file_stem :: "string \<Rightarrow> string" where
  "file_stem n = (case rsplit_once (CHR ''.'') n of None \<Rightarrow> n | Some (stem, _) \<Rightarrow> if stem = [] then n else stem)"

fun load_files :: "layer_fs \<Rightarrow> nat \<Rightarrow> string list \<Rightarrow> load_error + layer list" where
  "load_files fs order [] = Inr []"
| "load_files fs order (n # ns) =
     (case fs_read fs n of
        Inl e \<Rightarrow> Inl (ReadingFile n e)
      | Inr content \<Rightarrow>
          (case fs_yaml fs content of
             Inl e \<Rightarrow> Inl (ParsingFile n e)
           | Inr lay \<Rightarrow>
               (case load_files fs (order + 1) ns of
                  Inl e \<Rightarrow> Inl e
                | Inr ls \<Rightarrow> Inr (lay\<lparr>lay_order := of_nat order, lay_label := file_stem n\<rparr> # ls))))"

definition load_plan :: "layer_fs \<Rightarrow> load_error + plan" where
  "load_plan fs =
     (if \<not> fs_exists fs then Inr plan_default
      else
        case fs_read_dir fs of
          Inl e \<Rightarrow> Inl (ReadingDir e)
        | Inr names \<Rightarrow>
            (case load_files fs 0 (sort (filter is_layer_file names)) of
               Inl e \<Rightarrow> Inl e
             | Inr layers \<Rightarrow> Inr (from_layers layers)))"

lemma load_files_spec: "load_files fs k ns = Inr ls \<Longrightarrow>
    length ls = length ns \<and>
    (\<forall>i < length ns. \<exists>content lay. fs_read fs (ns ! i) = Inr content \<and> fs_yaml fs content = Inr lay \<and>
       ls ! i = lay\<lparr>lay_order := of_nat (k + i), lay_label := file_stem (ns ! i)\<rparr>)"
proof (induction ns arbitrary: k ls)
  case (Cons n ns)
  then obtain content lay ls' where h: "fs_read fs n = Inr content" "fs_yaml fs content = Inr lay"
      "load_files fs (k + 1) ns = Inr ls'" "ls = lay\<lparr>lay_order := of_nat k, lay_label := file_stem n\<rparr> # ls'"
    by (auto split: sum.splits)
  from Cons.IH [OF h(3)] h show ?case by (auto simp: nth_Cons split: nat.splits)
qed simp

text \<open>
  Loading a directory merges exactly its YAML files, in the order of their names whatever the
  order the directory lists them in; every layer is numbered by its position and labelled by its
  file name; and one unreadable or malformed file makes the whole load fail.
\<close>

theorem load_plan_by_name:
  assumes "fs_exists fs" and "fs_read_dir fs = Inr names" and "load_plan fs = Inr p"
  shows "\<exists>files layers. sorted files \<and> mset files = filter_mset is_layer_file (mset names) \<and>
    p = from_layers layers \<and> length layers = length files \<and>
    (\<forall>i < length files. \<exists>content lay. fs_read fs (files ! i) = Inr content \<and> fs_yaml fs content = Inr lay \<and>
       layers ! i = lay\<lparr>lay_order := of_nat i, lay_label := file_stem (files ! i)\<rparr>)"
proof -
  let ?files = "sort (filter is_layer_file names)"
  from assms obtain layers where l: "load_files fs 0 ?files = Inr layers" "p = from_layers layers"
    by (auto simp: load_plan_def split: sum.splits)
  from load_files_spec [OF l(1)] l(2) show ?thesis
    by (intro exI [of _ ?files] exI [of _ layers]) (auto simp: mset_filter)
qed

definition demo_fs :: layer_fs where
  "demo_fs = \<lparr> fs_exists = True, fs_read_dir = Inr [''b.yaml'', ''a.yml''], fs_read = (\<lambda>n. Inr n),
     fs_yaml = (\<lambda>c. Inr \<lparr>lay_order = 0, lay_label = [], lay_summary = Some c, lay_description = None, lay_services = [],
       lay_checks = [], lay_alerts = \<lparr>ab_max_queue_depth = None, ab_max_queue_time = None, ab_entries = []\<rparr>\<rparr>) \<rparr>"

theorem load_plan_by_name_witness:
  "\<exists>p layers. load_plan demo_fs = Inr p \<and> p = from_layers layers \<and> length layers = 2"
proof -
  have yaml: "is_layer_file ''b.yaml''" "is_layer_file ''a.yml''"
    by (simp_all add: is_layer_file_def ends_with_def)
  have "load_plan demo_fs \<noteq> Inl e" for e
  proof -
    have "load_files demo_fs k ns \<noteq> Inl e" for k ns
      by (induction ns arbitrary: k) (auto simp: demo_fs_def split: sum.splits)
    then show ?thesis by (auto simp: load_plan_def demo_fs_def split: sum.splits)
  qed
  then obtain p where p: "load_plan demo_fs = Inr p" by (metis obj_sumE)
  have "fs_exists demo_fs" "fs_read_dir demo_fs = Inr [''b.yaml'', ''a.yml'']" by (simp_all add: demo_fs_def)
  from load_plan_by_name [OF this p] obtain files layers where
      f: "mset files = filter_mset is_layer_file (mset [''b.yaml'', ''a.yml''])" "p = from_layers layers"
        "length layers = length files"
    by blast
  have "length files = 2"
    using arg_cong [OF f(1), of size] yaml by simp
  with p f show ?thesis by auto
qed

end
