(* ===== verification/Overlord.thy ===== *)
theory Overlord
  imports Service Check Alert LoadPlan
begin

text \<open>
  The overlord: \<open>crates/vigild/src/overlord\<close>. It owns the plan, one actor per service and check
  and the alert sender, and runs one handler at a time. The model embeds the actors: an entry
  holds the actor's state and its mailbox (the commands sent and not yet taken). The event channel
  from the service actors holds at most 256 events; a handler of the overlord does not drain it,
  so a command whose handling needs more room never gets its reply: the outcome \<open>Deadlocked\<close>.

  What one handler reads from outside (the clock, the layer directory, the system seen by each
  actor, the environment of alerts, and the texts of errors) is the record \<open>ctx\<close>. A handler
  is one step: other tasks act between handlers, not inside one.
\<close>

subsection \<open>State\<close>

record svc_entry =
  se_snapshot :: snapshot
  se_actor :: actor
  se_mail :: "svc_cmd list"

record chk_entry =
  ke_config :: check_config
  ke_actor :: check_actor
  ke_mail :: "check_cmd list"

datatype ov_effect =
    SentSvc string svc_cmd
  | AlertFired string
  | ServicesSet "string list"

record overlord =
  ov_plan :: plan
  ov_services :: "(string, svc_entry) indexmap"
  ov_checks :: "(string, chk_entry) indexmap"
  ov_alerts :: alert_sender
  ov_changes :: "change_info list"
  ov_change_counter :: "64 word"
  ov_boot_id :: string
  ov_start_time :: datetime
  ov_http_address :: string
  ov_https_address :: "string option"
  ov_events :: "svc_event list"
  ov_check_events :: "check_event list"
  ov_pending :: "string list"
  ov_removed_services :: "(string \<times> svc_entry) list"
  ov_removed_checks :: "(string \<times> chk_entry) list"
  ov_trace :: "ov_effect list"

datatype ov_error = UnknownService string | ActorGone string | ServiceError svc_error | LoadError load_error

record ctx =
  cx_now :: datetime
  cx_mono :: nat
  cx_os :: "string \<Rightarrow> os"
  cx_layers :: layer_fs
  cx_client :: "alert_config \<Rightarrow> built_client"
  cx_alert :: alert_env
  cx_check_json :: "check_config \<Rightarrow> string"
  cx_error_text :: "ov_error \<Rightarrow> string"
  cx_version :: string

text \<open>A handler finishes, waits for ever, or panics (a channel of capacity 0).\<close>

datatype 'a outcome = Finished 'a | Deadlocked | OvPanicked

fun and_then :: "'a outcome \<Rightarrow> ('a \<Rightarrow> 'b outcome) \<Rightarrow> 'b outcome" where
  "and_then (Finished x) f = f x"
| "and_then Deadlocked f = Deadlocked"
| "and_then OvPanicked f = OvPanicked"

fun each :: "('a \<Rightarrow> 's \<Rightarrow> 's outcome) \<Rightarrow> 'a list \<Rightarrow> 's \<Rightarrow> 's outcome" where
  "each f [] s = Finished s"
| "each f (x # xs) s = and_then (f x s) (each f xs)"

definition event_capacity :: nat where "event_capacity = 256"

definition ov_log :: "ov_effect \<Rightarrow> overlord \<Rightarrow> overlord" where
  "ov_log e ov = ov\<lparr>ov_trace := ov_trace ov @ [e]\<rparr>"

subsection \<open>Commands to a service actor\<close>

text \<open>The events an actor sent between two of its states, and the reply it gave.\<close>

definition events_between :: "string \<Rightarrow> actor \<Rightarrow> actor \<Rightarrow> svc_event list" where
  "events_between name s t =
     List.map_filter (\<lambda>e. case e of EEvent k \<Rightarrow> Some \<lparr>ev_service = name, ev_kind = k\<rparr> | _ \<Rightarrow> None)
       (drop (length (a_trace s)) (a_trace t))"

definition reply_between :: "actor \<Rightarrow> actor \<Rightarrow> (svc_error + unit) option" where
  "reply_between s t =
     (case List.map_filter (\<lambda>e. case e of EReply r \<Rightarrow> Some r | _ \<Rightarrow> None) (drop (length (a_trace s)) (a_trace t)) of
        [] \<Rightarrow> None
      | rs \<Rightarrow> Some (last rs))"

fun take_mail :: "os \<Rightarrow> svc_cmd list \<Rightarrow> actor \<Rightarrow> actor" where
  "take_mail os [] a = a"
| "take_mail os (c # cs) a = (if a_running a then take_mail os cs (dispatch os (OnCmd c) a) else a)"

text \<open>
  \<open>svc_cmd\<close>: send a command and wait for its reply. The actor takes the commands in its mailbox
  first; every event it sends on the way needs room in the channel.
\<close>

definition svc_cmd_result :: "ctx \<Rightarrow> string \<Rightarrow> svc_cmd \<Rightarrow> overlord \<Rightarrow> (overlord \<times> (ov_error + unit)) outcome" where
  "svc_cmd_result cx name c ov =
     (case map_of (ov_services ov) name of
        None \<Rightarrow> Finished (ov, Inl (UnknownService name))
      | Some e \<Rightarrow>
          let a = take_mail (cx_os cx name) (se_mail e) (se_actor e);
              b = (if a_running a then dispatch (cx_os cx name) (OnCmd c) a else a);
              evs = events_between name (se_actor e) b
          in if event_capacity < length (ov_events ov) + length evs then Deadlocked
             else Finished
               ((if a_running a then ov_log (SentSvc name c) else id)
                  (ov\<lparr>ov_services := im_insert name (e\<lparr>se_actor := b, se_mail := []\<rparr>) (ov_services ov),
                      ov_events := ov_events ov @ evs\<rparr>),
                if \<not> a_running a then Inl (ActorGone name)
                else (case reply_between a b of
                        Some (Inr _) \<Rightarrow> Inr ()
                      | Some (Inl err) \<Rightarrow> Inl (ServiceError err)
                      | None \<Rightarrow> Inl (ActorGone name))))"

definition send_svc :: "ctx \<Rightarrow> svc_cmd \<Rightarrow> string \<Rightarrow> overlord \<Rightarrow> overlord outcome" where
  "send_svc cx c name ov = and_then (svc_cmd_result cx name c ov) (\<lambda>(ov', _). Finished ov')"

text \<open>A command that is only queued: nobody waits for it.\<close>

definition post_svc :: "svc_cmd \<Rightarrow> string \<Rightarrow> overlord \<Rightarrow> overlord" where
  "post_svc c name ov =
     (case map_of (ov_services ov) name of
        None \<Rightarrow> ov
      | Some e \<Rightarrow> ov_log (SentSvc name c)
          (ov\<lparr>ov_services := im_insert name (e\<lparr>se_mail := se_mail e @ [c]\<rparr>) (ov_services ov)\<rparr>))"

subsection \<open>Life cycle\<close>

definition dep_running :: "overlord \<Rightarrow> string \<Rightarrow> bool" where
  "dep_running ov dep =
     (case map_of (ov_services ov) dep of Some e \<Rightarrow> is_running (sn_state (se_snapshot e)) | None \<Rightarrow> False)"

definition after_deps_running :: "overlord \<Rightarrow> string \<Rightarrow> bool" where
  "after_deps_running ov name =
     (case map_of (plan_services (ov_plan ov)) name of
        None \<Rightarrow> True
      | Some config \<Rightarrow>
          list_all (dep_running ov) (svc_after config @ svc_requires config) \<and>
          list_all (\<lambda>(dep, c). dep_running ov dep)
            (filter (\<lambda>(other, c). other \<noteq> name \<and> name \<in> set (svc_before c)) (plan_services (ov_plan ov))))"

definition autostart_one :: "ctx \<Rightarrow> string \<Rightarrow> overlord \<Rightarrow> overlord outcome" where
  "autostart_one cx name ov =
     (if after_deps_running ov name then send_svc cx CmdStart name ov
      else Finished (if name \<in> set (ov_pending ov) then ov else ov\<lparr>ov_pending := ov_pending ov @ [name]\<rparr>))"

definition enabled_services :: "overlord \<Rightarrow> string list" where
  "enabled_services ov =
     map fst (filter (\<lambda>(_, c). svc_startup c = Enabled) (plan_services (ov_plan ov)))"

definition autostart :: "ctx \<Rightarrow> overlord \<Rightarrow> overlord outcome" where
  "autostart cx ov = each (autostart_one cx) (enabled_services ov) ov"

definition start_pending_one :: "ctx \<Rightarrow> string \<Rightarrow> overlord \<Rightarrow> overlord outcome" where
  "start_pending_one cx name ov =
     send_svc cx CmdStart name (ov\<lparr>ov_pending := filter (\<lambda>n. n \<noteq> name) (ov_pending ov)\<rparr>)"

definition try_start_pending :: "ctx \<Rightarrow> overlord \<Rightarrow> overlord outcome" where
  "try_start_pending cx ov =
     each (start_pending_one cx) (filter (after_deps_running ov) (ov_pending ov)) ov"

definition new_svc_entry :: "ctx \<Rightarrow> string \<Rightarrow> service_config \<Rightarrow> svc_entry" where
  "new_svc_entry cx name config = \<lparr>
     se_snapshot = \<lparr> sn_name = name, sn_state = Inactive, sn_since = cx_now cx,
                     sn_startup = svc_startup config, sn_pid = None \<rparr>,
     se_actor = actor_start (cx_os cx name) name config, se_mail = [] \<rparr>"

definition sync_service :: "ctx \<Rightarrow> string \<times> service_config \<Rightarrow> overlord \<Rightarrow> overlord" where
  "sync_service cx e ov =
     (case e of (name, config) \<Rightarrow>
        if im_contains (ov_services ov) name then ov
        else ov\<lparr>ov_services := im_insert name (new_svc_entry cx name config) (ov_services ov)\<rparr>)"

definition spawn_check :: "ctx \<Rightarrow> string \<Rightarrow> check_config \<Rightarrow> overlord \<Rightarrow> overlord" where
  "spawn_check cx name config ov =
     (let initial = (case alert_check_status_of (ov_alerts ov) name of Some st \<Rightarrow> st | None \<Rightarrow> Up);
          entry = \<lparr> ke_config = config,
                    ke_actor = check_run (cx_mono cx) name config (plan_services (ov_plan ov)) initial,
                    ke_mail = [] \<rparr>
      in ov\<lparr>ov_checks := im_insert name entry (ov_checks ov)\<rparr>)"

definition sync_check :: "ctx \<Rightarrow> string \<times> check_config \<Rightarrow> overlord \<Rightarrow> overlord" where
  "sync_check cx e ov =
     (case e of (name, config) \<Rightarrow>
        if chk_startup config = Disabled then ov
        else (case map_of (ov_checks ov) name of
                None \<Rightarrow> spawn_check cx name config ov
              | Some entry \<Rightarrow>
                  if cx_check_json cx (ke_config entry) = cx_check_json cx config then ov
                  else spawn_check cx name config
                    (ov\<lparr>ov_checks := im_remove name (ov_checks ov),
                        ov_removed_checks := (name, entry\<lparr>ke_mail := ke_mail entry @ [CheckShutdown]\<rparr>) # ov_removed_checks ov\<rparr>)))"

definition sync_actors :: "ctx \<Rightarrow> overlord \<Rightarrow> overlord" where
  "sync_actors cx ov =
     (let ov1 = fold (sync_service cx) (plan_services (ov_plan ov)) ov;
          ov2 = ov_log (ServicesSet (im_keys (ov_services ov1))) ov1
      in fold (sync_check cx) (plan_checks (ov_plan ov)) ov2)"

definition remove_service :: "string \<Rightarrow> overlord \<Rightarrow> overlord" where
  "remove_service name ov =
     (case map_of (ov_services ov) name of
        None \<Rightarrow> ov
      | Some e \<Rightarrow> ov_log (SentSvc name CmdShutdown)
          (ov\<lparr>ov_services := im_remove name (ov_services ov),
              ov_removed_services := (name, e\<lparr>se_mail := se_mail e @ [CmdShutdown]\<rparr>) # ov_removed_services ov\<rparr>))"

definition remove_check :: "string \<Rightarrow> overlord \<Rightarrow> overlord" where
  "remove_check name ov =
     (case map_of (ov_checks ov) name of
        None \<Rightarrow> ov
      | Some e \<Rightarrow>
          ov\<lparr>ov_checks := im_remove name (ov_checks ov),
             ov_removed_checks := (name, e\<lparr>ke_mail := ke_mail e @ [CheckShutdown]\<rparr>) # ov_removed_checks ov\<rparr>)"

definition alert_limits :: "plan \<Rightarrow> nat \<times> nat" where
  "alert_limits p =
     (case plan_alert_queue_depth p of Some d \<Rightarrow> d | None \<Rightarrow> default_delivery_queue,
      duration_or default_delivery_age (plan_alert_max_queue_time p))"

definition reload_layers :: "ctx \<Rightarrow> overlord \<Rightarrow> (overlord \<times> (ov_error + unit)) outcome" where
  "reload_layers cx ov =
     (case load_plan (cx_layers cx) of
        Inl e \<Rightarrow> Finished (ov, Inl (LoadError e))
      | Inr p \<Rightarrow>
          let ov1 = ov\<lparr>ov_plan := p\<rparr>;
              al = update_alerts (cx_client cx) (plan_alerts p) (ov_alerts ov1)
          in case (case alert_limits p of (depth, age) \<Rightarrow> update_queue_limits depth age al) of
               None \<Rightarrow> OvPanicked
             | Some al' \<Rightarrow>
                 let ov2 = (sync_actors cx (ov1\<lparr>ov_alerts := al'\<rparr>))\<lparr>ov_pending := []\<rparr>;
                     gone_svcs = filter (\<lambda>n. n \<notin> set (im_keys (plan_services p))) (im_keys (ov_services ov2));
                     ov3 = fold remove_service gone_svcs ov2;
                     gone_chks = filter (\<lambda>n. n \<notin> set (im_keys (plan_checks p))) (im_keys (ov_checks ov3));
                     ov4 = fold remove_check gone_chks ov3
                 in and_then (autostart cx ov4) (\<lambda>ov5. Finished (ov5, Inr ())))"

definition stop_one :: "ctx \<Rightarrow> string \<Rightarrow> overlord \<Rightarrow> overlord outcome" where
  "stop_one cx name ov = and_then (send_svc cx CmdStop name ov) (\<lambda>ov'. Finished (post_svc CmdShutdown name ov'))"

text \<open>
  \<open>stop_all\<close> returns once every actor has answered the stop and has the shutdown in its mailbox;
  it does not wait for the actors to end.
\<close>

definition stop_all :: "ctx \<Rightarrow> overlord \<Rightarrow> overlord outcome" where
  "stop_all cx ov =
     and_then (each (stop_one cx) (im_keys (ov_services ov)) ov)
       (\<lambda>ov'. Finished (ov'\<lparr>ov_checks := map (\<lambda>(n, e). (n, e\<lparr>ke_mail := ke_mail e @ [CheckShutdown]\<rparr>)) (ov_checks ov')\<rparr>))"

definition forward_signal :: "signal \<Rightarrow> overlord \<Rightarrow> overlord" where
  "forward_signal sig ov = fold (post_svc (CmdForwardSignal sig)) (im_keys (ov_services ov)) ov"

subsection \<open>Events\<close>

definition note_snapshot :: "ctx \<Rightarrow> string \<Rightarrow> service_state \<Rightarrow> overlord \<Rightarrow> overlord" where
  "note_snapshot cx name st ov =
     (case map_of (ov_services ov) name of
        None \<Rightarrow> ov
      | Some e \<Rightarrow>
          ov\<lparr>ov_services := im_insert name
               (e\<lparr>se_snapshot := (se_snapshot e)\<lparr>sn_state := st, sn_since := cx_now cx\<rparr>\<rparr>) (ov_services ov)\<rparr>)"

definition dependents_of :: "string \<Rightarrow> overlord \<Rightarrow> string list" where
  "dependents_of name ov =
     map fst (filter (\<lambda>(dep, c). name \<in> set (svc_requires c) \<and> dep_running ov dep) (plan_services (ov_plan ov)))"

definition handle_svc_event :: "ctx \<Rightarrow> svc_event \<Rightarrow> overlord \<Rightarrow> (overlord \<times> int option) outcome" where
  "handle_svc_event cx ev ov =
     (case ev_kind ev of
        StateChanged st \<Rightarrow>
          let ov1 = note_snapshot cx (ev_service ev) st ov in
          and_then (if is_running st \<and> ov_pending ov1 \<noteq> [] then try_start_pending cx ov1 else Finished ov1)
            (\<lambda>ov2.
              and_then
                (if st = Inactive \<or> st = ErrorState
                 then each (send_svc cx CmdStop) (dependents_of (ev_service ev) ov2) ov2 else Finished ov2)
                (\<lambda>ov3. Finished (ov3, None)))
      | ProcessExited _ \<Rightarrow> Finished (ov, None)
      | DaemonShutdown code \<Rightarrow> Finished (ov, Some code))"

definition check_failure_actions :: "string \<Rightarrow> overlord \<Rightarrow> (string \<times> on_exit) list" where
  "check_failure_actions check ov =
     List.map_filter (\<lambda>(name, cfg). map_option (Pair name) (map_of (svc_on_check_failure cfg) check))
       (plan_services (ov_plan ov))"

text \<open>The result carries the exit code with which the process ends, if an action ends it.\<close>

fun run_check_actions :: "ctx \<Rightarrow> (string \<times> on_exit) list \<Rightarrow> overlord \<Rightarrow> (overlord \<times> int option) outcome" where
  "run_check_actions cx [] ov = Finished (ov, None)"
| "run_check_actions cx ((name, action) # as) ov =
     (case action of
        Restart \<Rightarrow> and_then (send_svc cx CmdRestart name ov) (run_check_actions cx as)
      | Ignore \<Rightarrow> run_check_actions cx as ov
      | Shutdown \<Rightarrow> and_then (stop_all cx ov) (\<lambda>ov'. Finished (ov', Some 10))
      | SuccessShutdown \<Rightarrow> and_then (stop_all cx ov) (\<lambda>ov'. Finished (ov', Some 0))
      | FailureShutdown \<Rightarrow> and_then (stop_all cx ov) (\<lambda>ov'. Finished (ov', Some 10)))"

definition handle_check_event :: "ctx \<Rightarrow> check_event \<Rightarrow> overlord \<Rightarrow> (overlord \<times> int option) outcome" where
  "handle_check_event cx ev ov =
     (let (al, fired) = alert_handle_event (cx_alert cx) (cx_mono cx) (ce_check ev) (ce_status ev) (ov_alerts ov);
          ov1 = fold (\<lambda>a. ov_log (AlertFired a)) fired (ov\<lparr>ov_alerts := al\<rparr>)
      in if ce_status ev \<noteq> Down then Finished (ov1, None)
         else run_check_actions cx (check_failure_actions (ce_check ev) ov1) ov1)"

end
