(* ===== verification/OverlordCmd.thy ===== *)
theory OverlordCmd
  imports Overlord
begin

text \<open>
  The commands the API sends to the overlord (\<open>overlord/handlers.rs\<close>) and its main loop
  (\<open>overlord/mod.rs\<close>): the start of the daemon, the loop over commands and events, and the steps
  the actors take on their own.
\<close>

subsection \<open>Texts\<close>

definition hex_digit :: "nat \<Rightarrow> char" where
  "hex_digit n = (if n < 10 then char_of (n + 48) else char_of (n + 87))"

text \<open>\<open>Debug\<close> of a string, for ASCII.\<close>

definition debug_char :: "char \<Rightarrow> string" where
  "debug_char c =
     (let n = (of_char c :: nat) in
      if n = 34 then [CHR 0x5C, CHR 0x22]
      else if n = 92 then [CHR 0x5C, CHR 0x5C]
      else if n = 10 then [CHR 0x5C, CHR ''n'']
      else if n = 13 then [CHR 0x5C, CHR ''r'']
      else if n = 9 then [CHR 0x5C, CHR ''t'']
      else if n = 0 then [CHR 0x5C, CHR ''0'']
      else if n < 16 then [CHR 0x5C] @ ''u{'' @ [hex_digit n] @ ''}''
      else if n < 32 \<or> n = 127 then [CHR 0x5C] @ ''u{'' @ [hex_digit (n div 16), hex_digit (n mod 16)] @ ''}''
      else [c])"

definition debug_string :: "string \<Rightarrow> string" where
  "debug_string s = [CHR 0x22] @ concat (map debug_char s) @ [CHR 0x22]"

definition debug_strings :: "string list \<Rightarrow> string" where
  "debug_strings ss = ''['' @ join_with '', '' (map debug_string ss) @ '']''"

fun action_debug :: "service_action \<Rightarrow> string" where
  "action_debug ActStart = ''Start''"
| "action_debug ActStop = ''Stop''"
| "action_debug ActRestart = ''Restart''"
| "action_debug ActAutostart = ''Autostart''"
| "action_debug ActReplan = ''Replan''"

fun signal_debug :: "signal \<Rightarrow> string" where
  "signal_debug SIGTERM = ''SIGTERM''"
| "signal_debug SIGKILL = ''SIGKILL''"
| "signal_debug SIGHUP = ''SIGHUP''"
| "signal_debug SIGUSR1 = ''SIGUSR1''"
| "signal_debug SIGUSR2 = ''SIGUSR2''"
| "signal_debug (OtherSignal s) = s"

fun fmt_on_exit :: "on_exit \<Rightarrow> string" where
  "fmt_on_exit Restart = ''restart''"
| "fmt_on_exit Ignore = ''ignore''"
| "fmt_on_exit Shutdown = ''shutdown''"
| "fmt_on_exit FailureShutdown = ''failure-shutdown''"
| "fmt_on_exit SuccessShutdown = ''success-shutdown''"

subsection \<open>Service actions\<close>

definition enable_autostart :: "string \<Rightarrow> overlord \<Rightarrow> overlord" where
  "enable_autostart name ov =
     (case map_of (plan_services (ov_plan ov)) name of
        None \<Rightarrow> ov
      | Some c \<Rightarrow>
          ov\<lparr>ov_plan := (ov_plan ov)\<lparr>plan_services :=
              im_insert name (c\<lparr>svc_startup := Enabled\<rparr>) (plan_services (ov_plan ov))\<rparr>\<rparr>)"

definition service_action_one :: "ctx \<Rightarrow> service_action \<Rightarrow> string \<Rightarrow> overlord \<Rightarrow> (overlord \<times> (ov_error + unit)) outcome" where
  "service_action_one cx action name ov =
     (case action of
        ActStart \<Rightarrow> svc_cmd_result cx name CmdStart ov
      | ActStop \<Rightarrow> svc_cmd_result cx name CmdStop ov
      | ActRestart \<Rightarrow> svc_cmd_result cx name CmdRestart ov
      | ActAutostart \<Rightarrow> svc_cmd_result cx name CmdStart (enable_autostart name ov)
      | ActReplan \<Rightarrow> reload_layers cx ov)"

fun service_actions :: "ctx \<Rightarrow> service_action \<Rightarrow> string list \<Rightarrow> overlord \<Rightarrow> (overlord \<times> string list) outcome" where
  "service_actions cx action [] ov = Finished (ov, [])"
| "service_actions cx action (name # names) ov =
     and_then (service_action_one cx action name ov) (\<lambda>(ov1, res).
       and_then (service_actions cx action names ov1) (\<lambda>(ov2, errs).
         Finished (ov2, case res of Inr _ \<Rightarrow> errs | Inl e \<Rightarrow> (name @ '': '' @ cx_error_text cx e) # errs)))"

definition change_record :: "ctx \<Rightarrow> service_action \<Rightarrow> string list \<Rightarrow> string list \<Rightarrow> 64 word \<Rightarrow> change_info" where
  "change_record cx action targets errors counter = \<lparr>
     ch_id = show_nat (unat counter), ch_kind = to_ascii_lowercase (action_debug action),
     ch_summary = action_debug action @ '' '' @ debug_strings targets,
     ch_status = (if errors = [] then Done else ChangeError),
     ch_spawn_time = cx_now cx, ch_ready_time = Some (cx_now cx),
     ch_err = (if errors = [] then None else Some (join_with ''; '' errors)) \<rparr>"

definition handle_services_action :: "ctx \<Rightarrow> service_action \<Rightarrow> string list \<Rightarrow> overlord \<Rightarrow> (overlord \<times> change_info) outcome" where
  "handle_services_action cx action names ov =
     (let targets = (if names = [] then im_keys (plan_services (ov_plan ov)) else names) in
      and_then (service_actions cx action targets ov) (\<lambda>(ov1, errors).
        let counter = ov_change_counter ov1 + 1;
            change = change_record cx action targets errors counter
        in Finished (ov1\<lparr>ov_change_counter := counter, ov_changes := ov_changes ov1 @ [change]\<rparr>, change)))"

subsection \<open>Queries\<close>

definition service_info_of :: "overlord \<Rightarrow> svc_entry \<Rightarrow> service_info" where
  "service_info_of ov e =
     (let sn = se_snapshot e; cfg = map_of (plan_services (ov_plan ov)) (sn_name sn);
          policy = (\<lambda>f. case (case cfg of None \<Rightarrow> None | Some c \<Rightarrow> f c) of Some p \<Rightarrow> fmt_on_exit p | None \<Rightarrow> ''restart'')
      in \<lparr> si_name = sn_name sn, si_startup = sn_startup sn, si_current = to_api_status (sn_state sn),
           si_current_since = Some (sn_since sn),
           si_stop_signal =
             (case (case cfg of None \<Rightarrow> None | Some c \<Rightarrow> svc_stop_signal c) of
                Some s \<Rightarrow> signal_debug (stop_signal_sig s) | None \<Rightarrow> ''SIGTERM''),
           si_on_success = policy svc_on_success, si_on_failure = policy svc_on_failure \<rparr>)"

definition get_service_infos :: "string list \<Rightarrow> overlord \<Rightarrow> service_info list" where
  "get_service_infos names ov =
     map (service_info_of ov)
       (filter (\<lambda>e. names = [] \<or> sn_name (se_snapshot e) \<in> set names) (map snd (ov_services ov)))"

text \<open>A check actor asked for its status takes its mailbox first; one that has ended gives none.\<close>

fun take_check_mail :: "nat \<Rightarrow> check_cmd list \<Rightarrow> check_actor \<Rightarrow> check_actor" where
  "take_check_mail now [] a = a"
| "take_check_mail now (c # cs) a =
     (if check_enabled a (CkCmd now (Some c)) then take_check_mail now cs (check_command now (Some c) a) else a)"

definition query_check :: "ctx \<Rightarrow> chk_entry \<Rightarrow> check_info option \<times> chk_entry" where
  "query_check cx e =
     (let a = take_check_mail (cx_mono cx) (ke_mail e) (ke_actor e) in
      if check_enabled a (CkCmd (cx_mono cx) (Some GetStatus))
      then (Some (case ck_phase a of Delaying _ \<Rightarrow> delay_info a | _ \<Rightarrow> loop_info (cx_mono cx) a),
            e\<lparr>ke_actor := check_command (cx_mono cx) (Some GetStatus) a, ke_mail := []\<rparr>)
      else (None, e\<lparr>ke_actor := a, ke_mail := []\<rparr>))"

definition query_checks :: "ctx \<Rightarrow> string list \<Rightarrow> overlord \<Rightarrow> overlord \<times> check_info list" where
  "query_checks cx names ov =
     (let wanted = (\<lambda>n. names = [] \<or> n \<in> set names) in
      (ov\<lparr>ov_checks := map (\<lambda>(n, e). (n, if wanted n then snd (query_check cx e) else e)) (ov_checks ov)\<rparr>,
       List.map_filter (\<lambda>(n, e). if wanted n then fst (query_check cx e) else None) (ov_checks ov)))"

definition query_alerts :: "string list \<Rightarrow> overlord \<Rightarrow> alert_info list" where
  "query_alerts names ov =
     map (\<lambda>(n, cfg). \<lparr>
         ai_name = n, ai_url = al_url cfg, ai_format = al_format cfg, ai_on_check = al_on_check cfg,
         ai_check_status = map (\<lambda>c. \<lparr> acs_check = c, acs_status = alert_check_status_of (ov_alerts ov) c \<rparr>) (al_on_check cfg) \<rparr>)
       (filter (\<lambda>(n, _). names = [] \<or> n \<in> set names) (plan_alerts (ov_plan ov)))"

definition system_info_of :: "ctx \<Rightarrow> overlord \<Rightarrow> system_info" where
  "system_info_of cx ov = \<lparr>
     sys_boot_id = ov_boot_id ov, sys_http_address = ov_http_address ov, sys_https_address = ov_https_address ov,
     sys_version = cx_version cx, sys_start_time = ov_start_time ov \<rparr>"

subsection \<open>Command dispatch\<close>

datatype ov_cmd =
    OvServices service_action "string list"
  | OvGetServices "string list"
  | OvGetChanges "string option"
  | OvGetChecks "string list"
  | OvGetAlerts "string list"
  | OvGetSystemInfo
  | OvReloadLayers
  | OvForwardSignal signal
  | OvShutdown

datatype ov_reply =
    ReplyChange change_info
  | ReplyServices "service_info list"
  | ReplyChanges "change_info list"
  | ReplyChecks "check_info list"
  | ReplyAlerts "alert_info list"
  | ReplySystem system_info
  | ReplyReload "ov_error + unit"
  | NoReply

definition handle_cmd :: "ctx \<Rightarrow> ov_cmd \<Rightarrow> overlord \<Rightarrow> (overlord \<times> ov_reply) outcome" where
  "handle_cmd cx cmd ov =
     (case cmd of
        OvServices action names \<Rightarrow>
          and_then (handle_services_action cx action names ov) (\<lambda>(ov', c). Finished (ov', ReplyChange c))
      | OvGetServices names \<Rightarrow> Finished (ov, ReplyServices (get_service_infos names ov))
      | OvGetChanges None \<Rightarrow> Finished (ov, ReplyChanges (ov_changes ov))
      | OvGetChanges (Some i) \<Rightarrow> Finished (ov, ReplyChanges (filter (\<lambda>c. ch_id c = i) (ov_changes ov)))
      | OvGetChecks names \<Rightarrow> (case query_checks cx names ov of (ov', infos) \<Rightarrow> Finished (ov', ReplyChecks infos))
      | OvGetAlerts names \<Rightarrow> Finished (ov, ReplyAlerts (query_alerts names ov))
      | OvGetSystemInfo \<Rightarrow> Finished (ov, ReplySystem (system_info_of cx ov))
      | OvReloadLayers \<Rightarrow> and_then (reload_layers cx ov) (\<lambda>(ov', r). Finished (ov', ReplyReload r))
      | OvForwardSignal sig \<Rightarrow> Finished (forward_signal sig ov, NoReply)
      | OvShutdown \<Rightarrow> OvPanicked)"

subsection \<open>The main loop\<close>

datatype daemon =
    Serving overlord
  | ShutDown overlord
  | ExitedWithCode int overlord
  | Hung
  | Dead

definition daemon_of :: "(overlord \<times> int option) outcome \<Rightarrow> daemon" where
  "daemon_of r =
     (case r of
        Finished (ov, None) \<Rightarrow> Serving ov
      | Finished (ov, Some code) \<Rightarrow> ExitedWithCode code ov
      | Deadlocked \<Rightarrow> Hung
      | OvPanicked \<Rightarrow> Dead)"

definition overlord_new :: "ctx \<Rightarrow> plan \<Rightarrow> string \<Rightarrow> string \<Rightarrow> string option \<Rightarrow> overlord outcome" where
  "overlord_new cx p boot_id http https =
     (case (case alert_limits p of (depth, age) \<Rightarrow> with_queue_limits depth age) of
        None \<Rightarrow> OvPanicked
      | Some al \<Rightarrow> Finished \<lparr>
          ov_plan = p, ov_services = [], ov_checks = [], ov_alerts = update_alerts (cx_client cx) (plan_alerts p) al,
          ov_changes = [], ov_change_counter = 0, ov_boot_id = boot_id, ov_start_time = cx_now cx,
          ov_http_address = http, ov_https_address = https, ov_events = [], ov_check_events = [],
          ov_pending = [], ov_removed_services = [], ov_removed_checks = [], ov_trace = [] \<rparr>)"

definition overlord_run :: "ctx \<Rightarrow> overlord \<Rightarrow> daemon" where
  "overlord_run cx ov =
     daemon_of (and_then (autostart cx (sync_actors cx ov)) (\<lambda>ov'. Finished (ov', None)))"

definition on_command :: "ctx \<Rightarrow> ov_cmd option \<Rightarrow> overlord \<Rightarrow> daemon" where
  "on_command cx cmd ov =
     (case cmd of
        None \<Rightarrow> (case stop_all cx ov of Finished ov' \<Rightarrow> ShutDown ov' | Deadlocked \<Rightarrow> Hung | OvPanicked \<Rightarrow> Dead)
      | Some OvShutdown \<Rightarrow> (case stop_all cx ov of Finished ov' \<Rightarrow> ShutDown ov' | Deadlocked \<Rightarrow> Hung | OvPanicked \<Rightarrow> Dead)
      | Some c \<Rightarrow> (case handle_cmd cx c ov of Finished (ov', _) \<Rightarrow> Serving ov' | Deadlocked \<Rightarrow> Hung | OvPanicked \<Rightarrow> Dead))"

definition on_service_event :: "ctx \<Rightarrow> svc_event \<Rightarrow> overlord \<Rightarrow> daemon" where
  "on_service_event cx ev ov =
     daemon_of (and_then (handle_svc_event cx ev ov) (\<lambda>(ov1, code).
       case code of
         None \<Rightarrow> Finished (ov1, None)
       | Some exit_code \<Rightarrow> and_then (stop_all cx ov1) (\<lambda>ov2. Finished (ov2, Some exit_code))))"

text \<open>
  A service actor's own step: it takes a command from its mailbox, or an exit or timer fires
  while the mailbox is empty (its \<open>select!\<close> is biased). It needs \<open>room\<close> for its events.
\<close>

definition entry_step :: "os \<Rightarrow> string \<Rightarrow> loop_event \<Rightarrow> nat \<Rightarrow> svc_entry \<Rightarrow> (svc_entry \<times> svc_event list) option" where
  "entry_step os name ev room e =
     (let mail = (case ev of
                    OnCmd c \<Rightarrow> (case se_mail e of [] \<Rightarrow> None | c' # cs \<Rightarrow> if c = c' then Some cs else None)
                  | OnChannelClosed \<Rightarrow> None
                  | _ \<Rightarrow> if se_mail e = [] then Some [] else None);
          b = dispatch os ev (se_actor e);
          evs = events_between name (se_actor e) b
      in case mail of
           None \<Rightarrow> None
         | Some cs \<Rightarrow>
             if enabled (se_actor e) ev \<and> length evs \<le> room then Some (e\<lparr>se_actor := b, se_mail := cs\<rparr>, evs) else None)"

definition actor_step :: "ctx \<Rightarrow> string \<Rightarrow> loop_event \<Rightarrow> overlord \<Rightarrow> overlord option" where
  "actor_step cx name ev ov =
     (case map_of (ov_services ov) name of
        None \<Rightarrow> None
      | Some e \<Rightarrow>
          (case entry_step (cx_os cx name) name ev (event_capacity - length (ov_events ov)) e of
             None \<Rightarrow> None
           | Some (e', evs) \<Rightarrow>
               Some (ov\<lparr>ov_services := im_insert name e' (ov_services ov), ov_events := ov_events ov @ evs\<rparr>)))"

text \<open>An actor whose service left the plan runs on until it has taken the shutdown.\<close>

definition removed_step :: "ctx \<Rightarrow> nat \<Rightarrow> loop_event \<Rightarrow> overlord \<Rightarrow> overlord option" where
  "removed_step cx i ev ov =
     (if i < length (ov_removed_services ov)
      then (case ov_removed_services ov ! i of (name, e) \<Rightarrow>
             (case entry_step (cx_os cx name) name ev (event_capacity - length (ov_events ov)) e of
                None \<Rightarrow> None
              | Some (e', evs) \<Rightarrow>
                  Some (ov\<lparr>ov_removed_services := (ov_removed_services ov)[i := (name, e')],
                           ov_events := ov_events ov @ evs\<rparr>)))
      else None)"

text \<open>A check actor's own step, likewise.\<close>

definition check_events_between :: "check_actor \<Rightarrow> check_actor \<Rightarrow> check_event list" where
  "check_events_between s t =
     List.map_filter (\<lambda>e. case e of SendEvent ev \<Rightarrow> Some ev | _ \<Rightarrow> None) (drop (length (ck_out s)) (ck_out t))"

definition check_entry_step :: "check_input \<Rightarrow> nat \<Rightarrow> chk_entry \<Rightarrow> (chk_entry \<times> check_event list) option" where
  "check_entry_step i room e =
     (let mail = (case i of
                    CkCmd _ (Some c) \<Rightarrow> (case ke_mail e of [] \<Rightarrow> None | c' # cs \<Rightarrow> if c = c' then Some cs else None)
                  | CkCmd _ None \<Rightarrow> None
                  | _ \<Rightarrow> if ke_mail e = [] then Some [] else None);
          b = check_dispatch i (ke_actor e);
          evs = check_events_between (ke_actor e) b
      in case mail of
           None \<Rightarrow> None
         | Some cs \<Rightarrow>
             if check_enabled (ke_actor e) i \<and> length evs \<le> room then Some (e\<lparr>ke_actor := b, ke_mail := cs\<rparr>, evs) else None)"

definition check_actor_step :: "string \<Rightarrow> check_input \<Rightarrow> overlord \<Rightarrow> overlord option" where
  "check_actor_step name i ov =
     (case map_of (ov_checks ov) name of
        None \<Rightarrow> None
      | Some e \<Rightarrow>
          (case check_entry_step i (event_capacity - length (ov_check_events ov)) e of
             None \<Rightarrow> None
           | Some (e', evs) \<Rightarrow>
               Some (ov\<lparr>ov_checks := im_insert name e' (ov_checks ov), ov_check_events := ov_check_events ov @ evs\<rparr>)))"

definition removed_check_step :: "nat \<Rightarrow> check_input \<Rightarrow> overlord \<Rightarrow> overlord option" where
  "removed_check_step k i ov =
     (if k < length (ov_removed_checks ov)
      then (case ov_removed_checks ov ! k of (name, e) \<Rightarrow>
             (case check_entry_step i (event_capacity - length (ov_check_events ov)) e of
                None \<Rightarrow> None
              | Some (e', evs) \<Rightarrow>
                  Some (ov\<lparr>ov_removed_checks := (ov_removed_checks ov)[k := (name, e')],
                           ov_check_events := ov_check_events ov @ evs\<rparr>)))
      else None)"

inductive daemon_step :: "daemon \<Rightarrow> daemon \<Rightarrow> bool" where
  step_command: "daemon_step (Serving ov) (on_command cx cmd ov)"
| step_service_event: "ov_events ov = ev # evs \<Longrightarrow>
    daemon_step (Serving ov) (on_service_event cx ev (ov\<lparr>ov_events := evs\<rparr>))"
| step_check_event: "ov_events ov = [] \<Longrightarrow> ov_check_events ov = ev # evs \<Longrightarrow>
    daemon_step (Serving ov) (daemon_of (handle_check_event cx ev (ov\<lparr>ov_check_events := evs\<rparr>)))"
| step_actor: "actor_step cx name ev ov = Some ov' \<Longrightarrow> daemon_step (Serving ov) (Serving ov')"
| step_removed: "removed_step cx i ev ov = Some ov' \<Longrightarrow> daemon_step (Serving ov) (Serving ov')"
| step_check_actor: "check_actor_step name i ov = Some ov' \<Longrightarrow> daemon_step (Serving ov) (Serving ov')"
| step_removed_check: "removed_check_step k i ov = Some ov' \<Longrightarrow> daemon_step (Serving ov) (Serving ov')"

inductive_cases daemon_stepE: "daemon_step s t"

definition daemon_init :: "daemon \<Rightarrow> bool" where
  "daemon_init d \<longleftrightarrow> (\<exists>cx p boot_id http https ov. load_plan (cx_layers cx) = Inr p \<and>
     overlord_new cx p boot_id http https = Finished ov \<and> d = overlord_run cx ov)"

end
