(* ===== verification/OverlordFrames.thy ===== *)
theory OverlordFrames
  imports OverlordCmd ServiceProcs
begin

text \<open>
  Frames for the overlord: what a command to an actor changes and what it leaves alone, when it
  finishes, and how a handler that sends many commands adds up.
\<close>

subsection \<open>Sent commands and frames\<close>

definition sent :: "overlord \<Rightarrow> (string \<times> svc_cmd) list" where
  "sent ov = List.map_filter (\<lambda>e. case e of SentSvc n c \<Rightarrow> Some (n, c) | _ \<Rightarrow> None) (ov_trace ov)"

text \<open>What a command to an actor leaves alone: the plan, the snapshots, the pending list, ...\<close>

definition snapshot_of_service :: "overlord \<Rightarrow> string \<Rightarrow> snapshot option" where
  "snapshot_of_service ov n = map_option se_snapshot (map_of (ov_services ov) n)"

definition same_view :: "overlord \<Rightarrow> overlord \<Rightarrow> bool" where
  "same_view a b \<longleftrightarrow> ov_plan b = ov_plan a \<and> snapshot_of_service b = snapshot_of_service a \<and>
     im_keys (ov_services b) = im_keys (ov_services a) \<and> ov_checks b = ov_checks a \<and> ov_alerts b = ov_alerts a \<and>
     ov_changes b = ov_changes a \<and> ov_change_counter b = ov_change_counter a"

lemma same_view_refl [simp]: "same_view a a"
  by (simp add: same_view_def)

lemma same_view_trans: "same_view a b \<Longrightarrow> same_view b c \<Longrightarrow> same_view a c"
  by (simp add: same_view_def)

lemma ov_log_fields [simp]:
  "ov_plan (ov_log e ov) = ov_plan ov" "ov_services (ov_log e ov) = ov_services ov"
  "ov_checks (ov_log e ov) = ov_checks ov" "ov_alerts (ov_log e ov) = ov_alerts ov"
  "ov_changes (ov_log e ov) = ov_changes ov" "ov_change_counter (ov_log e ov) = ov_change_counter ov"
  "ov_events (ov_log e ov) = ov_events ov" "ov_pending (ov_log e ov) = ov_pending ov"
  "ov_trace (ov_log e ov) = ov_trace ov @ [e]"
  by (simp_all add: ov_log_def)

lemma snapshot_updates [simp]:
  "snapshot_of_service (ov_log e ov) = snapshot_of_service ov"
  "snapshot_of_service (ov\<lparr>ov_pending := p\<rparr>) = snapshot_of_service ov"
  by (simp_all add: ov_log_def snapshot_of_service_def fun_eq_iff)

lemma dep_running_view: "same_view a b \<Longrightarrow> dep_running b = dep_running a"
proof -
  have eq: "dep_running ov n = (case snapshot_of_service ov n of Some sn \<Rightarrow> is_running (sn_state sn) | None \<Rightarrow> False)" for ov n
    by (simp add: dep_running_def snapshot_of_service_def split: option.splits)
  assume "same_view a b"
  then show ?thesis by (auto simp: eq same_view_def)
qed

lemma after_deps_view: "same_view a b \<Longrightarrow> after_deps_running b = after_deps_running a"
proof (rule ext)
  fix n
  assume v: "same_view a b"
  then have "ov_plan b = ov_plan a" by (simp add: same_view_def)
  then show "after_deps_running b n = after_deps_running a n"
    by (simp only: after_deps_running_def dep_running_view [OF v])
qed

subsection \<open>Live actors\<close>

lemma dispatch_running: "c \<noteq> CmdShutdown \<Longrightarrow> a_running (dispatch os (OnCmd c) a) = a_running a"
proof (cases c)
  case CmdStart
  then show ?thesis by (cases rule: handle_start_cases [of a os]) (simp_all add: actor_simps)
next
  case CmdRestart
  have start: "a_running (handle_start os a) = a_running a"
    by (cases rule: handle_start_cases [of a os]) (simp_all add: actor_simps)
  show ?thesis
  proof (cases "is_running (a_state a) \<or> a_state a = Stopping")
    case True
    show ?thesis by (simp add: CmdRestart handle_restart_busy [OF True] actor_simps)
  next
    case False
    then show ?thesis by (simp add: CmdRestart handle_restart_idle start)
  qed
qed (simp_all add: handle_stop_def actor_simps)

lemma take_mail_running: "CmdShutdown \<notin> set cs \<Longrightarrow> a_running (take_mail os cs a) = a_running a"
proof (induction cs arbitrary: a)
  case (Cons c cs)
  then have "c \<noteq> CmdShutdown" "CmdShutdown \<notin> set cs" by auto
  with Cons.IH [OF this(2)] dispatch_running [OF this(1), of os a] show ?case
    by (cases "a_running a") (simp_all del: dispatch.simps)
qed simp

definition alive :: "svc_entry \<Rightarrow> bool" where
  "alive e \<longleftrightarrow> a_running (se_actor e) \<and> CmdShutdown \<notin> set (se_mail e)"

definition all_alive :: "overlord \<Rightarrow> bool" where
  "all_alive ov \<longleftrightarrow> (\<forall>n e. map_of (ov_services ov) n = Some e \<longrightarrow> alive e)"

definition known :: "overlord \<Rightarrow> string \<Rightarrow> bool" where
  "known ov n \<longleftrightarrow> im_contains (ov_services ov) n"

lemma known_view: "same_view a b \<Longrightarrow> known b = known a"
  by (simp add: same_view_def known_def im_contains_iff fun_eq_iff) (metis image_set)

lemma sent_log: "sent (ov_log e ov) = sent ov @ (case e of SentSvc n c \<Rightarrow> [(n, c)] | _ \<Rightarrow> [])"
  by (simp add: sent_def map_filter_def split: ov_effect.splits)

lemma svc_cmd_view:
  assumes "svc_cmd_result cx n c ov = Finished (ov', r)" and "all_alive ov" and "c \<noteq> CmdShutdown"
  shows "same_view ov ov' \<and> all_alive ov' \<and> ov_pending ov' = ov_pending ov \<and>
    sent ov' = sent ov @ (if known ov n then [(n, c)] else []) \<and> (known ov n \<longrightarrow> r \<noteq> Inl (UnknownService n))"
proof (cases "map_of (ov_services ov) n")
  case None
  with assms show ?thesis by (simp add: svc_cmd_result_def known_def im_contains_def)
next
  case (Some e)
  let ?a = "take_mail (cx_os cx n) (se_mail e) (se_actor e)"
  let ?b = "dispatch (cx_os cx n) (OnCmd c) ?a"
  let ?ev = "events_between n (se_actor e) ?b"
  let ?o = "ov\<lparr>ov_services := im_insert n (e\<lparr>se_actor := ?b, se_mail := []\<rparr>) (ov_services ov), ov_events := ov_events ov @ ?ev\<rparr>"
  from assms(2) Some have "alive e" by (simp add: all_alive_def)
  then have run: "a_running ?a" "a_running ?b"
    using take_mail_running dispatch_running [OF assms(3)] by (auto simp: alive_def simp del: dispatch.simps)
  from assms(1) Some run have o: "ov' = ov_log (SentSvc n c) ?o" "r \<noteq> Inl (UnknownService n)"
    by (auto simp: svc_cmd_result_def Let_def simp del: dispatch.simps split: if_splits option.splits sum.splits)
  have "n \<in> fst ` set (ov_services ov)" using Some by (metis map_of_eq_None_iff option.distinct(1))
  then have "im_keys (im_insert n (e\<lparr>se_actor := ?b, se_mail := []\<rparr>) (ov_services ov)) = im_keys (ov_services ov)"
    by (simp add: keys_im_insert)
  moreover have "snapshot_of_service ?o = snapshot_of_service ov"
    using Some by (auto simp: snapshot_of_service_def fun_eq_iff simp del: dispatch.simps)
  moreover have "known ov n" using Some by (simp add: known_def im_contains_def)
  moreover have "all_alive ?o" using assms(2) run(2) by (auto simp: all_alive_def alive_def simp del: dispatch.simps)
  moreover have "sent ?o = sent ov" by (simp add: sent_def)
  ultimately show ?thesis
    using o by (simp add: same_view_def sent_log all_alive_def del: dispatch.simps)
qed

lemma send_svc_view:
  assumes "send_svc cx c n ov = Finished ov'" and "all_alive ov" and "c \<noteq> CmdShutdown"
  shows "same_view ov ov' \<and> all_alive ov' \<and> ov_pending ov' = ov_pending ov \<and>
    sent ov' = sent ov @ (if known ov n then [(n, c)] else [])"
proof -
  from assms(1) obtain r where "svc_cmd_result cx n c ov = Finished (ov', r)"
    by (cases "svc_cmd_result cx n c ov") (auto simp: send_svc_def)
  from svc_cmd_view [OF this assms(2,3)] show ?thesis by blast
qed

lemma and_then_Finished: "and_then x f = Finished y \<longleftrightarrow> (\<exists>z. x = Finished z \<and> f z = Finished y)"
  by (cases x) auto

text \<open>Running a step for each element: an invariant carries over, the sent commands add up.\<close>

lemma each_induct:
  assumes "each f xs s = Finished t" and "I s"
    and "\<And>x s t. x \<in> set xs \<Longrightarrow> f x s = Finished t \<Longrightarrow> I s \<Longrightarrow> I t \<and> g t = g s @ h x"
  shows "I t \<and> g t = g s @ concat (map h xs)"
  using assms
proof (induction xs arbitrary: s)
  case (Cons x xs)
  from Cons.prems(1) obtain u where u: "f x s = Finished u" "each f xs u = Finished t"
    by (auto simp: and_then_Finished)
  from Cons.prems(3) [OF _ u(1) Cons.prems(2)] have "I u" "g u = g s @ h x" by auto
  moreover have "I t \<and> g t = g u @ concat (map h xs)"
  proof (rule Cons.IH [OF u(2) \<open>I u\<close>])
    fix y a b
    assume "y \<in> set xs" "f y a = Finished b" "I a"
    with Cons.prems(3) [of y a b] show "I b \<and> g b = g a @ h y" by simp
  qed
  ultimately show ?case by simp
qed simp

lemma each_send:
  assumes "each (send_svc cx c) ns ov = Finished ov'" and "all_alive ov" and "c \<noteq> CmdShutdown"
  shows "same_view ov ov' \<and> all_alive ov' \<and> ov_pending ov' = ov_pending ov \<and>
    sent ov' = sent ov @ map (\<lambda>n. (n, c)) (filter (known ov) ns)"
proof -
  let ?I = "\<lambda>x. same_view ov x \<and> all_alive x \<and> ov_pending x = ov_pending ov"
  have "?I ov' \<and> sent ov' = sent ov @ concat (map (\<lambda>n. if known ov n then [(n, c)] else []) ns)"
  proof (rule each_induct [OF assms(1)])
    show "?I ov" using assms(2) by simp
    fix n s t assume "send_svc cx c n s = Finished t" "?I s"
    with send_svc_view [of cx c n s t] assms(3) known_view [of ov s]
    show "?I t \<and> sent t = sent s @ (if known ov n then [(n, c)] else [])"
      using same_view_trans by auto
  qed
  moreover have "concat (map (\<lambda>n. if known ov n then [(n, c)] else []) ns) = map (\<lambda>n. (n, c)) (filter (known ov) ns)"
    by (induction ns) auto
  ultimately show ?thesis by simp
qed

subsection \<open>When a command finishes\<close>

lemma events_between_append: "a_trace t = a_trace s @ xs \<Longrightarrow> events_between n s t =
    List.map_filter (\<lambda>e. case e of EEvent k \<Rightarrow> Some \<lparr>ev_service = n, ev_kind = k\<rparr> | _ \<Rightarrow> None) xs"
  by (simp add: events_between_def)

lemma map_filter_append [simp]: "List.map_filter f (xs @ ys) = List.map_filter f xs @ List.map_filter f ys"
  by (simp add: map_filter_def)

lemma map_filter_Cons [simp]: "List.map_filter f (x # xs) = (case f x of None \<Rightarrow> [] | Some y \<Rightarrow> [y]) @ List.map_filter f xs"
  by (simp add: map_filter_def split: option.splits)

lemma map_filter_Nil [simp]: "List.map_filter f [] = []"
  by (simp add: map_filter_def)

lemma start_events:
  assumes "\<not> is_running (a_state a)" and "a_state a \<noteq> Stopping"
  shows "length (events_between n a (handle_start os a)) = 2"
proof (cases rule: handle_start_cases [of a os])
  case (fails e)
  have "a_trace (handle_start os a) = a_trace a @ [EServiceActive False, EEvent (StateChanged Starting),
      EServiceActive False, EEvent (StateChanged ErrorState), EReply (Inl e)]"
    by (simp add: fails(3) actor_simps)
  from events_between_append [OF this] show ?thesis by simp
next
  case (starts req pid)
  let ?f = "\<lambda>e. case e of EEvent k \<Rightarrow> Some \<lparr>ev_service = n, ev_kind = k\<rparr> | _ \<Rightarrow> None"
  obtain rd where t: "a_trace (handle_start os a) = a_trace a @ ([EServiceActive False, EEvent (StateChanged Starting), ESpawn req pid] @ rd @
      [EServiceStart, EServiceActive True, EEvent (StateChanged Active), EReply (Inr ())])" and rd: "List.map_filter ?f rd = []"
    by (rule that [of "if log_mode_of (transition os Starting a) = Passthrough then []
      else [EReader Stdout (log_mode_of (transition os Starting a) = LogsEnabled),
            EReader Stderr (log_mode_of (transition os Starting a) = LogsEnabled)]"])
      (simp_all add: starts(3) actor_simps)
  from events_between_append [OF t, of n] rd show ?thesis by simp
qed (use assms in auto)

lemma stop_signal_trace: "\<exists>ks. a_trace (send_stop_signal os a) = a_trace a @ ks \<and> (\<forall>e \<in> set ks. \<exists>p sig. e = EKill p sig)"
  using kills_only_senders(2) [of a os] by (auto simp: kills_only_def)

lemma no_events_in_kills: "\<forall>e \<in> set ks. \<exists>p sig. e = EKill p sig \<Longrightarrow>
    List.map_filter (\<lambda>e. case e of EEvent k \<Rightarrow> Some \<lparr>ev_service = n, ev_kind = k\<rparr> | _ \<Rightarrow> None) ks = []"
  by (induction ks) auto

lemma signal_stop_events:
  assumes "a_trace b = a_trace (send_stop_signal os a) @ [EServiceActive x, EEvent k, EReply r]"
  shows "length (events_between n a b) = 1"
proof -
  obtain ks where ks: "a_trace (send_stop_signal os a) = a_trace a @ ks" "\<forall>e \<in> set ks. \<exists>p sig. e = EKill p sig"
    using stop_signal_trace by blast
  then have "a_trace b = a_trace a @ (ks @ [EServiceActive x, EEvent k, EReply r])" using assms by simp
  from events_between_append [OF this] no_events_in_kills [OF ks(2)] show ?thesis by simp
qed

lemma stop_events: "length (events_between n a (handle_stop os a)) \<le> 1"
proof -
  consider "a_state a \<in> {Inactive, ErrorState, Stopping}" | "a_state a = Backoff" | "a_state a \<in> {Starting, Active}"
    by (cases "a_state a") auto
  then show ?thesis
  proof cases
    case 1
    then have "a_trace (handle_stop os a) = a_trace a @ [EReply (Inr ())]"
      by (auto simp: handle_stop_def actor_simps)
    from events_between_append [OF this] show ?thesis by simp
  next
    case 2
    then have "a_trace (handle_stop os a) = a_trace a @ [EServiceActive False, EEvent (StateChanged Inactive), EReply (Inr ())]"
      by (auto simp: handle_stop_def actor_simps)
    from events_between_append [OF this] show ?thesis by simp
  next
    case 3
    then have "a_trace (handle_stop os a) = a_trace (send_stop_signal os a) @ [EServiceActive False, EEvent (StateChanged Stopping), EReply (Inr ())]"
      by (auto simp: handle_stop_def actor_simps)
    from signal_stop_events [OF this] show ?thesis by simp
  qed
qed

lemma start_events_le: "length (events_between n a (handle_start os a)) \<le> 2"
proof (cases "is_running (a_state a) \<or> a_state a = Stopping")
  case True
  then obtain r where "handle_start os a = emit (EReply r) a"
    by (cases rule: handle_start_cases [of a os]) auto
  then have "a_trace (handle_start os a) = a_trace a @ [EReply r]" by (simp add: actor_simps)
  from events_between_append [OF this] show ?thesis by simp
qed (simp add: start_events)

lemma restart_events_le: "length (events_between n a (handle_restart os a)) \<le> 2"
proof (cases "is_running (a_state a) \<or> a_state a = Stopping")
  case True
  have "a_trace (handle_restart os a) = a_trace (send_stop_signal os a) @ [EServiceActive False, EEvent (StateChanged Stopping), EReply (Inr ())]"
    by (simp add: handle_restart_busy [OF True] actor_simps)
  from signal_stop_events [OF this] show ?thesis by simp
qed (simp add: handle_restart_idle start_events_le)

lemma command_events: "c \<in> {CmdStart, CmdStop, CmdRestart} \<Longrightarrow>
    length (events_between n a (dispatch os (OnCmd c) a)) \<le> 2"
  using start_events_le [of n a os] stop_events [of n a os] restart_events_le [of n a os] by auto

lemma svc_cmd_finishes:
  assumes "c \<in> {CmdStart, CmdStop, CmdRestart}" and "\<And>e. map_of (ov_services ov) n = Some e \<Longrightarrow> se_mail e = []"
    and "length (ov_events ov) + 2 \<le> event_capacity"
  shows "\<exists>ov' r. svc_cmd_result cx n c ov = Finished (ov', r)"
proof (cases "map_of (ov_services ov) n")
  case None
  then show ?thesis by (simp add: svc_cmd_result_def)
next
  case (Some e)
  let ?b = "if a_running (se_actor e) then dispatch (cx_os cx n) (OnCmd c) (se_actor e) else se_actor e"
  have "length (events_between n (se_actor e) ?b) \<le> 2"
    using command_events [OF assms(1)] events_between_append [of "se_actor e" "se_actor e" "[]"] by simp
  then have "\<not> event_capacity < length (ov_events ov) + length (events_between n (se_actor e) ?b)"
    using assms(3) by simp
  with Some assms(2) [OF Some] show ?thesis by (simp add: svc_cmd_result_def Let_def)
qed

subsection \<open>A small daemon\<close>

definition demo_alert_env :: alert_env where
  "demo_alert_env = \<lparr> ax_getenv = (\<lambda>_. None), ax_now = [], ax_now_nanos = [], ax_uuid = [], ax_version = [],
     ax_render = (\<lambda>_ _ _ _ _ _. None), ax_parse_json = (\<lambda>_. None) \<rparr>"

definition demo_cx :: ctx where
  "demo_cx = \<lparr> cx_now = 0, cx_mono = 0, cx_os = (\<lambda>_. calm_os), cx_layers = demo_fs, cx_client = (\<lambda>_. plain_client),
     cx_alert = demo_alert_env, cx_check_json = (\<lambda>_. []), cx_error_text = (\<lambda>_. ''error''), cx_version = ''0'' \<rparr>"

text \<open>\<open>web\<close> requires \<open>db\<close>; both are enabled.\<close>

definition demo_plan :: plan where
  "demo_plan = plan_default\<lparr>plan_services :=
     [(''db'', sleep_cfg\<lparr>svc_startup := Enabled\<rparr>),
      (''web'', sleep_cfg\<lparr>svc_startup := Enabled, svc_requires := [''db''], svc_on_check_failure := [(''c'', Restart)]\<rparr>)]\<rparr>"

definition demo_entry :: "string \<Rightarrow> service_state \<Rightarrow> svc_entry" where
  "demo_entry n st = \<lparr> se_snapshot = \<lparr>sn_name = n, sn_state = st, sn_since = 0, sn_startup = Enabled, sn_pid = None\<rparr>,
     se_actor = (actor_start calm_os n sleep_cfg)\<lparr>a_state := st\<rparr>, se_mail = [] \<rparr>"

definition demo_ov :: "service_state \<Rightarrow> service_state \<Rightarrow> overlord" where
  "demo_ov db web = \<lparr>
     ov_plan = demo_plan, ov_services = [(''db'', demo_entry ''db'' db), (''web'', demo_entry ''web'' web)],
     ov_checks = [], ov_alerts = \<lparr>sd_alerts = [], sd_state = [], sd_queue = [], sd_old = [], sd_max_age_secs = 60, sd_queue_depth = 256\<rparr>,
     ov_changes = [], ov_change_counter = 0, ov_boot_id = [], ov_start_time = 0, ov_http_address = [], ov_https_address = None,
     ov_events = [], ov_check_events = [], ov_pending = [], ov_removed_services = [], ov_removed_checks = [], ov_trace = [] \<rparr>"

lemma demo_services: "plan_services demo_plan = [(''db'', sleep_cfg\<lparr>svc_startup := Enabled\<rparr>),
      (''web'', sleep_cfg\<lparr>svc_startup := Enabled, svc_requires := [''db''], svc_on_check_failure := [(''c'', Restart)]\<rparr>)]"
  by (simp add: demo_plan_def)

lemma sleep_cfg_lists: "svc_after sleep_cfg = []" "svc_requires sleep_cfg = []" "svc_before sleep_cfg = []"
    "svc_on_check_failure sleep_cfg = []"
  by (simp_all add: sleep_cfg_def service_config_default_def)

lemma demo_entry_fields: "a_running (se_actor (demo_entry n st))" "se_mail (demo_entry n st) = []"
    "sn_state (se_snapshot (demo_entry n st)) = st"
  by (simp_all add: demo_entry_def actor_start_def actor_new_def sleep_cfg_def service_config_default_def)

lemma demo_ov_fields: "ov_plan (demo_ov db web) = demo_plan" "ov_events (demo_ov db web) = []" "ov_pending (demo_ov db web) = []"
    "sent (demo_ov db web) = []" "ov_services (demo_ov db web) = [(''db'', demo_entry ''db'' db), (''web'', demo_entry ''web'' web)]"
  by (simp_all add: demo_ov_def sent_def)

lemma demo_alive: "all_alive (demo_ov db web)"
  by (auto simp: all_alive_def demo_ov_fields alive_def demo_entry_fields split: if_splits)

lemma demo_mail: "map_of (ov_services (demo_ov db web)) n = Some e \<Longrightarrow> se_mail e = []"
  by (auto simp: demo_ov_fields demo_entry_fields split: if_splits)

lemma demo_running: "dep_running (demo_ov db web) n = (n = ''db'' \<and> is_running db \<or> n = ''web'' \<and> is_running web)"
  by (auto simp: dep_running_def demo_ov_fields demo_entry_fields)

lemma demo_deps: "after_deps_running (demo_ov db web) n = (n = ''web'' \<longrightarrow> is_running db)"
  by (auto simp: after_deps_running_def demo_ov_fields demo_services sleep_cfg_lists demo_running)

lemma demo_known: "known (demo_ov db web) n = (n \<in> {''db'', ''web''})"
  by (auto simp: known_def im_contains_def demo_ov_fields)

end
