(* ===== verification/OverlordProps.thy ===== *)
theory OverlordProps
  imports OverlordFrames
begin

text \<open>
  What the overlord promises about services: dependencies start first, and a required service that
  ends stops its dependents.
\<close>

subsection \<open>Starting in order\<close>









subsection \<open>The cascade of \<open>requires\<close>\<close>






end
