(* ===== verification/OverlordStart.thy ===== *)
theory OverlordStart
  imports OverlordFrames
begin

text \<open>
  What the overlord's actors are made of: the entries \<open>sync_actors\<close> adds, the configuration each
  actor keeps, and how far an autostart gets before the event channel is full.
\<close>

subsection \<open>New actors\<close>

lemma each_invariant:
  assumes "each f xs s = Finished t" and "I s"
    and "\<And>x s t. x \<in> set xs \<Longrightarrow> f x s = Finished t \<Longrightarrow> I s \<Longrightarrow> I t"
  shows "I t"
  using assms
proof (induction xs arbitrary: s)
  case (Cons x xs)
  from Cons.prems(1) obtain u where u: "f x s = Finished u" "each f xs u = Finished t"
    by (auto simp: and_then_Finished)
  have "I u" using Cons.prems(3) [OF _ u(1) Cons.prems(2)] by simp
  show ?case
  proof (rule Cons.IH [OF u(2) \<open>I u\<close>])
    fix y a b
    assume "y \<in> set xs" "f y a = Finished b" "I a"
    with Cons.prems(3) [of y a b] show "I b" by simp
  qed
qed simp

lemma sync_service_fields [simp]:
  "ov_plan (sync_service cx e ov) = ov_plan ov" "ov_events (sync_service cx e ov) = ov_events ov"
  "ov_pending (sync_service cx e ov) = ov_pending ov" "ov_changes (sync_service cx e ov) = ov_changes ov"
  "ov_change_counter (sync_service cx e ov) = ov_change_counter ov"
  "ov_checks (sync_service cx e ov) = ov_checks ov" "ov_alerts (sync_service cx e ov) = ov_alerts ov"
  by (simp_all add: sync_service_def split: prod.splits)

lemma sync_services_fields [simp]:
  "ov_plan (fold (sync_service cx) xs ov) = ov_plan ov" "ov_events (fold (sync_service cx) xs ov) = ov_events ov"
  "ov_pending (fold (sync_service cx) xs ov) = ov_pending ov" "ov_changes (fold (sync_service cx) xs ov) = ov_changes ov"
  "ov_change_counter (fold (sync_service cx) xs ov) = ov_change_counter ov"
  by (induction xs arbitrary: ov) simp_all

lemma sync_service_entry: "map_of (ov_services (sync_service cx (m, c) ov)) n =
    (case map_of (ov_services ov) n of Some e \<Rightarrow> Some e | None \<Rightarrow> if n = m then Some (new_svc_entry cx m c) else None)"
  by (auto simp: sync_service_def im_contains_def split: option.splits)

lemma sync_services_entries: "map_of (ov_services (fold (sync_service cx) xs ov)) n =
    (case map_of (ov_services ov) n of Some e \<Rightarrow> Some e | None \<Rightarrow> map_option (new_svc_entry cx n) (map_of xs n))"
proof (induction xs arbitrary: ov)
  case (Cons x xs)
  obtain m c where "x = (m, c)" by (cases x)
  with Cons.IH [of "sync_service cx x ov"] show ?case
    by (auto simp: sync_service_entry split: option.splits)
qed (simp split: option.splits)

lemma sync_check_fields [simp]:
  "ov_plan (sync_check cx e ov) = ov_plan ov" "ov_events (sync_check cx e ov) = ov_events ov"
  "ov_services (sync_check cx e ov) = ov_services ov" "ov_pending (sync_check cx e ov) = ov_pending ov"
  "ov_changes (sync_check cx e ov) = ov_changes ov" "ov_change_counter (sync_check cx e ov) = ov_change_counter ov"
  by (simp_all add: sync_check_def spawn_check_def Let_def split: prod.splits option.splits)

lemma sync_checks_fields [simp]:
  "ov_plan (fold (sync_check cx) xs ov) = ov_plan ov" "ov_events (fold (sync_check cx) xs ov) = ov_events ov"
  "ov_services (fold (sync_check cx) xs ov) = ov_services ov" "ov_pending (fold (sync_check cx) xs ov) = ov_pending ov"
  "ov_changes (fold (sync_check cx) xs ov) = ov_changes ov" "ov_change_counter (fold (sync_check cx) xs ov) = ov_change_counter ov"
  by (induction xs arbitrary: ov) simp_all

lemma sync_actors_fields [simp]:
  "ov_plan (sync_actors cx ov) = ov_plan ov" "ov_events (sync_actors cx ov) = ov_events ov"
  "ov_pending (sync_actors cx ov) = ov_pending ov" "ov_changes (sync_actors cx ov) = ov_changes ov"
  "ov_change_counter (sync_actors cx ov) = ov_change_counter ov"
  by (simp_all add: sync_actors_def Let_def)

lemma sync_actors_services: "map_of (ov_services (sync_actors cx ov)) n =
    (case map_of (ov_services ov) n of Some e \<Rightarrow> Some e | None \<Rightarrow> map_option (new_svc_entry cx n) (map_of (plan_services (ov_plan ov)) n))"
  by (simp add: sync_actors_def Let_def sync_services_entries)

lemma new_entry_fields [simp]:
  "se_mail (new_svc_entry cx n c) = []" "a_running (se_actor (new_svc_entry cx n c))"
  "a_state (se_actor (new_svc_entry cx n c)) = Inactive" "a_config (se_actor (new_svc_entry cx n c)) = c"
  "sn_name (se_snapshot (new_svc_entry cx n c)) = n"
  by (simp_all add: new_svc_entry_def actor_start_def actor_new_def Let_def actor_simps split: option.splits)

subsection \<open>A first start\<close>

lemma first_start:
  assumes "map_of (ov_services ov) n = Some (new_svc_entry cx n c)"
  shows "if event_capacity < length (ov_events ov) + 2 then svc_cmd_result cx n CmdStart ov = Deadlocked
    else \<exists>ov' r. svc_cmd_result cx n CmdStart ov = Finished (ov', r) \<and> ov_plan ov' = ov_plan ov \<and>
      length (ov_events ov') = length (ov_events ov) + 2 \<and>
      (\<forall>m. m \<noteq> n \<longrightarrow> map_of (ov_services ov') m = map_of (ov_services ov) m)"
proof -
  have "length (events_between n (se_actor (new_svc_entry cx n c)) (handle_start (cx_os cx n) (se_actor (new_svc_entry cx n c)))) = 2"
    by (rule start_events) simp_all
  then show ?thesis using assms by (simp add: svc_cmd_result_def Let_def)
qed

definition independent :: "plan \<Rightarrow> bool" where
  "independent p \<longleftrightarrow> (\<forall>n c. (n, c) \<in> set (plan_services p) \<longrightarrow> svc_after c = [] \<and> svc_requires c = [] \<and> svc_before c = [])"

lemma independent_deps: "independent (ov_plan ov) \<Longrightarrow> after_deps_running ov n"
  by (fastforce simp: after_deps_running_def independent_def list_all_iff dest: map_of_SomeD split: option.splits)

lemma autostart_fresh:
  assumes "independent (ov_plan s)" and "distinct ns" and "length (ov_events s) \<le> event_capacity"
    and "\<And>n. n \<in> set ns \<Longrightarrow> \<exists>c. map_of (ov_services s) n = Some (new_svc_entry cx n c)"
  shows "if event_capacity < length (ov_events s) + 2 * length ns then each (autostart_one cx) ns s = Deadlocked
    else \<exists>t. each (autostart_one cx) ns s = Finished t"
  using assms
proof (induction ns arbitrary: s)
  case (Cons n ns)
  from Cons.prems(4) obtain c where c: "map_of (ov_services s) n = Some (new_svc_entry cx n c)" by force
  have one: "autostart_one cx n s = send_svc cx CmdStart n s"
    using independent_deps [OF Cons.prems(1)] by (simp add: autostart_one_def)
  show ?case
  proof (cases "event_capacity < length (ov_events s) + 2")
    case True
    with first_start [OF c] show ?thesis by (simp add: one send_svc_def)
  next
    case False
    with first_start [OF c] obtain t r where t: "svc_cmd_result cx n CmdStart s = Finished (t, r)" "ov_plan t = ov_plan s"
        "length (ov_events t) = length (ov_events s) + 2" "\<And>m. m \<noteq> n \<Longrightarrow> map_of (ov_services t) m = map_of (ov_services s) m"
      by auto
    have "if event_capacity < length (ov_events t) + 2 * length ns then each (autostart_one cx) ns t = Deadlocked
      else \<exists>u. each (autostart_one cx) ns t = Finished u"
    proof (rule Cons.IH)
      fix m assume m: "m \<in> set ns"
      then have "m \<noteq> n" using Cons.prems(2) by auto
      from t(4) [OF this] Cons.prems(4) [of m] m
      show "\<exists>c. map_of (ov_services t) m = Some (new_svc_entry cx m c)" by simp
    qed (use Cons.prems t False in auto)
    then show ?thesis using t(1,3) by (simp add: one send_svc_def)
  qed
qed simp

subsection \<open>Autostart among the other actors\<close>

text \<open>
  \<open>autostart\<close> while the other tasks run: between two of its starts any service or check actor may take
  any step of its own, each with the state of the system at that moment. A run is one that gets
  through the whole list; the channel of events is not read meanwhile.
\<close>

inductive autostart_run :: "string list \<Rightarrow> overlord \<Rightarrow> overlord \<Rightarrow> bool" where
  all_sent: "autostart_run [] ov ov"
| next_start: "autostart_one cx n ov = Finished ov1 \<Longrightarrow> autostart_run ns ov1 ov2 \<Longrightarrow> autostart_run (n # ns) ov ov2"
| other_service: "actor_step cx m ev ov = Some ov1 \<Longrightarrow> autostart_run ns ov1 ov2 \<Longrightarrow> autostart_run ns ov ov2"
| other_check: "check_actor_step k i ov = Some ov1 \<Longrightarrow> autostart_run ns ov1 ov2 \<Longrightarrow> autostart_run ns ov ov2"

lemma run_of_each: "each (autostart_one cx) ns s = Finished t \<Longrightarrow> autostart_run ns s t"
  by (induction ns arbitrary: s) (auto simp: and_then_Finished intro: autostart_run.intros)

text \<open>A service nobody has started yet: its actor has nothing to do.\<close>

definition untouched :: "svc_entry \<Rightarrow> bool" where
  "untouched e \<longleftrightarrow> se_mail e = [] \<and> a_running (se_actor e) \<and> a_state (se_actor e) = Inactive \<and> a_child (se_actor e) = None \<and>
     a_stop_deadline (se_actor e) = None \<and> a_backoff_sleep (se_actor e) = None"

lemma untouched_new [simp]: "untouched (new_svc_entry cx n c)"
  by (simp add: untouched_def new_svc_entry_def actor_start_def actor_new_def Let_def actor_simps split: option.splits)

lemma untouched_stuck: "untouched e \<Longrightarrow> entry_step os n ev room e = None"
  by (cases ev) (auto simp: entry_step_def untouched_def Let_def)

lemma untouched_start:
  assumes "map_of (ov_services ov) n = Some e" and "untouched e" and "svc_cmd_result cx n CmdStart ov = Finished (ov', r)"
  shows "ov_plan ov' = ov_plan ov \<and> length (ov_events ov') = length (ov_events ov) + 2 \<and> length (ov_events ov') \<le> event_capacity \<and>
    (\<forall>m. m \<noteq> n \<longrightarrow> map_of (ov_services ov') m = map_of (ov_services ov) m)"
proof -
  have "length (events_between n (se_actor e) (handle_start (cx_os cx n) (se_actor e))) = 2"
    by (rule start_events) (use assms(2) in \<open>simp_all add: untouched_def\<close>)
  then show ?thesis
    using assms by (auto simp: svc_cmd_result_def untouched_def Let_def split: if_splits)
qed

lemma actor_step_others:
  assumes "actor_step cx m ev ov = Some ov1" and "length (ov_events ov) \<le> event_capacity"
  shows "ov_plan ov1 = ov_plan ov \<and> length (ov_events ov) \<le> length (ov_events ov1) \<and> length (ov_events ov1) \<le> event_capacity \<and>
    (\<forall>n e. map_of (ov_services ov) n = Some e \<longrightarrow> untouched e \<longrightarrow> map_of (ov_services ov1) n = Some e)"
proof -
  obtain e e' evs where e: "map_of (ov_services ov) m = Some e"
      "entry_step (cx_os cx m) m ev (event_capacity - length (ov_events ov)) e = Some (e', evs)"
      "ov1 = ov\<lparr>ov_services := im_insert m e' (ov_services ov), ov_events := ov_events ov @ evs\<rparr>"
    using assms(1) by (auto simp: actor_step_def split: option.splits)
  have "\<not> untouched e" using e(2) untouched_stuck by force
  moreover have "length evs \<le> event_capacity - length (ov_events ov)"
    using e(2) by (auto simp: entry_step_def Let_def split: option.splits if_splits)
  ultimately show ?thesis using e(1,3) assms(2) by auto
qed

lemma check_step_others: "check_actor_step k i ov = Some ov1 \<Longrightarrow>
    ov_plan ov1 = ov_plan ov \<and> ov_events ov1 = ov_events ov \<and> ov_services ov1 = ov_services ov"
  by (auto simp: check_actor_step_def split: option.splits)

lemma autostart_run_fills:
  assumes "autostart_run ns ov ov2" and "independent (ov_plan ov)" and "distinct ns" and "length (ov_events ov) \<le> event_capacity"
    and "\<forall>n \<in> set ns. \<exists>e. map_of (ov_services ov) n = Some e \<and> untouched e"
  shows "length (ov_events ov) + 2 * length ns \<le> event_capacity"
  using assms
proof (induction rule: autostart_run.induct)
  case (next_start cx n ov ov1 ns ov2)
  from next_start.prems(4) obtain e where e: "map_of (ov_services ov) n = Some e" "untouched e" by auto
  from next_start.hyps(1) obtain r where "svc_cmd_result cx n CmdStart ov = Finished (ov1, r)"
    using independent_deps [OF next_start.prems(1)] by (auto simp: autostart_one_def send_svc_def and_then_Finished)
  note started = untouched_start [OF e this]
  have "\<forall>m \<in> set ns. \<exists>e. map_of (ov_services ov1) m = Some e \<and> untouched e"
    using started next_start.prems(2,4) by (metis distinct.simps(2) list.set_intros(2))
  then have "length (ov_events ov1) + 2 * length ns \<le> event_capacity"
    using next_start.IH started next_start.prems(1,2) by simp
  with started show ?case by simp
next
  case (other_service cx m ev ov ov1 ns ov2)
  note o = actor_step_others [OF other_service.hyps(1) other_service.prems(3)]
  then have "\<forall>m \<in> set ns. \<exists>e. map_of (ov_services ov1) m = Some e \<and> untouched e"
    using other_service.prems(4) by metis
  then have "length (ov_events ov1) + 2 * length ns \<le> event_capacity"
    using other_service.IH o other_service.prems(1,2) by simp
  with o show ?case by simp
next
  case (other_check k i ov ov1 ns ov2)
  with check_step_others [OF other_check.hyps(1)] show ?case by simp
qed simp

text \<open>
  C8. The daemon hangs at startup when too much is enabled. With services that do not depend on each
  other, the first autostart can get through its list exactly when at most 128 of them are enabled,
  whatever the service and check actors do between two starts: each start puts two events into the
  event channel, which holds 256 and is not read until the autostart is over, and the overlord
  waits for the answer of an actor that waits for room. With more than 128 no run gets through; with
  fewer a run can, and one in which the started services send nothing more does. Whether every run
  does is not claimed: what a started service sends early takes room from the same channel.
\<close>

theorem startup_hangs:
  assumes "overlord_new cx p boot_id http https = Finished ov" and "independent p" and "distinct (im_keys (plan_services p))"
  shows "((\<exists>t. autostart_run (enabled_services ov) (sync_actors cx ov) t) \<longleftrightarrow> length (enabled_services ov) \<le> 128) \<and>
    (overlord_run cx ov = Hung \<longleftrightarrow> \<not> (\<exists>t. autostart_run (enabled_services ov) (sync_actors cx ov) t))"
proof -
  let ?s = "sync_actors cx ov"
  from assms(1) have ov: "ov_plan ov = p" "ov_services ov = []" "ov_events ov = []"
    by (auto simp: overlord_new_def split: option.splits)
  have en: "enabled_services ?s = enabled_services ov" by (simp add: enabled_services_def)
  have sub: "set (enabled_services ov) \<subseteq> set (im_keys (plan_services p))"
    by (auto simp: enabled_services_def ov)
  have dist: "distinct (enabled_services ov)"
    using assms(3) by (auto simp: enabled_services_def ov distinct_map inj_on_def)
  have new: "\<exists>c. map_of (ov_services ?s) n = Some (new_svc_entry cx n c)" if "n \<in> set (enabled_services ov)" for n
  proof -
    from that sub have "map_of (plan_services p) n \<noteq> None" by (auto simp: map_of_eq_None_iff)
    then show ?thesis by (auto simp: sync_actors_services ov)
  qed
  have det: "if event_capacity < 2 * length (enabled_services ov) then autostart cx ?s = Deadlocked
      else \<exists>t. autostart cx ?s = Finished t"
    using autostart_fresh [of ?s "enabled_services ov" cx] assms(2) dist new by (simp add: autostart_def en ov)
  have "length (enabled_services ov) \<le> 128" if "autostart_run (enabled_services ov) ?s t" for t
    using autostart_run_fills [OF that _ dist] assms(2) new by (fastforce simp: ov event_capacity_def)
  moreover have "\<exists>t. autostart_run (enabled_services ov) ?s t" if "length (enabled_services ov) \<le> 128"
    using det that run_of_each [of cx "enabled_services ov" ?s] by (auto simp: autostart_def en event_capacity_def)
  ultimately have "(\<exists>t. autostart_run (enabled_services ov) ?s t) \<longleftrightarrow> length (enabled_services ov) \<le> 128" by blast
  with det show ?thesis
    by (auto simp: overlord_run_def daemon_of_def event_capacity_def split: if_splits)
qed

definition crowd :: "nat \<Rightarrow> plan" where
  "crowd k = plan_default\<lparr>plan_services := map (\<lambda>i. (replicate i (CHR ''s''), sleep_cfg\<lparr>svc_startup := Enabled\<rparr>)) [0..<k]\<rparr>"

theorem startup_hangs_witness:
  "\<exists>ov. overlord_new demo_cx (crowd 129) [] [] None = Finished ov \<and> overlord_run demo_cx ov = Hung \<and>
     (\<forall>t. \<not> autostart_run (enabled_services ov) (sync_actors demo_cx ov) t)"
proof -
  have "alert_limits (crowd 129) = (256, 60000)"
    by (simp add: alert_limits_def crowd_def plan_default_def default_delivery_queue_def default_delivery_age_def duration_or_def)
  then obtain ov where ov: "overlord_new demo_cx (crowd 129) [] [] None = Finished ov"
    by (simp add: overlord_new_def with_queue_limits_def)
  then have plan: "ov_plan ov = crowd 129"
    by (auto simp: overlord_new_def split: option.splits)
  have "independent (crowd 129)"
    by (auto simp: independent_def crowd_def sleep_cfg_lists)
  moreover have "distinct (im_keys (plan_services (crowd 129)))"
    by (simp add: crowd_def comp_def distinct_map inj_on_def)
  moreover have "length (enabled_services ov) = 129"
    by (simp add: enabled_services_def plan crowd_def comp_def filter_map)
  ultimately show ?thesis using startup_hangs [OF ov] ov by auto
qed

end
