(* ===== verification/OverlordReload.thy ===== *)
theory OverlordReload
  imports OverlordStart
begin

text \<open>
  What a reload of the layers does to the actors: it keeps those of the services that stay, with
  the configuration they were spawned with, ends those of the services that left, and adds the new.
\<close>

subsection \<open>An actor never changes its configuration\<close>

lemma do_start_config: "do_start os a = (b, r) \<Longrightarrow> a_config b = a_config a \<and> a_name b = a_name a"
  by (cases rule: do_start_cases [of os a]) (auto simp: actor_simps)

lemma handle_start_result_config: "handle_start_result os a = (b, r) \<Longrightarrow> a_config b = a_config a \<and> a_name b = a_name a"
  by (auto simp: handle_start_result_def actor_simps split: prod.splits sum.splits if_splits dest!: do_start_config)

lemma apply_policy_config: "a_config (apply_policy os ok a) = a_config a \<and> a_name (apply_policy os ok a) = a_name a"
  by (auto simp: apply_policy_def next_backoff_def actor_simps Let_def split: option.splits on_exit.splits)

lemma dispatch_config: "a_config (dispatch os ev a) = a_config a \<and> a_name (dispatch os ev a) = a_name a"
proof (cases ev)
  case (OnCmd c)
  then show ?thesis
    by (cases c) (auto simp: handle_start_def handle_restart_def handle_stop_def leave_loop_def cleanup_def actor_simps
      split: prod.splits option.splits dest!: handle_start_result_config)
next
  case (OnChildExit e)
  then show ?thesis
    by (auto simp: handle_child_exit_def apply_policy_config actor_simps Let_def split: prod.splits sum.splits dest!: do_start_config)
next
  case OnBackoffExpired
  then show ?thesis
    by (auto simp: handle_backoff_expired_def actor_simps split: prod.splits sum.splits dest!: do_start_config)
qed (auto simp: leave_loop_def cleanup_def handle_kill_deadline_def actor_simps split: option.splits)

lemma take_mail_config: "a_config (take_mail os cs a) = a_config a"
  by (induction cs arbitrary: a) (simp_all add: dispatch_config del: dispatch.simps)

subsection \<open>The configuration in use\<close>

definition running_config :: "overlord \<Rightarrow> string \<Rightarrow> service_config option" where
  "running_config ov n = map_option (\<lambda>e. a_config (se_actor e)) (map_of (ov_services ov) n)"

lemma svc_cmd_config:
  assumes "svc_cmd_result cx n c ov = Finished (ov', r)"
  shows "running_config ov' = running_config ov \<and> ov_plan ov' = ov_plan ov"
proof (cases "map_of (ov_services ov) n")
  case None
  with assms show ?thesis by (simp add: svc_cmd_result_def)
next
  case (Some e)
  with assms show ?thesis
    by (auto simp: svc_cmd_result_def Let_def running_config_def fun_eq_iff take_mail_config dispatch_config
        simp del: dispatch.simps split: if_splits)
qed

lemma send_svc_config: "send_svc cx c n s = Finished t \<Longrightarrow> running_config t = running_config s \<and> ov_plan t = ov_plan s"
  by (cases "svc_cmd_result cx n c s") (auto simp: send_svc_def dest!: svc_cmd_config)

lemma running_config_pending [simp]: "running_config (s\<lparr>ov_pending := ns\<rparr>) = running_config s"
  by (simp add: running_config_def fun_eq_iff)

lemma autostart_config:
  assumes "autostart cx ov = Finished ov'"
  shows "running_config ov' = running_config ov \<and> ov_plan ov' = ov_plan ov"
proof (rule each_invariant [where I = "\<lambda>s. running_config s = running_config ov \<and> ov_plan s = ov_plan ov"])
  show "each (autostart_one cx) (enabled_services ov) ov = Finished ov'"
    using assms by (simp add: autostart_def)
  fix n s t assume "autostart_one cx n s = Finished t" "running_config s = running_config ov \<and> ov_plan s = ov_plan ov"
  then show "running_config t = running_config ov \<and> ov_plan t = ov_plan ov"
    by (auto simp: autostart_one_def split: if_splits dest!: send_svc_config)
qed simp

lemma remove_service_config: "running_config (remove_service m ov) = (running_config ov)(m := None)"
  by (auto simp: remove_service_def running_config_def fun_eq_iff split: option.splits)

lemma remove_services_config: "running_config (fold remove_service ms ov) = (\<lambda>n. if n \<in> set ms then None else running_config ov n)"
  by (induction ms arbitrary: ov) (auto simp: remove_service_config fun_eq_iff)

lemma remove_service_fields [simp]:
  "ov_plan (remove_service m ov) = ov_plan ov" "ov_events (remove_service m ov) = ov_events ov"
  "ov_pending (remove_service m ov) = ov_pending ov" "ov_changes (remove_service m ov) = ov_changes ov"
  "ov_change_counter (remove_service m ov) = ov_change_counter ov"
  by (simp_all add: remove_service_def split: option.splits)

lemma remove_services_fields [simp]:
  "ov_plan (fold remove_service ms ov) = ov_plan ov" "ov_events (fold remove_service ms ov) = ov_events ov"
  "ov_pending (fold remove_service ms ov) = ov_pending ov" "ov_changes (fold remove_service ms ov) = ov_changes ov"
  "ov_change_counter (fold remove_service ms ov) = ov_change_counter ov"
  by (induction ms arbitrary: ov) simp_all

lemma remove_check_fields [simp]:
  "ov_plan (remove_check m ov) = ov_plan ov" "ov_events (remove_check m ov) = ov_events ov"
  "ov_services (remove_check m ov) = ov_services ov" "ov_pending (remove_check m ov) = ov_pending ov"
  "ov_changes (remove_check m ov) = ov_changes ov" "ov_change_counter (remove_check m ov) = ov_change_counter ov"
  by (simp_all add: remove_check_def split: option.splits)

lemma remove_checks_fields [simp]:
  "ov_plan (fold remove_check ms ov) = ov_plan ov" "ov_events (fold remove_check ms ov) = ov_events ov"
  "ov_services (fold remove_check ms ov) = ov_services ov" "ov_pending (fold remove_check ms ov) = ov_pending ov"
  "ov_changes (fold remove_check ms ov) = ov_changes ov" "ov_change_counter (fold remove_check ms ov) = ov_change_counter ov"
  by (induction ms arbitrary: ov) simp_all

lemma running_config_None: "running_config ov n = None \<longleftrightarrow> n \<notin> set (im_keys (ov_services ov))"
  by (simp add: running_config_def map_of_eq_None_iff)

text \<open>The overlord between the reload's bookkeeping and its autostart.\<close>

definition reloaded :: "ctx \<Rightarrow> plan \<Rightarrow> alert_sender \<Rightarrow> overlord \<Rightarrow> overlord" where
  "reloaded cx p al ov =
     (let ov2 = (sync_actors cx (ov\<lparr>ov_plan := p, ov_alerts := al\<rparr>))\<lparr>ov_pending := []\<rparr>;
          ov3 = fold remove_service (filter (\<lambda>n. n \<notin> set (im_keys (plan_services p))) (im_keys (ov_services ov2))) ov2
      in fold remove_check (filter (\<lambda>n. n \<notin> set (im_keys (plan_checks p))) (im_keys (ov_checks ov3))) ov3)"

lemma reload_cases:
  assumes "reload_layers cx ov = Finished (ov', r)"
  obtains (fails) e where "load_plan (cx_layers cx) = Inl e" "ov' = ov" "r = Inl (LoadError e)"
  | (loads) p al where "load_plan (cx_layers cx) = Inr p" "r = Inr ()" "autostart cx (reloaded cx p al ov) = Finished ov'"
proof (cases "load_plan (cx_layers cx)")
  case (Inl e)
  with assms fails show thesis by (simp add: reload_layers_def)
next
  case (Inr p)
  with assms loads show thesis
    by (auto simp: reload_layers_def reloaded_def Let_def and_then_Finished split: option.splits prod.splits)
qed

lemma reloaded_fields [simp]:
  "ov_plan (reloaded cx p al ov) = p" "ov_events (reloaded cx p al ov) = ov_events ov"
  "ov_pending (reloaded cx p al ov) = []" "ov_changes (reloaded cx p al ov) = ov_changes ov"
  "ov_change_counter (reloaded cx p al ov) = ov_change_counter ov"
  by (simp_all add: reloaded_def Let_def)

lemma reloaded_config: "running_config (reloaded cx p al ov) =
    (\<lambda>n. if n \<notin> set (im_keys (plan_services p)) then None
      else case running_config ov n of Some c \<Rightarrow> Some c | None \<Rightarrow> map_of (plan_services p) n)"
proof
  fix n
  let ?ov2 = "(sync_actors cx (ov\<lparr>ov_plan := p, ov_alerts := al\<rparr>))\<lparr>ov_pending := []\<rparr>"
  have two: "running_config ?ov2 n = (case running_config ov n of Some c \<Rightarrow> Some c | None \<Rightarrow> map_of (plan_services p) n)"
    by (simp add: running_config_def sync_actors_services option.map_comp comp_def option.map_ident split: option.splits)
  let ?gone = "filter (\<lambda>n. n \<notin> set (im_keys (plan_services p))) (im_keys (ov_services ?ov2))"
  have "running_config (reloaded cx p al ov) n = running_config (fold remove_service ?gone ?ov2) n"
    by (simp add: reloaded_def Let_def running_config_def)
  then have "running_config (reloaded cx p al ov) n =
    (if n \<notin> set (im_keys (plan_services p)) \<and> n \<in> set (im_keys (ov_services ?ov2)) then None else running_config ?ov2 n)"
    unfolding remove_services_config by auto
  then show "running_config (reloaded cx p al ov) n = (if n \<notin> set (im_keys (plan_services p)) then None
      else case running_config ov n of Some c \<Rightarrow> Some c | None \<Rightarrow> map_of (plan_services p) n)"
    using two running_config_None [of ?ov2 n] by auto
qed

text \<open>
  C18. A reload never gives an actor a new configuration. When the layers load, the services that
  run afterwards are those of the new plan; one that ran before keeps the configuration it was
  first spawned with, and only a new one has the plan's. When they do not load, nothing changes at
  all.
\<close>

theorem reload_keeps_configurations:
  assumes "reload_layers cx ov = Finished (ov', r)"
  shows "case load_plan (cx_layers cx) of
      Inl e \<Rightarrow> ov' = ov \<and> r = Inl (LoadError e)
    | Inr p \<Rightarrow> r = Inr () \<and> ov_plan ov' = p \<and>
        (\<forall>n. running_config ov' n =
          (if map_of (plan_services p) n = None then None
           else if running_config ov n \<noteq> None then running_config ov n else map_of (plan_services p) n))"
  using assms
proof (cases rule: reload_cases)
  case (loads p al)
  then show ?thesis
    using autostart_config [OF loads(3)]
    by (auto simp: reloaded_config map_of_eq_None_iff split: option.splits)
qed simp

text \<open>\<open>web\<close> runs with one command when the layers give it another.\<close>

definition new_web :: service_config where
  "new_web = service_config_default\<lparr>svc_command := Some ''new''\<rparr>"

definition new_fs :: layer_fs where
  "new_fs = demo_fs\<lparr>fs_read_dir := Inr [''a.yaml''], fs_yaml := (\<lambda>_. Inr (layer_of [(''web'', new_web)]))\<rparr>"

lemma load_new_fs: "\<exists>p. load_plan new_fs = Inr p \<and> plan_services p = [(''web'', new_web)] \<and> plan_alert_queue_depth p = None"
  by (simp add: load_plan_def new_fs_def demo_fs_def is_layer_file_def ends_with_def from_layers_def apply_layer_def
      layer_of_def put_entry_def new_web_def service_config_default_def plan_default_def opt_over_def)

theorem reload_keeps_configurations_witness:
  "\<exists>ov'. reload_layers (demo_cx\<lparr>cx_layers := new_fs\<rparr>) (demo_ov Inactive Inactive) = Finished (ov', Inr ()) \<and>
     running_config ov' ''web'' = Some sleep_cfg \<and> plan_services (ov_plan ov') = [(''web'', new_web)]"
proof -
  let ?cx = "demo_cx\<lparr>cx_layers := new_fs\<rparr>" and ?ov = "demo_ov Inactive Inactive"
  obtain p where p: "load_plan new_fs = Inr p" "plan_services p = [(''web'', new_web)]" "plan_alert_queue_depth p = None"
    using load_new_fs by blast
  have off: "svc_startup new_web = Disabled" by (simp add: new_web_def service_config_default_def)
  have none: "ov_plan o' = p \<Longrightarrow> enabled_services o' = []" for o'
    by (simp add: enabled_services_def p off)
  have "\<exists>ov' r. reload_layers ?cx ?ov = Finished (ov', r)"
    by (simp add: reload_layers_def p(1) alert_limits_def p(3) default_delivery_queue_def update_queue_limits_def Let_def
        autostart_def none split: option.splits)
  then obtain ov' r where r: "reload_layers ?cx ?ov = Finished (ov', r)" by blast
  have old: "running_config ?ov ''web'' = Some sleep_cfg"
    by (simp add: running_config_def demo_ov_fields) (simp add: demo_entry_def actor_start_def actor_new_def sleep_cfg_def
      service_config_default_def)
  from reload_keeps_configurations [OF r] old p show ?thesis using r by auto
qed

end
