(* ===== verification/CheckFailure.thy ===== *)
theory CheckFailure
  imports OverlordStart
begin

text \<open>
  What a failed check does to the services: the restarts its \<open>on-check-failure\<close> entries ask for,
  and the daemon shutdown when one of them asks for it.
\<close>

lemma fired_fields [simp]:
  "ov_plan (fold (\<lambda>a. ov_log (AlertFired a)) xs ov) = ov_plan ov"
  "ov_services (fold (\<lambda>a. ov_log (AlertFired a)) xs ov) = ov_services ov"
  "sent (fold (\<lambda>a. ov_log (AlertFired a)) xs ov) = sent ov"
  by (induction xs arbitrary: ov) (simp_all add: sent_log)

lemma sent_updates [simp]:
  "sent (ov\<lparr>ov_alerts := al\<rparr>) = sent ov"
  "sent (ov\<lparr>ov_services := svcs\<rparr>) = sent ov"
  "sent (ov\<lparr>ov_events := evs\<rparr>) = sent ov"
  by (simp_all add: sent_def)

lemma post_svc_view:
  assumes "map_of (ov_services ov) n = Some e"
  shows "sent (post_svc c n ov) = sent ov @ [(n, c)] \<and> im_keys (ov_services (post_svc c n ov)) = im_keys (ov_services ov) \<and>
    (\<forall>m. m \<noteq> n \<longrightarrow> map_of (ov_services (post_svc c n ov)) m = map_of (ov_services ov) m)"
proof -
  have "n \<in> fst ` set (ov_services ov)" using assms by (metis map_of_eq_None_iff option.distinct(1))
  then show ?thesis using assms by (simp add: post_svc_def sent_log keys_im_insert)
qed

text \<open>Stopping one service, as \<open>stop_all\<close> does, leaves the others as they are.\<close>

lemma svc_cmd_local:
  assumes "svc_cmd_result cx n c ov = Finished (ov', r)" and "map_of (ov_services ov) n = Some e" and "alive e" and "c \<noteq> CmdShutdown"
  shows "sent ov' = sent ov @ [(n, c)] \<and> im_keys (ov_services ov') = im_keys (ov_services ov) \<and> map_of (ov_services ov') n \<noteq> None \<and>
    (\<forall>m. m \<noteq> n \<longrightarrow> map_of (ov_services ov') m = map_of (ov_services ov) m)"
proof -
  have "n \<in> fst ` set (ov_services ov)" using assms(2) by (metis map_of_eq_None_iff option.distinct(1))
  then have "im_keys (im_insert n v (ov_services ov)) = im_keys (ov_services ov)" for v by (simp add: keys_im_insert)
  moreover have "a_running (take_mail (cx_os cx n) (se_mail e) (se_actor e))"
    using take_mail_running assms(3) by (auto simp: alive_def)
  ultimately show ?thesis
    using assms(1,2) by (auto simp: svc_cmd_result_def Let_def sent_log simp del: dispatch.simps split: if_splits)
qed

lemma stop_one_view:
  assumes "stop_one cx n ov = Finished ov'" and "map_of (ov_services ov) n = Some e" and "alive e"
  shows "sent ov' = sent ov @ [(n, CmdStop), (n, CmdShutdown)] \<and> im_keys (ov_services ov') = im_keys (ov_services ov) \<and>
    (\<forall>m. m \<noteq> n \<longrightarrow> map_of (ov_services ov') m = map_of (ov_services ov) m)"
proof -
  from assms(1) obtain o1 r where o1: "svc_cmd_result cx n CmdStop ov = Finished (o1, r)" and o': "ov' = post_svc CmdShutdown n o1"
    by (cases "svc_cmd_result cx n CmdStop ov") (auto simp: stop_one_def send_svc_def)
  from svc_cmd_local [OF o1 assms(2,3)] have v: "sent o1 = sent ov @ [(n, CmdStop)]"
      "im_keys (ov_services o1) = im_keys (ov_services ov)" "map_of (ov_services o1) n \<noteq> None"
      "\<And>m. m \<noteq> n \<Longrightarrow> map_of (ov_services o1) m = map_of (ov_services ov) m" by auto
  then obtain e1 where "map_of (ov_services o1) n = Some e1" by blast
  from post_svc_view [OF this, of CmdShutdown] v show ?thesis by (simp add: o')
qed

lemma stops_view:
  assumes "each (stop_one cx) ns ov = Finished ov'" and "distinct ns"
    and "\<And>n. n \<in> set ns \<Longrightarrow> \<exists>e. map_of (ov_services ov) n = Some e \<and> alive e"
  shows "sent ov' = sent ov @ concat (map (\<lambda>n. [(n, CmdStop), (n, CmdShutdown)]) ns)"
  using assms
proof (induction ns arbitrary: ov)
  case (Cons n ns)
  from Cons.prems(1) obtain o1 where o1: "stop_one cx n ov = Finished o1" "each (stop_one cx) ns o1 = Finished ov'"
    by (auto simp: and_then_Finished)
  from Cons.prems(3) [of n] obtain e where "map_of (ov_services ov) n = Some e" "alive e" by auto
  from stop_one_view [OF o1(1) this] have v: "sent o1 = sent ov @ [(n, CmdStop), (n, CmdShutdown)]"
      "\<And>m. m \<noteq> n \<Longrightarrow> map_of (ov_services o1) m = map_of (ov_services ov) m" by auto
  have "sent ov' = sent o1 @ concat (map (\<lambda>n. [(n, CmdStop), (n, CmdShutdown)]) ns)"
  proof (rule Cons.IH [OF o1(2)])
    fix m assume m: "m \<in> set ns"
    with Cons.prems(2) have "m \<noteq> n" by auto
    from v(2) [OF this] Cons.prems(3) [of m] m show "\<exists>e. map_of (ov_services o1) m = Some e \<and> alive e" by simp
  qed (use Cons.prems(2) in simp)
  with v(1) show ?case by simp
qed simp

definition shutdowns :: "overlord \<Rightarrow> (string \<times> svc_cmd) list" where
  "shutdowns ov = concat (map (\<lambda>n. [(n, CmdStop), (n, CmdShutdown)]) (im_keys (ov_services ov)))"

lemma stop_all_sent:
  assumes "stop_all cx ov = Finished ov'" and "all_alive ov" and "im_wf (ov_services ov)"
  shows "sent ov' = sent ov @ shutdowns ov"
proof -
  from assms(1) obtain o1 where o1: "each (stop_one cx) (im_keys (ov_services ov)) ov = Finished o1" and "sent ov' = sent o1"
    by (auto simp: stop_all_def and_then_Finished sent_def)
  moreover have "sent o1 = sent ov @ shutdowns ov"
    unfolding shutdowns_def
  proof (rule stops_view [OF o1])
    show "distinct (im_keys (ov_services ov))" using assms(3) by (simp add: im_wf_def)
    fix n assume "n \<in> set (im_keys (ov_services ov))"
    then have "map_of (ov_services ov) n \<noteq> None" by (simp add: map_of_eq_None_iff)
    with assms(2) show "\<exists>e. map_of (ov_services ov) n = Some e \<and> alive e" by (auto simp: all_alive_def)
  qed
  ultimately show ?thesis by simp
qed

subsection \<open>The actions of a failed check\<close>

definition goes_on :: "string \<times> on_exit \<Rightarrow> bool" where
  "goes_on a \<longleftrightarrow> snd a = Restart \<or> snd a = Ignore"

definition restarts :: "(string \<times> on_exit) list \<Rightarrow> (string \<times> svc_cmd) list" where
  "restarts as = map (\<lambda>(n, _). (n, CmdRestart)) (filter (\<lambda>(_, a). a = Restart) as)"

lemma run_check_actions_sent:
  assumes "run_check_actions cx as ov = Finished (ov', code)" and "all_alive ov" and "im_wf (ov_services ov)"
    and "\<And>n a. (n, a) \<in> set as \<Longrightarrow> known ov n"
  shows "(case dropWhile goes_on as of
      [] \<Rightarrow> code = None \<and> sent ov' = sent ov @ restarts as
    | (n, a) # _ \<Rightarrow> code = Some (if a = SuccessShutdown then 0 else 10) \<and>
        sent ov' = sent ov @ restarts (takeWhile goes_on as) @ shutdowns ov)"
  using assms
proof (induction as arbitrary: ov)
  case (Cons x as)
  obtain n a where x: "x = (n, a)" by (cases x)
  show ?case
  proof (cases "a = Restart")
    case True
    with Cons.prems(1) x obtain o1 where o1: "send_svc cx CmdRestart n ov = Finished o1" "run_check_actions cx as o1 = Finished (ov', code)"
      by (auto simp: and_then_Finished)
    from send_svc_view [OF o1(1) Cons.prems(2)] Cons.prems(4) [of n a] x
    have v: "same_view ov o1" "all_alive o1" "sent o1 = sent ov @ [(n, CmdRestart)]" by auto
    then have keys: "im_keys (ov_services o1) = im_keys (ov_services ov)" by (simp add: same_view_def)
    then have same: "shutdowns o1 = shutdowns ov" "im_wf (ov_services o1)"
      using Cons.prems(3) by (simp_all only: shutdowns_def im_wf_def)
    have "known o1 m" if "(m, b) \<in> set as" for m b
      using Cons.prems(4) [of m b] that known_view [OF v(1)] by simp
    from Cons.IH [OF o1(2) v(2) same(2) this] have ih: "case dropWhile goes_on as of
      [] \<Rightarrow> code = None \<and> sent ov' = sent o1 @ restarts as
    | (n, a) # _ \<Rightarrow> code = Some (if a = SuccessShutdown then 0 else 10) \<and>
        sent ov' = sent o1 @ restarts (takeWhile goes_on as) @ shutdowns o1" .
    have "goes_on x" "restarts (x # ys) = (n, CmdRestart) # restarts ys" for ys
      by (simp_all add: x True goes_on_def restarts_def)
    with ih v(3) same(1) show ?thesis by (cases "dropWhile goes_on as") (simp_all del: dropWhile_eq_Nil_conv split: prod.splits)
  next
    case False
    show ?thesis
    proof (cases "a = Ignore")
      case True
      with Cons.prems(1) x have "run_check_actions cx as ov = Finished (ov', code)" by simp
      moreover have "known ov m" if "(m, b) \<in> set as" for m b
        using Cons.prems(4) [of m b] that by simp
      ultimately have ih: "case dropWhile goes_on as of
          [] \<Rightarrow> code = None \<and> sent ov' = sent ov @ restarts as
        | (n, a) # _ \<Rightarrow> code = Some (if a = SuccessShutdown then 0 else 10) \<and>
            sent ov' = sent ov @ restarts (takeWhile goes_on as) @ shutdowns ov"
        by (rule Cons.IH [OF _ Cons.prems(2,3)])
      have "goes_on x" "restarts (x # ys) = restarts ys" for ys
        by (simp_all add: x True goes_on_def restarts_def)
      with ih show ?thesis by (cases "dropWhile goes_on as") (simp_all del: dropWhile_eq_Nil_conv split: prod.splits)
    next
      case stops: False
      with False Cons.prems(1) x have "stop_all cx ov = Finished ov'" "code = Some (if a = SuccessShutdown then 0 else 10)"
        by (cases a; auto simp: and_then_Finished)+
      with stop_all_sent [OF _ Cons.prems(2,3)] x False stops show ?thesis by (simp add: goes_on_def restarts_def)
    qed
  qed
qed (simp add: restarts_def)

text \<open>
  C15. What a failed check does. An event that is not \<open>down\<close> sends nothing. For a \<open>down\<close> event the
  services that name the check in \<open>on-check-failure\<close> are taken in plan order: each restart is sent,
  up to the first one that asks for a shutdown; that one stops every service, then ends the daemon
  with exit code 0 for \<open>success-shutdown\<close> and 10 for the two others, and later entries are not
  looked at.
\<close>

theorem check_failure_effect:
  assumes "handle_check_event cx ev ov = Finished (ov', code)" and "all_alive ov" and "im_wf (ov_services ov)"
    and "\<And>n. n \<in> set (im_keys (plan_services (ov_plan ov))) \<Longrightarrow> known ov n"
  shows "let as = (if ce_status ev = Down then check_failure_actions (ce_check ev) ov else []) in
    case dropWhile goes_on as of
      [] \<Rightarrow> code = None \<and> sent ov' = sent ov @ restarts as
    | (n, a) # _ \<Rightarrow> code = Some (if a = SuccessShutdown then 0 else 10) \<and>
        sent ov' = sent ov @ restarts (takeWhile goes_on as) @ shutdowns ov"
proof -
  obtain al fired where al: "alert_handle_event (cx_alert cx) (cx_mono cx) (ce_check ev) (ce_status ev) (ov_alerts ov) = (al, fired)"
    by fastforce
  define o1 where "o1 = fold (\<lambda>a. ov_log (AlertFired a)) fired (ov\<lparr>ov_alerts := al\<rparr>)"
  have o1: "ov_plan o1 = ov_plan ov" "ov_services o1 = ov_services ov" "sent o1 = sent ov"
    by (simp_all add: o1_def)
  then have acts: "check_failure_actions c o1 = check_failure_actions c ov" and "shutdowns o1 = shutdowns ov" for c
    by (simp_all add: check_failure_actions_def shutdowns_def)
  show ?thesis
  proof (cases "ce_status ev = Down")
    case True
    with assms(1) al have run: "run_check_actions cx (check_failure_actions (ce_check ev) ov) o1 = Finished (ov', code)"
      by (simp add: handle_check_event_def o1_def [symmetric] acts)
    have "all_alive o1" "im_wf (ov_services o1)" using assms(2,3) by (simp_all add: all_alive_def o1)
    moreover have "known o1 n" if "(n, a) \<in> set (check_failure_actions (ce_check ev) ov)" for n a
    proof -
      from that have "n \<in> set (im_keys (plan_services (ov_plan ov)))"
        by (force simp: check_failure_actions_def map_filter_def)
      from assms(4) [OF this] show ?thesis by (simp add: known_def o1)
    qed
    ultimately have "case dropWhile goes_on (check_failure_actions (ce_check ev) ov) of
        [] \<Rightarrow> code = None \<and> sent ov' = sent ov @ restarts (check_failure_actions (ce_check ev) ov)
      | (n, a) # _ \<Rightarrow> code = Some (if a = SuccessShutdown then 0 else 10) \<and>
          sent ov' = sent ov @ restarts (takeWhile goes_on (check_failure_actions (ce_check ev) ov)) @ shutdowns ov"
      using run_check_actions_sent [OF run] by (simp only: o1(3) \<open>shutdowns o1 = shutdowns ov\<close>)
    then show ?thesis by (simp only: True simp_thms if_True Let_def)
  next
    case False
    with assms(1) al o1 show ?thesis by (simp add: handle_check_event_def o1_def [symmetric] restarts_def)
  qed
qed

text \<open>A failed check \<open>c\<close> restarts \<open>web\<close>, which asks for it.\<close>

theorem check_failure_effect_witness:
  "\<exists>ov' code. handle_check_event demo_cx \<lparr>ce_check = ''c'', ce_status = Down\<rparr> (demo_ov Active Active) = Finished (ov', code) \<and>
     code = None \<and> sent ov' = [(''web'', CmdRestart)]"
proof -
  let ?o = "demo_ov Active Active" and ?ev = "\<lparr>ce_check = ''c'', ce_status = Down\<rparr>"
  have acts: "check_failure_actions ''c'' ?o = [(''web'', Restart)]"
    by (simp add: check_failure_actions_def demo_ov_fields demo_services sleep_cfg_lists)
  have al: "alert_handle_event e t ''c'' Down (ov_alerts ?o) = ((ov_alerts ?o)\<lparr>sd_state := [(''c'', Down)]\<rparr>, [])" for e t
    by (simp add: demo_ov_def alert_handle_event_def alert_check_status_of_def)
  let ?o1 = "?o\<lparr>ov_alerts := (ov_alerts ?o)\<lparr>sd_state := [(''c'', Down)]\<rparr>\<rparr>"
  have acts1: "check_failure_actions ''c'' ?o1 = [(''web'', Restart)]"
    using acts by (simp add: check_failure_actions_def)
  have "\<exists>o2 r. svc_cmd_result demo_cx ''web'' CmdRestart ?o1 = Finished (o2, r)"
  proof (rule svc_cmd_finishes)
    show "CmdRestart \<in> {CmdStart, CmdStop, CmdRestart}" by simp
    show "se_mail e = []" if "map_of (ov_services ?o1) ''web'' = Some e" for e using that by (simp add: demo_mail)
    show "length (ov_events ?o1) + 2 \<le> event_capacity" by (simp add: demo_ov_fields event_capacity_def)
  qed
  then obtain o2 r where "svc_cmd_result demo_cx ''web'' CmdRestart ?o1 = Finished (o2, r)" by blast
  then have h: "handle_check_event demo_cx ?ev ?o = Finished (o2, None)"
    by (simp add: handle_check_event_def al acts1 send_svc_def)
  have wf: "im_wf (ov_services ?o)" by (simp add: demo_ov_fields im_wf_def)
  have plan: "known ?o n" if "n \<in> set (im_keys (plan_services (ov_plan ?o)))" for n
    using that by (auto simp: demo_known demo_ov_fields demo_services)
  from check_failure_effect [OF h demo_alive wf plan] h acts show ?thesis
    by (simp add: goes_on_def restarts_def demo_ov_fields Let_def)
qed

end
