(* ===== verification/DaemonInv.thy ===== *)
theory DaemonInv
  imports OverlordReload
begin

text \<open>
  The invariant of the whole daemon, over every interleaving of commands, events and actor steps:
  one live actor per service of the plan, changes numbered in order, the event channel within its
  capacity.
\<close>

subsection \<open>The invariant\<close>

definition change_ids :: "nat \<Rightarrow> string list" where
  "change_ids k = map (\<lambda>i. show_nat (unat (of_nat (Suc i) :: 64 word))) [0..<k]"

definition numbered :: "overlord \<Rightarrow> bool" where
  "numbered ov \<longleftrightarrow> ov_change_counter ov = of_nat (length (ov_changes ov)) \<and>
     map ch_id (ov_changes ov) = change_ids (length (ov_changes ov))"

definition planned :: "overlord \<Rightarrow> string set" where
  "planned ov = set (im_keys (plan_services (ov_plan ov)))"

definition ov_inv :: "overlord \<Rightarrow> bool" where
  "ov_inv ov \<longleftrightarrow> set (im_keys (ov_services ov)) = planned ov \<and> im_wf (ov_services ov) \<and> all_alive ov \<and>
     set (ov_pending ov) \<subseteq> planned ov \<and> length (ov_events ov) \<le> event_capacity \<and> numbered ov"

definition daemon_inv :: "daemon \<Rightarrow> bool" where
  "daemon_inv d \<longleftrightarrow> (case d of Serving ov \<Rightarrow> ov_inv ov | _ \<Rightarrow> True)"

text \<open>What keeps the invariant: the same plan and keys, live actors, no new change, a bounded channel.\<close>

lemma ov_inv_step:
  assumes "ov_inv ov" and "planned ov' = planned ov" and "im_keys (ov_services ov') = im_keys (ov_services ov)"
    and "all_alive ov'" and "set (ov_pending ov') \<subseteq> planned ov" and "length (ov_events ov') \<le> event_capacity"
    and "ov_changes ov' = ov_changes ov" and "ov_change_counter ov' = ov_change_counter ov"
  shows "ov_inv ov'"
  using assms by (simp add: ov_inv_def im_wf_def numbered_def)

lemma alive_insert: "all_alive ov \<Longrightarrow> alive e \<Longrightarrow> all_alive (ov\<lparr>ov_services := im_insert n e (ov_services ov)\<rparr>)"
  by (simp add: all_alive_def)

lemma all_alive_updates [simp]:
  "all_alive (ov\<lparr>ov_events := evs\<rparr>) = all_alive ov" "all_alive (ov\<lparr>ov_plan := p\<rparr>) = all_alive ov"
  "all_alive (ov\<lparr>ov_pending := ns\<rparr>) = all_alive ov" "all_alive (ov\<lparr>ov_checks := cs\<rparr>) = all_alive ov"
  "all_alive (ov\<lparr>ov_check_events := ces\<rparr>) = all_alive ov" "all_alive (ov\<lparr>ov_alerts := al\<rparr>) = all_alive ov"
  "all_alive (ov\<lparr>ov_removed_services := rs\<rparr>) = all_alive ov" "all_alive (ov\<lparr>ov_removed_checks := rcs\<rparr>) = all_alive ov"
  "all_alive (ov_log x ov) = all_alive ov"
  by (simp_all add: all_alive_def)

lemma keys_known: "map_of m n = Some e \<Longrightarrow> im_keys (im_insert n e' m) = im_keys m"
  by (metis keys_im_insert map_of_eq_None_iff option.distinct(1))

subsection \<open>Commands to actors\<close>

lemma svc_cmd_inv:
  assumes "svc_cmd_result cx n c ov = Finished (ov', r)" and "ov_inv ov" and "c \<noteq> CmdShutdown"
  shows "ov_inv ov' \<and> ov_plan ov' = ov_plan ov"
proof -
  from assms(2) have alive: "all_alive ov" by (simp add: ov_inv_def)
  from svc_cmd_view [OF assms(1) alive assms(3)]
  have v: "same_view ov ov'" "all_alive ov'" "ov_pending ov' = ov_pending ov" by auto
  have "length (ov_events ov') \<le> event_capacity"
  proof (cases "map_of (ov_services ov) n")
    case None
    with assms(1,2) show ?thesis by (simp add: svc_cmd_result_def ov_inv_def)
  next
    case (Some e)
    with assms(1) show ?thesis by (auto simp: svc_cmd_result_def Let_def simp del: dispatch.simps split: if_splits)
  qed
  moreover have "set (ov_pending ov) \<subseteq> planned ov" using assms(2) by (simp add: ov_inv_def)
  ultimately have "ov_inv ov'"
    using v by (intro ov_inv_step [OF assms(2)]) (simp_all add: same_view_def planned_def)
  with v(1) show ?thesis by (simp add: same_view_def)
qed

lemma send_svc_inv: "send_svc cx c n ov = Finished ov' \<Longrightarrow> ov_inv ov \<Longrightarrow> c \<noteq> CmdShutdown \<Longrightarrow> ov_inv ov' \<and> ov_plan ov' = ov_plan ov"
  by (cases "svc_cmd_result cx n c ov") (auto simp: send_svc_def dest: svc_cmd_inv)

lemma ov_inv_pending: "ov_inv ov \<Longrightarrow> set ns \<subseteq> planned ov \<Longrightarrow> ov_inv (ov\<lparr>ov_pending := ns\<rparr>)"
  by (rule ov_inv_step) (auto simp: ov_inv_def planned_def)

lemma autostart_inv:
  assumes "autostart cx ov = Finished ov'" and "ov_inv ov"
  shows "ov_inv ov'"
proof -
  have "ov_inv ov' \<and> ov_plan ov' = ov_plan ov"
  proof (rule each_invariant [where I = "\<lambda>s. ov_inv s \<and> ov_plan s = ov_plan ov"])
    show "each (autostart_one cx) (enabled_services ov) ov = Finished ov'"
      using assms(1) by (simp add: autostart_def)
    fix n s t
    assume n: "n \<in> set (enabled_services ov)" and s: "autostart_one cx n s = Finished t" "ov_inv s \<and> ov_plan s = ov_plan ov"
    show "ov_inv t \<and> ov_plan t = ov_plan ov"
    proof (cases "after_deps_running s n")
      case True
      with s have "send_svc cx CmdStart n s = Finished t" by (simp add: autostart_one_def)
      from send_svc_inv [OF this] s(2) show ?thesis by simp
    next
      case False
      moreover have "n \<in> planned s" using n s(2) by (auto simp: enabled_services_def planned_def)
      moreover have "set (ov_pending s) \<subseteq> planned s" using s(2) by (simp add: ov_inv_def)
      ultimately have "ov_inv (s\<lparr>ov_pending := ov_pending s @ [n]\<rparr>)"
        using s(2) by (intro ov_inv_pending) auto
      with False s show ?thesis by (auto simp: autostart_one_def)
    qed
  qed (use assms(2) in simp)
  then show ?thesis by simp
qed

lemma sends_inv:
  assumes "each (send_svc cx c) ns ov = Finished ov'" and "ov_inv ov" and "c \<noteq> CmdShutdown"
  shows "ov_inv ov'"
  by (rule each_invariant [OF assms(1), where I = ov_inv]) (use assms(2,3) send_svc_inv in blast)+

lemma try_start_pending_inv:
  assumes "try_start_pending cx ov = Finished ov'" and "ov_inv ov"
  shows "ov_inv ov'"
proof (rule each_invariant [where I = ov_inv])
  show "each (start_pending_one cx) (filter (after_deps_running ov) (ov_pending ov)) ov = Finished ov'"
    using assms(1) by (simp add: try_start_pending_def)
  fix n s t
  assume s: "start_pending_one cx n s = Finished t" "ov_inv s"
  then have "ov_inv (s\<lparr>ov_pending := filter (\<lambda>m. m \<noteq> n) (ov_pending s)\<rparr>)"
    by (intro ov_inv_pending) (auto simp: ov_inv_def)
  with s(1) send_svc_inv [of cx CmdStart n _ t] show "ov_inv t" by (auto simp: start_pending_one_def)
qed (rule assms(2))

subsection \<open>Reloading and synchronising\<close>

lemma sync_services_wf: "im_wf (ov_services ov) \<Longrightarrow> im_wf (ov_services (fold (sync_service cx) xs ov))"
proof (induction xs arbitrary: ov)
  case (Cons x xs)
  have "im_wf (ov_services (sync_service cx x ov))"
    using Cons.prems by (auto simp: sync_service_def split: prod.splits)
  from Cons.IH [OF this] show ?case by simp
qed simp

lemma remove_services_entries: "map_of (ov_services (fold remove_service ms ov)) n =
    (if n \<in> set ms then None else map_of (ov_services ov) n)"
proof (induction ms arbitrary: ov)
  case (Cons m ms)
  have "map_of (ov_services (remove_service m ov)) = (map_of (ov_services ov))(m := None)"
    by (auto simp: remove_service_def fun_eq_iff split: option.splits)
  with Cons.IH [of "remove_service m ov"] show ?case by simp
qed simp

lemma remove_services_wf: "im_wf (ov_services ov) \<Longrightarrow> im_wf (ov_services (fold remove_service ms ov))"
proof (induction ms arbitrary: ov)
  case (Cons m ms)
  have "im_wf (ov_services (remove_service m ov))"
    using Cons.prems by (auto simp: remove_service_def split: option.splits)
  from Cons.IH [OF this] show ?case by simp
qed simp

lemma sync_actors_wf: "im_wf (ov_services ov) \<Longrightarrow> im_wf (ov_services (sync_actors cx ov))"
  by (simp add: sync_actors_def Let_def sync_services_wf)

lemma new_entry_alive [simp]: "alive (new_svc_entry cx n c)"
  by (simp add: alive_def)

lemma sync_actors_alive: "all_alive ov \<Longrightarrow> all_alive (sync_actors cx ov)"
  unfolding all_alive_def sync_actors_services by (auto split: option.splits)

lemma reloaded_alive: "all_alive ov \<Longrightarrow> all_alive (reloaded cx p al ov)"
  using sync_actors_alive [of "ov\<lparr>ov_plan := p, ov_alerts := al\<rparr>" cx]
  by (auto simp: reloaded_def Let_def all_alive_def remove_services_entries)

lemma reloaded_keys: "set (im_keys (ov_services (reloaded cx p al ov))) = set (im_keys (plan_services p))"
proof -
  have "n \<in> set (im_keys (ov_services (reloaded cx p al ov))) \<longleftrightarrow> n \<in> set (im_keys (plan_services p))" for n
  proof -
    have "running_config (reloaded cx p al ov) n = None \<longleftrightarrow> n \<notin> set (im_keys (plan_services p))"
      unfolding reloaded_config using map_of_eq_None_iff [of "plan_services p" n] by (auto split: option.splits)
    then show ?thesis by (simp add: running_config_None)
  qed
  then show ?thesis by blast
qed

lemma reloaded_inv: "ov_inv ov \<Longrightarrow> ov_inv (reloaded cx p al ov)"
  using reloaded_keys [of cx p al ov] reloaded_alive [of ov cx p al]
    remove_services_wf [OF sync_actors_wf, of "ov\<lparr>ov_plan := p, ov_alerts := al\<rparr>"]
  by (simp add: ov_inv_def planned_def numbered_def) (simp add: reloaded_def Let_def remove_services_wf sync_actors_wf)

lemma reload_inv: "reload_layers cx ov = Finished (ov', r) \<Longrightarrow> ov_inv ov \<Longrightarrow> ov_inv ov'"
  by (erule reload_cases) (auto dest: autostart_inv [OF _ reloaded_inv])

subsection \<open>Commands\<close>

lemma enable_autostart_fields [simp]:
  "ov_services (enable_autostart n ov) = ov_services ov" "ov_pending (enable_autostart n ov) = ov_pending ov"
  "ov_events (enable_autostart n ov) = ov_events ov" "ov_changes (enable_autostart n ov) = ov_changes ov"
  "ov_change_counter (enable_autostart n ov) = ov_change_counter ov"
  by (simp_all add: enable_autostart_def split: option.splits)

lemma enable_autostart_planned: "planned (enable_autostart n ov) = planned ov"
proof (cases "map_of (plan_services (ov_plan ov)) n")
  case (Some c)
  then have "n \<in> fst ` set (plan_services (ov_plan ov))" by (metis map_of_eq_None_iff option.distinct(1))
  then show ?thesis by (auto simp: enable_autostart_def planned_def Some)
qed (simp add: enable_autostart_def)

lemma enable_autostart_inv: "ov_inv ov \<Longrightarrow> ov_inv (enable_autostart n ov)"
  unfolding ov_inv_def enable_autostart_planned by (simp add: all_alive_def numbered_def)

lemma service_action_one_inv:
  assumes "service_action_one cx action n ov = Finished (ov', r)" and "ov_inv ov"
  shows "ov_inv ov'"
proof (cases action)
  case ActStart
  then show ?thesis using svc_cmd_inv [of cx n CmdStart ov ov' r] assms by (simp add: service_action_one_def)
next
  case ActStop
  then show ?thesis using svc_cmd_inv [of cx n CmdStop ov ov' r] assms by (simp add: service_action_one_def)
next
  case ActRestart
  then show ?thesis using svc_cmd_inv [of cx n CmdRestart ov ov' r] assms by (simp add: service_action_one_def)
next
  case ActAutostart
  then show ?thesis
    using svc_cmd_inv [of cx n CmdStart "enable_autostart n ov" ov' r] assms by (simp add: service_action_one_def enable_autostart_inv)
next
  case ActReplan
  then show ?thesis using reload_inv [of cx ov ov' r] assms by (simp add: service_action_one_def)
qed

lemma service_actions_inv:
  "service_actions cx action ns ov = Finished (ov', errs) \<Longrightarrow> ov_inv ov \<Longrightarrow> ov_inv ov'"
proof (induction ns arbitrary: ov errs)
  case (Cons n ns)
  from Cons.prems(1) obtain o1 res errs' where o1: "service_action_one cx action n ov = Finished (o1, res)"
      "service_actions cx action ns o1 = Finished (ov', errs')"
    by (auto simp: and_then_Finished)
  have "ov_inv o1"
    by (rule service_action_one_inv [OF o1(1) Cons.prems(2)])
  from Cons.IH [OF o1(2) this] show ?case .
qed simp

lemma services_action_inv:
  assumes "handle_services_action cx action names ov = Finished (ov', c)" and "ov_inv ov"
  shows "ov_inv ov'"
proof -
  from assms(1) obtain o1 errs targets where o1: "service_actions cx action targets ov = Finished (o1, errs)"
      and o': "ov' = o1\<lparr>ov_change_counter := ov_change_counter o1 + 1,
        ov_changes := ov_changes o1 @ [change_record cx action targets errs (ov_change_counter o1 + 1)]\<rparr>"
    by (auto simp: handle_services_action_def Let_def and_then_Finished)
  from service_actions_inv [OF o1 assms(2)] have "ov_inv o1" .
  then show ?thesis
    by (simp add: o' ov_inv_def planned_def all_alive_def numbered_def change_ids_def change_record_def add.commute)
qed

lemma post_svc_inv:
  assumes "ov_inv ov" and "c \<noteq> CmdShutdown"
  shows "ov_inv (post_svc c n ov)"
proof (cases "map_of (ov_services ov) n")
  case (Some e)
  with assms(1) have "alive e" "all_alive ov" by (auto simp: ov_inv_def all_alive_def)
  then have "alive (e\<lparr>se_mail := se_mail e @ [c]\<rparr>)" using assms(2) by (simp add: alive_def)
  with \<open>all_alive ov\<close> show ?thesis
    using assms(1) by (intro ov_inv_step [OF assms(1)])
      (simp_all add: post_svc_def Some planned_def keys_known alive_insert, simp_all add: ov_inv_def planned_def)
qed (simp add: post_svc_def assms(1))

lemma forward_signal_inv: "ov_inv ov \<Longrightarrow> ov_inv (forward_signal sig ov)"
proof -
  have "ov_inv (fold (post_svc (CmdForwardSignal sig)) ns s)" if "ov_inv s" for ns s
    using that by (induction ns arbitrary: s) (simp_all add: post_svc_inv)
  then show "ov_inv ov \<Longrightarrow> ov_inv (forward_signal sig ov)" by (simp add: forward_signal_def)
qed

lemma ov_inv_checks [simp]:
  "ov_inv (ov\<lparr>ov_checks := cs\<rparr>) = ov_inv ov" "ov_inv (ov\<lparr>ov_check_events := ces\<rparr>) = ov_inv ov"
  "ov_inv (ov\<lparr>ov_alerts := al\<rparr>) = ov_inv ov" "ov_inv (ov\<lparr>ov_removed_checks := rcs\<rparr>) = ov_inv ov"
  "ov_inv (ov\<lparr>ov_removed_services := rs\<rparr>) = ov_inv ov" "ov_inv (ov_log x ov) = ov_inv ov"
  by (simp_all add: ov_inv_def planned_def numbered_def)

lemma handle_cmd_inv:
  assumes "handle_cmd cx cmd ov = Finished (ov', r)" and "ov_inv ov"
  shows "ov_inv ov'"
proof (cases cmd)
  case (OvServices a ns)
  with assms services_action_inv show ?thesis by (fastforce simp: handle_cmd_def and_then_Finished)
next
  case OvReloadLayers
  with assms reload_inv show ?thesis by (fastforce simp: handle_cmd_def and_then_Finished)
next
  case (OvGetChanges i)
  with assms show ?thesis by (cases i) (simp_all add: handle_cmd_def)
qed (use assms in \<open>simp_all add: handle_cmd_def query_checks_def forward_signal_inv Let_def\<close>, use assms forward_signal_inv in auto)

subsection \<open>Events\<close>

lemma note_snapshot_inv: "ov_inv ov \<Longrightarrow> ov_inv (note_snapshot cx n st ov)"
proof (cases "map_of (ov_services ov) n")
  case (Some e)
  assume inv: "ov_inv ov"
  with Some have "alive e" "all_alive ov" by (auto simp: ov_inv_def all_alive_def)
  then have "alive (e\<lparr>se_snapshot := s\<rparr>)" for s by (simp add: alive_def)
  with \<open>all_alive ov\<close> inv show ?thesis
    by (intro ov_inv_step [OF inv])
      (simp_all add: note_snapshot_def Some planned_def keys_known alive_insert, simp_all add: ov_inv_def planned_def)
qed (simp add: note_snapshot_def)

lemma svc_event_inv:
  assumes "handle_svc_event cx ev ov = Finished (ov', code)" and "ov_inv ov"
  shows "ov_inv ov'"
proof (cases "ev_kind ev")
  case (StateChanged st)
  let ?o1 = "note_snapshot cx (ev_service ev) st ov"
  from assms(1) StateChanged obtain o2 where
      o2: "(if is_running st \<and> ov_pending ?o1 \<noteq> [] then try_start_pending cx ?o1 else Finished ?o1) = Finished o2"
      and o3: "(if st = Inactive \<or> st = ErrorState then each (send_svc cx CmdStop) (dependents_of (ev_service ev) o2) o2
        else Finished o2) = Finished ov'"
    by (auto simp: handle_svc_event_def Let_def and_then_Finished)
  have "ov_inv o2"
    using o2 note_snapshot_inv [OF assms(2)] try_start_pending_inv by (auto split: if_splits)
  with o3 sends_inv show ?thesis by (auto split: if_splits)
qed (use assms in \<open>auto simp: handle_svc_event_def\<close>)

lemma check_actions_inv: "run_check_actions cx as ov = Finished (ov', None) \<Longrightarrow> ov_inv ov \<Longrightarrow> ov_inv ov'"
proof (induction as arbitrary: ov)
  case (Cons x as)
  obtain n a where x: "x = (n, a)" by (cases x)
  show ?case
  proof (cases a)
    case Restart
    with Cons.prems x obtain o1 where o1: "send_svc cx CmdRestart n ov = Finished o1" "run_check_actions cx as o1 = Finished (ov', None)"
      by (auto simp: and_then_Finished)
    from send_svc_inv [OF o1(1) Cons.prems(2)] Cons.IH [OF o1(2)] show ?thesis by simp
  qed (use Cons.prems Cons.IH x in \<open>auto simp: and_then_Finished\<close>)
qed simp

lemma fired_inv: "ov_inv ov \<Longrightarrow> ov_inv (fold (\<lambda>a. ov_log (AlertFired a)) xs ov)"
  by (induction xs arbitrary: ov) simp_all

lemma check_event_inv: "handle_check_event cx ev ov = Finished (ov', None) \<Longrightarrow> ov_inv ov \<Longrightarrow> ov_inv ov'"
  by (auto simp: handle_check_event_def fired_inv Let_def split: prod.splits if_splits elim!: check_actions_inv)

subsection \<open>Steps of the actors\<close>

lemma do_start_running: "do_start os a = (b, r) \<Longrightarrow> a_running b = a_running a"
  by (cases rule: do_start_cases [of os a]) (auto simp: actor_simps)

lemma dispatch_keeps_running:
  assumes "ev \<noteq> OnCmd CmdShutdown" and "ev \<noteq> OnChannelClosed"
  shows "a_running (dispatch os ev a) = a_running a"
proof (cases ev)
  case (OnCmd c)
  with assms dispatch_running show ?thesis by blast
next
  case (OnChildExit e)
  have policy: "a_running (apply_policy os ok s) = a_running s" for ok s
    by (auto simp: apply_policy_def next_backoff_def actor_simps Let_def split: option.splits on_exit.splits)
  with OnChildExit show ?thesis
    by (auto simp: handle_child_exit_def actor_simps Let_def split: prod.splits sum.splits dest!: do_start_running)
next
  case OnBackoffExpired
  then show ?thesis
    by (cases rule: do_start_cases [of os "transition os Starting a"])
      (simp_all add: handle_backoff_expired_def actor_simps)
qed (use assms in \<open>simp_all add: handle_kill_deadline_def actor_simps\<close>)

lemma entry_step_alive:
  assumes "entry_step os n ev room e = Some (e', evs)" and "alive e"
  shows "alive e' \<and> length evs \<le> room"
proof -
  define mail where "mail = (case ev of
      OnCmd c \<Rightarrow> (case se_mail e of [] \<Rightarrow> None | c' # cs \<Rightarrow> if c = c' then Some cs else None)
    | OnChannelClosed \<Rightarrow> None
    | _ \<Rightarrow> if se_mail e = [] then Some [] else None)"
  from assms(1) obtain cs where cs: "mail = Some cs" "e' = e\<lparr>se_actor := dispatch os ev (se_actor e), se_mail := cs\<rparr>" "length evs \<le> room"
    unfolding entry_step_def Let_def mail_def [symmetric] by (cases mail) (auto simp del: dispatch.simps split: if_splits)
  have "ev \<noteq> OnCmd CmdShutdown" "ev \<noteq> OnChannelClosed" "CmdShutdown \<notin> set cs"
    using cs(1) assms(2) by (cases ev; auto simp: mail_def alive_def split: list.splits if_splits)+
  with cs assms(2) dispatch_keeps_running show ?thesis by (simp add: alive_def del: dispatch.simps)
qed

lemma actor_step_inv:
  assumes "actor_step cx n ev ov = Some ov'" and "ov_inv ov"
  shows "ov_inv ov'"
proof -
  from assms(1) obtain e e' evs where e: "map_of (ov_services ov) n = Some e"
      "entry_step (cx_os cx n) n ev (event_capacity - length (ov_events ov)) e = Some (e', evs)"
      "ov' = ov\<lparr>ov_services := im_insert n e' (ov_services ov), ov_events := ov_events ov @ evs\<rparr>"
    by (auto simp: actor_step_def split: option.splits)
  have "alive e" "all_alive ov" using e(1) assms(2) by (auto simp: ov_inv_def all_alive_def)
  with entry_step_alive [OF e(2)] have "all_alive ov'" "length (ov_events ov') \<le> event_capacity"
    using assms(2) by (auto simp: e(3) all_alive_def ov_inv_def)
  moreover have "set (ov_pending ov) \<subseteq> planned ov" using assms(2) by (simp add: ov_inv_def)
  ultimately show ?thesis
    by (intro ov_inv_step [OF assms(2)]) (simp_all add: e(3) planned_def keys_known [OF e(1)])
qed

lemma removed_step_inv:
  assumes "removed_step cx i ev ov = Some ov'" and "ov_inv ov"
  shows "ov_inv ov'"
proof -
  from assms(1) obtain rs evs where o': "ov' = ov\<lparr>ov_removed_services := rs, ov_events := ov_events ov @ evs\<rparr>"
      and "length evs \<le> event_capacity - length (ov_events ov)"
    by (auto simp: removed_step_def entry_step_def Let_def simp del: dispatch.simps split: if_splits prod.splits option.splits)
  then have "length (ov_events ov') \<le> event_capacity" using assms(2) by (auto simp: ov_inv_def)
  with assms(2) show ?thesis by (simp add: o' ov_inv_def planned_def all_alive_def numbered_def)
qed

lemma check_steps_inv:
  "check_actor_step n i ov = Some ov' \<Longrightarrow> ov_inv ov \<Longrightarrow> ov_inv ov'"
  "removed_check_step k i ov = Some ov' \<Longrightarrow> ov_inv ov \<Longrightarrow> ov_inv ov'"
  by (auto simp: check_actor_step_def removed_check_step_def split: option.splits if_splits prod.splits)

subsection \<open>The daemon\<close>

lemma daemon_inv_simps [simp]:
  "daemon_inv (Serving ov) = ov_inv ov" "daemon_inv (ShutDown ov)" "daemon_inv (ExitedWithCode code ov)"
  "daemon_inv Hung" "daemon_inv Dead"
  by (simp_all add: daemon_inv_def)

lemma daemon_of_inv: "(\<And>ov. r = Finished (ov, None) \<Longrightarrow> ov_inv ov) \<Longrightarrow> daemon_inv (daemon_of r)"
  by (auto simp: daemon_of_def split: outcome.splits prod.splits option.splits)

lemma overlord_run_inv:
  assumes "overlord_new cx p boot_id http https = Finished ov"
  shows "daemon_inv (overlord_run cx ov)"
  unfolding overlord_run_def
proof (rule daemon_of_inv)
  fix ov'
  assume "and_then (autostart cx (sync_actors cx ov)) (\<lambda>ov'. Finished (ov', None)) = Finished (ov', None)"
  then have a: "autostart cx (sync_actors cx ov) = Finished ov'" by (auto simp: and_then_Finished)
  from assms have new: "ov_plan ov = p" "ov_services ov = []" "ov_events ov = []" "ov_pending ov = []"
      "ov_changes ov = []" "ov_change_counter ov = 0"
    by (auto simp: overlord_new_def split: option.splits)
  let ?s = "sync_actors cx ov"
  have "n \<in> set (im_keys (ov_services ?s)) \<longleftrightarrow> n \<in> set (im_keys (plan_services p))" for n
    using map_of_eq_None_iff [of "ov_services ?s" n] map_of_eq_None_iff [of "plan_services p" n]
    by (simp add: sync_actors_services new)
  then have "set (im_keys (ov_services ?s)) = planned ?s" by (auto simp: planned_def new)
  moreover have "im_wf (ov_services ?s)" by (rule sync_actors_wf) (simp add: new)
  moreover have "all_alive ?s" by (rule sync_actors_alive) (simp add: all_alive_def new)
  ultimately have "ov_inv ?s" by (simp add: ov_inv_def new numbered_def change_ids_def)
  from autostart_inv [OF a this] show "ov_inv ov'" .
qed

lemma on_command_inv: "ov_inv ov \<Longrightarrow> daemon_inv (on_command cx cmd ov)"
  using handle_cmd_inv
  by (cases cmd) (auto simp: on_command_def split: outcome.splits prod.splits ov_cmd.splits)

lemma on_service_event_inv: "ov_inv ov \<Longrightarrow> daemon_inv (on_service_event cx ev ov)"
  unfolding on_service_event_def
  by (rule daemon_of_inv) (auto simp: and_then_Finished dest: svc_event_inv split: option.splits)

lemma daemon_step_inv: "daemon_inv d \<Longrightarrow> daemon_step d d' \<Longrightarrow> daemon_inv d'"
proof (erule daemon_step.cases)
  fix ov cx cmd
  assume "daemon_inv d" "d = Serving ov" "d' = on_command cx cmd ov"
  then show "daemon_inv d'" by (simp add: on_command_inv)
next
  fix ov ev evs cx
  assume "daemon_inv d" "d = Serving ov" "d' = on_service_event cx ev (ov\<lparr>ov_events := evs\<rparr>)" "ov_events ov = ev # evs"
  moreover from this have "ov_inv (ov\<lparr>ov_events := evs\<rparr>)" by (simp add: ov_inv_def planned_def numbered_def)
  ultimately show "daemon_inv d'" by (simp add: on_service_event_inv)
next
  fix ov ev evs cx
  assume "daemon_inv d" "d = Serving ov" "d' = daemon_of (handle_check_event cx ev (ov\<lparr>ov_check_events := evs\<rparr>))"
  then show "daemon_inv d'" by (auto intro!: daemon_of_inv elim!: check_event_inv)
qed (use actor_step_inv removed_step_inv check_steps_inv in auto)

interpretation daemon: invariant_system daemon_init daemon_step daemon_inv
proof
  fix d d'
  show "daemon_init d \<Longrightarrow> daemon_inv d" by (auto simp: daemon_init_def overlord_run_inv)
  show "daemon_inv d \<Longrightarrow> daemon_step d d' \<Longrightarrow> daemon_inv d'" by (rule daemon_step_inv)
qed

subsection \<open>An answer from every actor\<close>

lemma command_reply:
  assumes "c \<in> {CmdStart, CmdStop, CmdRestart}"
  shows "\<exists>xs r. a_trace (dispatch os (OnCmd c) a) = a_trace a @ xs @ [EReply r]"
proof -
  have start: "\<exists>xs r. a_trace (handle_start os a) = a_trace a @ xs @ [EReply r]" for a
    by (cases rule: handle_start_cases [of a os]) (simp_all add: actor_simps)
  have signal: "\<exists>ks. a_trace (send_stop_signal os a) = a_trace a @ ks"
    using stop_signal_trace by blast
  from assms consider "c = CmdStart" | "c = CmdStop" | "c = CmdRestart" by blast
  then show ?thesis
  proof cases
    case 2
    with signal show ?thesis by (auto simp: handle_stop_def actor_simps)
  next
    case 3
    with signal start [of a] show ?thesis
      by (cases "is_running (a_state a) \<or> a_state a = Stopping")
        (auto simp: handle_restart_busy handle_restart_idle actor_simps)
  qed (use start in simp)
qed

lemma reply_after_command:
  assumes "c \<in> {CmdStart, CmdStop, CmdRestart}"
  shows "reply_between a (dispatch os (OnCmd c) a) \<noteq> None"
proof -
  from command_reply [OF assms] obtain xs r where "a_trace (dispatch os (OnCmd c) a) = a_trace a @ xs @ [EReply r]"
    by blast
  then show ?thesis by (simp add: reply_between_def del: dispatch.simps split: list.splits)
qed

lemma demo_serving:
  "\<exists>ov. reach daemon_init daemon_step (Serving ov) \<and> plan_services (ov_plan ov) = [(''web'', new_web)] \<and> ov_changes ov = []"
proof -
  let ?cx = "demo_cx\<lparr>cx_layers := new_fs\<rparr>"
  obtain p where p: "load_plan new_fs = Inr p" "plan_services p = [(''web'', new_web)]" "plan_alert_queue_depth p = None"
    using load_new_fs by blast
  then obtain ov where new: "overlord_new ?cx p [] [] None = Finished ov"
    by (auto simp: overlord_new_def alert_limits_def default_delivery_queue_def with_queue_limits_def split: option.splits)
  then have plan: "ov_plan ov = p" by (auto simp: overlord_new_def split: option.splits)
  have "enabled_services (sync_actors ?cx ov) = []"
    by (simp add: enabled_services_def plan p new_web_def service_config_default_def)
  then have run: "overlord_run ?cx ov = Serving (sync_actors ?cx ov)"
    by (simp add: overlord_run_def autostart_def daemon_of_def)
  have "daemon_init (Serving (sync_actors ?cx ov))"
    unfolding daemon_init_def
    by (rule exI [of _ ?cx], rule exI [of _ p], rule exI [of _ "[]"], rule exI [of _ "[]"], rule exI [of _ None], rule exI [of _ ov])
      (simp add: p(1) new run)
  then have r: "reach daemon_init daemon_step (Serving (sync_actors ?cx ov))" by (rule reach_init)
  have "ov_changes (sync_actors ?cx ov) = []"
    using new by (auto simp: overlord_new_def split: option.splits)
  with r show ?thesis by (intro exI [of _ "sync_actors ?cx ov"]) (simp add: plan p(2))
qed

text \<open>
  C3. The daemon, in every state in which it serves requests and whatever commands, events, exits,
  timers and reloads led there: it has one actor for each service of the plan and no other; only
  services of the plan wait for their dependencies; the service event channel is within its
  capacity; the changes are numbered 1, 2, 3, ... in the order they were made (modulo the 64-bit
  counter); and a start, stop or restart for a service of the plan is answered by its actor: it is
  never refused as unknown, and no actor is gone.
\<close>

theorem daemon_serves_plan:
  assumes "reach daemon_init daemon_step (Serving ov)"
  shows "distinct (im_keys (ov_services ov)) \<and> set (im_keys (ov_services ov)) = set (im_keys (plan_services (ov_plan ov))) \<and>
    set (ov_pending ov) \<subseteq> set (im_keys (plan_services (ov_plan ov))) \<and>
    length (ov_events ov) \<le> 256 \<and>
    map ch_id (ov_changes ov) = change_ids (length (ov_changes ov)) \<and>
    (\<forall>cx n c ov' r. n \<in> set (im_keys (plan_services (ov_plan ov))) \<longrightarrow> c \<in> {CmdStart, CmdStop, CmdRestart} \<longrightarrow>
       svc_cmd_result cx n c ov = Finished (ov', r) \<longrightarrow> r \<noteq> Inl (UnknownService n) \<and> r \<noteq> Inl (ActorGone n))"
proof -
  have inv: "ov_inv ov" using daemon.reach_inv [OF assms] by simp
  have "r \<noteq> Inl (UnknownService n) \<and> r \<noteq> Inl (ActorGone n)"
    if n: "n \<in> planned ov" and c: "c \<in> {CmdStart, CmdStop, CmdRestart}" and r: "svc_cmd_result cx n c ov = Finished (ov', r)"
    for cx n c ov' r
  proof -
    from inv n have "map_of (ov_services ov) n \<noteq> None" by (simp add: ov_inv_def map_of_eq_None_iff)
    then obtain e where e: "map_of (ov_services ov) n = Some e" "alive e"
      using inv by (auto simp: ov_inv_def all_alive_def)
    then have "a_running (take_mail (cx_os cx n) (se_mail e) (se_actor e))"
      using take_mail_running by (auto simp: alive_def)
    moreover obtain y where "reply_between (take_mail (cx_os cx n) (se_mail e) (se_actor e))
        (dispatch (cx_os cx n) (OnCmd c) (take_mail (cx_os cx n) (se_mail e) (se_actor e))) = Some y"
      using reply_after_command [OF c] by blast
    ultimately show ?thesis
      using r e(1) by (cases y) (auto simp: svc_cmd_result_def Let_def simp del: dispatch.simps split: if_splits)
  qed
  with inv show ?thesis by (auto simp: ov_inv_def im_wf_def planned_def event_capacity_def numbered_def)
qed

theorem daemon_serves_plan_witness:
  "\<exists>ov. reach daemon_init daemon_step (Serving ov) \<and> set (im_keys (ov_services ov)) = {''web''}"
proof -
  obtain ov where ov: "reach daemon_init daemon_step (Serving ov)" "plan_services (ov_plan ov) = [(''web'', new_web)]"
    using demo_serving by blast
  from daemon_serves_plan [OF ov(1)] ov show ?thesis by auto
qed

end
