(* ===== verification/Relay.thy ===== *)
theory Relay
  imports HttpClient Logs
begin

text \<open>
  The log relay, \<open>crates/vigil-log-relay/src\<close>: the liveness tracker (\<open>healthcheck.rs\<close>), the
  line filter (\<open>filter.rs\<close>), the HTTP sources with their framing and reconnect loops
  (\<open>source_http/mod.rs\<close>, \<open>source_unix/mod.rs\<close>, \<open>source_url/mod.rs\<close>) and the TCP sink
  (\<open>tcp_sink.rs\<close>). A compiled regular expression is the predicate it decides; compiling one is a
  parameter.
\<close>

subsection \<open>Liveness\<close>

record liveness =
  lv_last_tick :: nat
  lv_max_age_secs :: nat

definition liveness_new :: "nat \<Rightarrow> nat \<Rightarrow> liveness" where
  "liveness_new now max_age_secs = \<lparr> lv_last_tick = now, lv_max_age_secs = max_age_secs \<rparr>"

definition liveness_tick :: "nat \<Rightarrow> liveness \<Rightarrow> liveness" where
  "liveness_tick now l = l\<lparr>lv_last_tick := now\<rparr>"

definition is_alive :: "nat \<Rightarrow> liveness \<Rightarrow> bool" where
  "is_alive now l \<longleftrightarrow> now - lv_last_tick l \<le> lv_max_age_secs l"

definition healthz :: "nat \<Rightarrow> liveness \<Rightarrow> nat \<times> string" where
  "healthz now l = (if is_alive now l then (200, ''ok'' @ [CHR 0x0A]) else (503, ''stale'' @ [CHR 0x0A]))"

subsection \<open>The line filter\<close>

type_synonym regex = "string \<Rightarrow> bool"

datatype relay_error =
    InvalidInclude string string
  | InvalidExclude string string
  | InvalidExcludePod string string
  | TooManyFailures string "64 word"
  | ClientError string
  | RequestError string

record line_filter =
  lf_include :: "regex list"
  lf_exclude :: "regex list"

text \<open>\<open>collect\<close> into a \<open>Result\<close>: the first error wins.\<close>

fun compile_all :: "(string \<Rightarrow> string + regex) \<Rightarrow> (string \<Rightarrow> string \<Rightarrow> relay_error) \<Rightarrow> string list \<Rightarrow> relay_error + regex list" where
  "compile_all compile err [] = Inr []"
| "compile_all compile err (p # ps) =
     (case compile p of
        Inl e \<Rightarrow> Inl (err p e)
      | Inr re \<Rightarrow> (case compile_all compile err ps of Inl e \<Rightarrow> Inl e | Inr res \<Rightarrow> Inr (re # res)))"

definition filter_new :: "(string \<Rightarrow> string + regex) \<Rightarrow> string list \<Rightarrow> string list \<Rightarrow> relay_error + line_filter" where
  "filter_new compile includes excludes =
     (case compile_all compile InvalidInclude includes of
        Inl e \<Rightarrow> Inl e
      | Inr is \<Rightarrow>
          (case compile_all compile InvalidExclude excludes of
             Inl e \<Rightarrow> Inl e
           | Inr es \<Rightarrow> Inr \<lparr> lf_include = is, lf_exclude = es \<rparr>))"

definition allow :: "line_filter \<Rightarrow> string \<Rightarrow> bool" where
  "allow f line =
     (if lf_include f \<noteq> [] \<and> \<not> list_ex (\<lambda>re. re line) (lf_include f) then False
      else if list_ex (\<lambda>re. re line) (lf_exclude f) then False
      else True)"

subsection \<open>The channel to the sink\<close>

definition channel_capacity :: nat where "channel_capacity = 8192"

text \<open>\<open>try_send\<close>: a full channel drops the line.\<close>

definition try_send_line :: "string \<Rightarrow> string list \<Rightarrow> string list" where
  "try_send_line line q = (if length q < channel_capacity then q @ [line] else q)"

subsection \<open>Framing\<close>

text \<open>The payload of a line: SSE metadata and empty payloads have none.\<close>

definition framed_payload :: "string \<Rightarrow> string option" where
  "framed_payload line =
     (if line = [] \<or> starts_with line '':'' then None
      else if starts_with line ''event:'' \<or> starts_with line ''id:'' \<or> starts_with line ''retry:'' then None
      else let payload = (case strip_prefix ''data:'' line of
                            Some rest \<Rightarrow> dropWhile (\<lambda>c. c = CHR '' '') rest
                          | None \<Rightarrow> line)
           in if payload = [] then None else Some payload)"

definition forward_line :: "line_filter \<Rightarrow> string \<Rightarrow> string list \<Rightarrow> string list" where
  "forward_line flt line q =
     (case framed_payload line of
        None \<Rightarrow> q
      | Some payload \<Rightarrow> if allow flt payload then try_send_line (payload @ [CHR 0x0A]) q else q)"

text \<open>
  \<open>stream_loop\<close> over what its source does: a line, the end, an error, the idle timer, and the sink
  taking lines from the channel meanwhile. The result is the channel and how the loop ended
  (\<open>Some True\<close> for a clean end), if it did.
\<close>

datatype stream_input = NextLine string | StreamEof | StreamError | IdleExpired | SinkTakes nat

fun stream_loop :: "line_filter \<Rightarrow> nat \<Rightarrow> stream_input list \<Rightarrow> string list \<Rightarrow> string list \<times> bool option" where
  "stream_loop flt idle_timeout_ms [] q = (q, None)"
| "stream_loop flt idle_timeout_ms (NextLine line # is) q = stream_loop flt idle_timeout_ms is (forward_line flt line q)"
| "stream_loop flt idle_timeout_ms (StreamEof # is) q = (q, Some True)"
| "stream_loop flt idle_timeout_ms (StreamError # is) q = (q, Some False)"
| "stream_loop flt idle_timeout_ms (IdleExpired # is) q =
     (if 0 < idle_timeout_ms then (q, Some False) else stream_loop flt idle_timeout_ms is q)"
| "stream_loop flt idle_timeout_ms (SinkTakes k # is) q = stream_loop flt idle_timeout_ms is (drop k q)"

subsection \<open>Reconnecting sources\<close>

record reconnect_config =
  rc_initial_delay_ms :: nat
  rc_max_delay_ms :: nat
  rc_max_retries :: "64 word"

definition bump_failures :: "64 word \<Rightarrow> 64 word \<Rightarrow> string \<Rightarrow> relay_error + 64 word" where
  "bump_failures failures max_retries source =
     (let n = failures + 1 in
      if 0 < max_retries \<and> max_retries \<le> n then Inl (TooManyFailures source max_retries) else Inr n)"

definition source_next_delay :: "nat \<Rightarrow> nat \<Rightarrow> nat" where
  "source_next_delay max_delay_ms backoff = min (backoff * 2) max_delay_ms"

text \<open>
  One connection attempt: refused, answered with an error status, or streamed until a clean or
  unclean end. The result of the loop is the delays it slept and the error it ended with.
\<close>

datatype source_attempt = Refused | BadStatus | Streamed bool

fun source_loop :: "reconnect_config \<Rightarrow> string \<Rightarrow> nat \<Rightarrow> 64 word \<Rightarrow> source_attempt list \<Rightarrow> nat list \<times> relay_error option" where
  "source_loop cfg label backoff failures [] = ([], None)"
| "source_loop cfg label backoff failures (a # as) =
     (let (failures1, backoff1) =
            (case a of Streamed _ \<Rightarrow> (0, rc_initial_delay_ms cfg) | _ \<Rightarrow> (failures, backoff))
      in case (if a = Streamed True then Inr failures1 else bump_failures failures1 (rc_max_retries cfg) label) of
           Inl e \<Rightarrow> ([], Some e)
         | Inr failures2 \<Rightarrow>
             (case source_loop cfg label (source_next_delay (rc_max_delay_ms cfg) backoff1) failures2 as of
                (delays, r) \<Rightarrow> (backoff1 # delays, r)))"

text \<open>The Unix socket source: the request is built anew for every attempt.\<close>

definition source_unix_run :: "(string \<Rightarrow> string + string) \<Rightarrow> string \<Rightarrow> string \<Rightarrow> reconnect_config \<Rightarrow> source_attempt list \<Rightarrow>
    nat list \<times> relay_error option" where
  "source_unix_run parse_uri socket path cfg as =
     (case parse_uri (''http://localhost'' @ path) of
        Inl e \<Rightarrow> ([], Some (RequestError e))
      | Inr _ \<Rightarrow> source_loop cfg socket (rc_initial_delay_ms cfg) 0 as)"

text \<open>
  The client of the URL source. Its certificate loader is the daemon's line by line, up to the wording
  of one error.
\<close>

record source_conn =
  sc_connect_timeout_ms :: nat
  sc_read_timeout_ms :: nat
  sc_idle_timeout_ms :: nat
  sc_keepalive_interval_secs :: nat
  sc_keepalive_timeout_secs :: nat
  sc_source_insecure :: bool
  sc_source_cacert :: "string option"
  sc_proxy_url :: "string option"
  sc_proxy_insecure :: bool
  sc_proxy_cacert :: "string option"
  sc_no_proxy :: "string option"

record source_client =
  cl_insecure :: bool
  cl_ca_certs :: "string list"
  cl_connect_timeout :: "nat option"
  cl_read_timeout :: "nat option"
  cl_keepalive_secs :: "nat option"
  cl_source_proxy :: "(string \<times> string list) option"

definition opt_setting :: "nat \<Rightarrow> nat option" where
  "opt_setting n = (if 0 < n then Some n else None)"

definition source_client_of :: "host_env \<Rightarrow> source_conn \<Rightarrow> relay_error + source_client" where
  "source_client_of env conn =
     (case load_roots env (sc_source_cacert conn) of Inl e \<Rightarrow> Inl (ClientError e) | Inr roots \<Rightarrow>
     (case (case sc_proxy_url conn of
              None \<Rightarrow> Inr None
            | Some u \<Rightarrow> (case he_parse_url env u of
                          Inl e \<Rightarrow> Inl e
                        | Inr uri \<Rightarrow> Inr (Some (uri, parse_no_proxy (sc_no_proxy conn))))) of
        Inl e \<Rightarrow> Inl (ClientError e)
      | Inr proxy \<Rightarrow>
     (case load_roots env (sc_proxy_cacert conn) of Inl e \<Rightarrow> Inl (ClientError e) | Inr proxy_roots \<Rightarrow>
        Inr \<lparr> cl_insecure = (sc_source_insecure conn \<or> sc_proxy_insecure conn), cl_ca_certs = roots @ proxy_roots,
              cl_connect_timeout = opt_setting (sc_connect_timeout_ms conn),
              cl_read_timeout = opt_setting (sc_read_timeout_ms conn),
              cl_keepalive_secs = opt_setting (sc_keepalive_interval_secs conn), cl_source_proxy = proxy \<rparr>)))"

definition source_proxy_for :: "source_client \<Rightarrow> string \<Rightarrow> string option" where
  "source_proxy_for client host =
     (case cl_source_proxy client of
        None \<Rightarrow> None
      | Some (uri, entries) \<Rightarrow> if no_proxy_matches host entries then None else Some uri)"

text \<open>\<open>builds\<close> is the builder of the HTTP library, which may refuse the settings.\<close>

definition source_url_run :: "host_env \<Rightarrow> (source_client \<Rightarrow> string option) \<Rightarrow> string \<Rightarrow> source_conn \<Rightarrow> reconnect_config \<Rightarrow>
    source_attempt list \<Rightarrow> nat list \<times> relay_error option" where
  "source_url_run env builds url conn cfg as =
     (case source_client_of env conn of
        Inl e \<Rightarrow> ([], Some e)
      | Inr client \<Rightarrow>
          (case builds client of
             Some e \<Rightarrow> ([], Some (ClientError e))
           | None \<Rightarrow> source_loop cfg url (rc_initial_delay_ms cfg) 0 as))"

subsection \<open>The TCP sink\<close>

record sink_config =
  kc_connect_timeout_ms :: nat
  kc_write_timeout_ms :: nat
  kc_idle_timeout_ms :: nat
  kc_keepalive_interval_secs :: "64 word"
  kc_keepalive_timeout_secs :: "64 word"
  kc_reconnect_delay_ms :: nat
  kc_reconnect_max_ms :: nat

text \<open>The keepalive settings put on a connection: idle time, interval and probes.\<close>

definition keepalive_of :: "sink_config \<Rightarrow> (64 word \<times> 64 word \<times> nat) option" where
  "keepalive_of cfg =
     (if kc_keepalive_interval_secs cfg = 0 then None
      else Some (if 0 < kc_keepalive_timeout_secs cfg then kc_keepalive_timeout_secs cfg
                 else kc_keepalive_interval_secs cfg * 3,
                 kc_keepalive_interval_secs cfg, 3))"

datatype sink_phase = Connecting | Sleeping nat | Receiving | Writing string | SinkExited

text \<open>
  \<open>sk_accepted\<close> records every line the channel took, \<open>sk_written\<close> the lines written in full with the
  number of the connection they went to.
\<close>

record sink =
  sk_phase :: sink_phase
  sk_pending :: "string option"
  sk_backoff :: nat
  sk_queue :: "string list"
  sk_closed :: bool
  sk_connection :: nat
  sk_accepted :: "string list"
  sk_written :: "(nat \<times> string) list"

definition sink_init :: "sink_config \<Rightarrow> sink \<Rightarrow> bool" where
  "sink_init cfg s \<longleftrightarrow> s = \<lparr> sk_phase = Connecting, sk_pending = None, sk_backoff = kc_reconnect_delay_ms cfg,
     sk_queue = [], sk_closed = False, sk_connection = 0, sk_accepted = [], sk_written = [] \<rparr>"

datatype sink_input =
    ConnectResult bool
  | SleepOver
  | ReceiveNext
  | IdleTimeout
  | WriteResult bool
  | Offer string
  | SendersGone

text \<open>The head of the inner loop: a line that failed to write comes first.\<close>

definition next_to_write :: "sink \<Rightarrow> sink" where
  "next_to_write s =
     (case sk_pending s of
        Some p \<Rightarrow> s\<lparr>sk_phase := Writing p, sk_pending := None\<rparr>
      | None \<Rightarrow> s\<lparr>sk_phase := Receiving\<rparr>)"

fun sink_react :: "sink_config \<Rightarrow> sink_input \<Rightarrow> sink \<Rightarrow> sink option" where
  "sink_react cfg (ConnectResult ok) s =
     (if sk_phase s \<noteq> Connecting then None
      else if ok
      then Some (next_to_write (s\<lparr>sk_backoff := kc_reconnect_delay_ms cfg, sk_connection := sk_connection s + 1\<rparr>))
      else Some (s\<lparr>sk_phase := Sleeping (sk_backoff s)\<rparr>))"
| "sink_react cfg SleepOver s =
     (case sk_phase s of
        Sleeping d \<Rightarrow> Some (s\<lparr>sk_phase := Connecting, sk_backoff := min (sk_backoff s * 2) (kc_reconnect_max_ms cfg)\<rparr>)
      | _ \<Rightarrow> None)"
| "sink_react cfg ReceiveNext s =
     (if sk_phase s \<noteq> Receiving then None
      else (case sk_queue s of
              l # q \<Rightarrow> Some (s\<lparr>sk_phase := Writing l, sk_queue := q\<rparr>)
            | [] \<Rightarrow> if sk_closed s then Some (s\<lparr>sk_phase := SinkExited\<rparr>) else None))"
| "sink_react cfg IdleTimeout s =
     (if sk_phase s = Receiving \<and> 0 < kc_idle_timeout_ms cfg \<and> sk_queue s = [] \<and> \<not> sk_closed s
      then Some (s\<lparr>sk_phase := Connecting\<rparr>) else None)"
| "sink_react cfg (WriteResult ok) s =
     (case sk_phase s of
        Writing l \<Rightarrow>
          if ok then Some (next_to_write (s\<lparr>sk_written := sk_written s @ [(sk_connection s, l)]\<rparr>))
          else Some (s\<lparr>sk_pending := Some l, sk_phase := Connecting\<rparr>)
      | _ \<Rightarrow> None)"
| "sink_react cfg (Offer line) s =
     (if sk_closed s \<or> sk_phase s = SinkExited then None
      else let q = try_send_line line (sk_queue s)
           in Some (s\<lparr>sk_queue := q, sk_accepted := sk_accepted s @ drop (length (sk_queue s)) q\<rparr>))"
| "sink_react cfg SendersGone s = Some (s\<lparr>sk_closed := True\<rparr>)"

inductive sink_step :: "sink_config \<Rightarrow> sink \<Rightarrow> sink \<Rightarrow> bool" for cfg where
  sink_step: "sink_react cfg i s = Some t \<Longrightarrow> sink_step cfg s t"

inductive_cases sink_stepE: "sink_step cfg s t"

text \<open>The standard output sink of \<open>main.rs\<close>: every line is followed by one more line feed.\<close>

definition stdout_sink :: "string list \<Rightarrow> string" where
  "stdout_sink lines = concat (map (\<lambda>l. l @ [CHR 0x0A]) lines)"

end
