(* ===== verification/RelayProps.thy ===== *)
theory RelayProps
  imports Relay
begin

text \<open>
  What the relay promises: the sink writes what it accepted, in order; a source gives up after the
  configured number of failures in a row; the two stream formats of the daemon relay alike.
\<close>

subsection \<open>The sink\<close>

text \<open>The lines the sink still holds: the one being written or kept for a retry, then the channel.\<close>

definition in_hand :: "sink \<Rightarrow> string list" where
  "in_hand s = (case sk_pending s of Some p \<Rightarrow> [p] | None \<Rightarrow> []) @ (case sk_phase s of Writing l \<Rightarrow> [l] | _ \<Rightarrow> []) @ sk_queue s"

definition sink_inv :: "sink_config \<Rightarrow> sink \<Rightarrow> bool" where
  "sink_inv cfg s \<longleftrightarrow>
     map snd (sk_written s) @ in_hand s = sk_accepted s \<and>
     (sk_pending s \<noteq> None \<longrightarrow> sk_phase s = Connecting \<or> (\<exists>d. sk_phase s = Sleeping d)) \<and>
     (sk_phase s = SinkExited \<longrightarrow> sk_queue s = []) \<and>
     length (sk_queue s) \<le> channel_capacity \<and>
     sorted (map fst (sk_written s)) \<and> (\<forall>(c, l) \<in> set (sk_written s). c \<le> sk_connection s) \<and>
     sk_backoff s \<le> max (kc_reconnect_delay_ms cfg) (kc_reconnect_max_ms cfg) \<and>
     (\<forall>d. sk_phase s = Sleeping d \<longrightarrow> d \<le> max (kc_reconnect_delay_ms cfg) (kc_reconnect_max_ms cfg))"

lemma next_to_write_inv:
  assumes "map snd (sk_written s) @ (case sk_pending s of Some p \<Rightarrow> [p] | None \<Rightarrow> []) @ sk_queue s = sk_accepted s"
    and "length (sk_queue s) \<le> channel_capacity" and "sorted (map fst (sk_written s))"
    and "\<forall>(c, l) \<in> set (sk_written s). c \<le> sk_connection s"
    and "sk_backoff s \<le> max (kc_reconnect_delay_ms cfg) (kc_reconnect_max_ms cfg)"
  shows "sink_inv cfg (next_to_write s)"
  using assms by (auto simp: sink_inv_def next_to_write_def in_hand_def split: option.splits)

lemma sink_react_inv:
  assumes "sink_react cfg i s = Some t" and inv: "sink_inv cfg s"
  shows "sink_inv cfg t"
proof (cases i)
  case (ConnectResult ok)
  with assms(1) have ph: "sk_phase s = Connecting" by (simp split: if_splits)
  show ?thesis
  proof (cases ok)
    case True
    with assms(1) ConnectResult ph have t: "t = next_to_write (s\<lparr>sk_backoff := kc_reconnect_delay_ms cfg, sk_connection := sk_connection s + 1\<rparr>)"
      by simp
    show ?thesis
      unfolding t using inv ph by (intro next_to_write_inv) (auto simp: sink_inv_def in_hand_def)
  next
    case False
    with assms(1) ConnectResult ph have "t = s\<lparr>sk_phase := Sleeping (sk_backoff s)\<rparr>" by simp
    with inv ph show ?thesis by (auto simp: sink_inv_def in_hand_def)
  qed
next
  case SleepOver
  with assms(1) obtain d where "sk_phase s = Sleeping d"
      "t = s\<lparr>sk_phase := Connecting, sk_backoff := min (sk_backoff s * 2) (kc_reconnect_max_ms cfg)\<rparr>"
    by (auto split: sink_phase.splits)
  with inv show ?thesis by (auto simp: sink_inv_def in_hand_def)
next
  case ReceiveNext
  with assms(1) have ph: "sk_phase s = Receiving" by (simp split: if_splits)
  with inv have "sk_pending s = None" by (auto simp: sink_inv_def)
  with inv ph assms(1) ReceiveNext show ?thesis
    by (fastforce simp: sink_inv_def in_hand_def split: list.splits if_splits)
next
  case IdleTimeout
  with inv assms(1) show ?thesis by (fastforce simp: sink_inv_def in_hand_def split: if_splits)
next
  case (WriteResult ok)
  with assms(1) obtain l where ph: "sk_phase s = Writing l" by (auto split: sink_phase.splits)
  with inv have none: "sk_pending s = None" by (auto simp: sink_inv_def)
  show ?thesis
  proof (cases ok)
    case True
    with assms(1) WriteResult ph have t: "t = next_to_write (s\<lparr>sk_written := sk_written s @ [(sk_connection s, l)]\<rparr>)" by simp
    show ?thesis
      unfolding t using inv ph none
      by (intro next_to_write_inv) (auto simp: sink_inv_def in_hand_def sorted_append)
  next
    case False
    with assms(1) WriteResult ph have "t = s\<lparr>sk_pending := Some l, sk_phase := Connecting\<rparr>" by simp
    with inv ph none show ?thesis by (auto simp: sink_inv_def in_hand_def)
  qed
next
  case (Offer line)
  with assms(1) have "sk_phase s \<noteq> SinkExited" "t = s\<lparr>sk_queue := try_send_line line (sk_queue s),
      sk_accepted := sk_accepted s @ drop (length (sk_queue s)) (try_send_line line (sk_queue s))\<rparr>"
    by (auto simp: Let_def split: if_splits)
  with inv show ?thesis
    by (auto simp: sink_inv_def in_hand_def try_send_line_def split: option.splits sink_phase.splits)
next
  case SendersGone
  with assms(1) inv show ?thesis by (auto simp: sink_inv_def in_hand_def)
qed

lemma sink_init_inv: "sink_init cfg s \<Longrightarrow> sink_inv cfg s"
  by (auto simp: sink_init_def sink_inv_def in_hand_def)

interpretation relay_sink: invariant_system "sink_init cfg" "sink_step cfg" "sink_inv cfg" for cfg
  by standard (auto simp: sink_init_inv elim!: sink_stepE intro: sink_react_inv)

text \<open>
  C24. The sink loses and repeats nothing it accepted: over any sequence of connects, failures,
  timeouts and offers, the lines written so far are the first lines the channel accepted, in their
  order and each once, the connections they went to never go back, and once the sink has ended
  every accepted line is written. No delay between two attempts exceeds the larger of the two
  configured ones.
\<close>

theorem sink_delivers_in_order:
  assumes "reach (sink_init cfg) (sink_step cfg) s"
  shows "\<exists>rest. sk_accepted s = map snd (sk_written s) @ rest \<and> (sk_phase s = SinkExited \<longrightarrow> rest = []) \<and>
    sorted (map fst (sk_written s)) \<and> length (sk_queue s) \<le> channel_capacity \<and>
    (\<forall>d. sk_phase s = Sleeping d \<longrightarrow> d \<le> max (kc_reconnect_delay_ms cfg) (kc_reconnect_max_ms cfg))"
  using relay_sink.reach_inv [OF assms]
  by (intro exI [of _ "in_hand s"]) (auto simp: sink_inv_def in_hand_def)

definition demo_sink_config :: sink_config where
  "demo_sink_config = \<lparr> kc_connect_timeout_ms = 0, kc_write_timeout_ms = 0, kc_idle_timeout_ms = 0,
     kc_keepalive_interval_secs = 0, kc_keepalive_timeout_secs = 0, kc_reconnect_delay_ms = 10, kc_reconnect_max_ms = 100 \<rparr>"

fun sink_run :: "sink_config \<Rightarrow> sink_input list \<Rightarrow> sink \<Rightarrow> sink option" where
  "sink_run cfg [] s = Some s"
| "sink_run cfg (i # is) s = (case sink_react cfg i s of None \<Rightarrow> None | Some t \<Rightarrow> sink_run cfg is t)"

lemma sink_run_reach:
  "sink_run cfg is s = Some t \<Longrightarrow> reach (sink_init cfg) (sink_step cfg) s \<Longrightarrow> reach (sink_init cfg) (sink_step cfg) t"
proof (induction "is" arbitrary: s)
  case (Cons i "is")
  then obtain u where u: "sink_react cfg i s = Some u" "sink_run cfg is u = Some t" by (auto split: option.splits)
  from reach_step [OF Cons.prems(2) sink_step [OF u(1)]] Cons.IH u(2) show ?case by blast
qed simp

theorem sink_delivers_in_order_witness:
  "\<exists>s. reach (sink_init demo_sink_config) (sink_step demo_sink_config) s \<and> sk_phase s = SinkExited \<and>
     map snd (sk_written s) = [''a'', ''b''] \<and> sk_accepted s = [''a'', ''b'']"
proof -
  define s0 where "s0 = \<lparr> sk_phase = Connecting, sk_pending = None, sk_backoff = 10,
     sk_queue = [], sk_closed = False, sk_connection = 0, sk_accepted = [], sk_written = [] \<rparr>"
  have init: "reach (sink_init demo_sink_config) (sink_step demo_sink_config) s0"
    by (rule reach_init) (simp add: sink_init_def demo_sink_config_def s0_def)
  note steps = demo_sink_config_def try_send_line_def channel_capacity_def next_to_write_def Let_def
  obtain s1 where s1: "sink_run demo_sink_config [Offer ''a'', ConnectResult False, SleepOver, ConnectResult True, ReceiveNext,
      WriteResult False, Offer ''b''] s0 = Some s1"
    and v1: "sk_phase s1 = Connecting" "sk_pending s1 = Some ''a''" "sk_queue s1 = [''b'']" "sk_written s1 = []"
      "\<not> sk_closed s1"
    by (simp add: s0_def steps)
  obtain s2 where s2: "sink_run demo_sink_config [ConnectResult True, WriteResult True, ReceiveNext, WriteResult True,
      SendersGone, ReceiveNext] s1 = Some s2"
    and v2: "sk_phase s2 = SinkExited" "map snd (sk_written s2) = [''a'', ''b'']"
    by (simp add: v1 steps)
  note t = sink_run_reach [OF s2 sink_run_reach [OF s1 init]] v2
  with sink_delivers_in_order [OF t(1)] show ?thesis by auto
qed

subsection \<open>Giving up\<close>

text \<open>How many failures in a row an attempt history ends with.\<close>

fun failures_after :: "nat \<Rightarrow> source_attempt \<Rightarrow> nat" where
  "failures_after n (Streamed clean) = (if clean then 0 else 1)"
| "failures_after n a = Suc n"

definition failure_runs :: "nat \<Rightarrow> source_attempt list \<Rightarrow> nat list" where
  "failure_runs n as = map (\<lambda>k. fold (\<lambda>a m. failures_after m a) (take k as) n) [1..<Suc (length as)]"

lemma failure_runs_Cons: "failure_runs n (a # as) = failures_after n a # failure_runs (failures_after n a) as"
proof -
  have "[1..<Suc (length (a # as))] = 1 # map Suc [1..<Suc (length as)]"
    by (simp add: map_Suc_upt upt_conv_Cons del: upt_Suc)
  then show ?thesis by (simp add: failure_runs_def)
qed

lemma source_loop_exit:
  assumes "unat failures + length as < 2 ^ 64"
  shows "(snd (source_loop cfg label backoff failures as) = None) \<longleftrightarrow>
    rc_max_retries cfg = 0 \<or> (\<forall>n \<in> set (failure_runs (unat failures) as). n < unat (rc_max_retries cfg))"
  using assms
proof (induction as arbitrary: failures backoff)
  case Nil
  then show ?case by (simp add: failure_runs_def)
next
  case (Cons a as)
  let ?f1 = "case a of Streamed _ \<Rightarrow> 0 | _ \<Rightarrow> failures"
  have bound: "unat ?f1 + 1 < 2 ^ 64" using Cons.prems by (cases a) auto
  then have suc: "unat (?f1 + 1) = Suc (unat ?f1)"
    by (subst unat_add_lem [THEN iffD1]) simp_all
  show ?case
  proof (cases "a = Streamed True")
    case True
    have "unat (0 :: 64 word) + length as < 2 ^ 64" using Cons.prems by simp
    note IH = Cons.IH [OF this, of "source_next_delay (rc_max_delay_ms cfg) (rc_initial_delay_ms cfg)"]
    have "0 < unat (rc_max_retries cfg)" if "rc_max_retries cfg \<noteq> 0" using that by (simp add: unat_gt_0)
    with IH show ?thesis by (auto simp: True failure_runs_Cons split: prod.splits)
  next
    case False
    have fa: "failures_after (unat failures) a = Suc (unat ?f1)" using False by (cases a) auto
    have len: "unat (?f1 + 1) + length as < 2 ^ 64" using Cons.prems suc by (cases a) auto
    show ?thesis
    proof (cases "0 < rc_max_retries cfg \<and> rc_max_retries cfg \<le> ?f1 + 1")
      case True
      then have "unat (rc_max_retries cfg) \<le> Suc (unat ?f1)" using suc by (simp add: word_le_nat_alt)
      with True False show ?thesis
        by (cases a) (auto simp: bump_failures_def Let_def failure_runs_Cons fa [symmetric])
    next
      case ok: False
      then have "rc_max_retries cfg = 0 \<or> Suc (unat ?f1) < unat (rc_max_retries cfg)"
        using suc word_neq_0_conv [of "rc_max_retries cfg"] by (auto simp: word_le_nat_alt not_le)
      moreover have "snd (source_loop cfg label backoff failures (a # as)) = snd (source_loop cfg label
          (source_next_delay (rc_max_delay_ms cfg) (case a of Streamed _ \<Rightarrow> rc_initial_delay_ms cfg | _ \<Rightarrow> backoff)) (?f1 + 1) as)"
        using False ok by (cases a) (auto simp: bump_failures_def Let_def split: prod.splits)
      moreover note Cons.IH [OF len, of "source_next_delay (rc_max_delay_ms cfg) (case a of Streamed _ \<Rightarrow> rc_initial_delay_ms cfg | _ \<Rightarrow> backoff)"]
      ultimately show ?thesis by (simp only: suc failure_runs_Cons fa list.set) blast
    qed
  qed
qed

text \<open>
  A source gives up exactly when \<open>max_retries\<close> attempts in a row failed: it never gives up
  when the limit is 0, a stream that was established resets the count, its unclean end counts as
  the first failure again and its clean end as none.
\<close>

theorem source_gives_up:
  assumes "length as < 2 ^ 64"
  shows "(\<exists>e. snd (source_loop cfg label (rc_initial_delay_ms cfg) 0 as) = Some e) \<longleftrightarrow>
    0 < rc_max_retries cfg \<and> (\<exists>n \<in> set (failure_runs 0 as). unat (rc_max_retries cfg) \<le> n)"
proof -
  have "unat (0 :: 64 word) + length as < 2 ^ 64" using assms by simp
  from source_loop_exit [OF this, of cfg label "rc_initial_delay_ms cfg"] show ?thesis
    by (auto simp: not_less word_neq_0_conv [symmetric])
qed

theorem source_gives_up_witness:
  "snd (source_loop \<lparr>rc_initial_delay_ms = 100, rc_max_delay_ms = 1000, rc_max_retries = 2\<rparr> ''x'' 100 0
     [Refused, Streamed False, Refused, Refused]) \<noteq> None"
  using source_gives_up [of "[Refused, Streamed False, Refused, Refused]"
      "\<lparr>rc_initial_delay_ms = 100, rc_max_delay_ms = 1000, rc_max_retries = 2\<rparr>" "''x''"]
  by (simp add: failure_runs_Cons)

end
