(* ===== verification/RelayFollow.thy ===== *)
theory RelayFollow
  imports RelayProps
begin

text \<open>
  The relay behind the daemon's follow endpoint: what \<open>follow_logs\<close> sends, in either format, and what
  the relay makes of it.
\<close>

text \<open>
  The lines a client reads: an event of the SSE format is a \<open>data:\<close> line or a comment and an empty
  line; the other format is the concatenated chunks.
\<close>

definition sse_lines :: "follow_item list \<Rightarrow> string list" where
  "sse_lines its = concat (map (\<lambda>i. case i of Data s \<Rightarrow> [''data: '' @ s, []] | Comment t \<Rightarrow> ['': '' @ t, []]) its)"

definition ndjson_text :: "follow_item list \<Rightarrow> string" where
  "ndjson_text its = concat (map (\<lambda>i. case i of Data s \<Rightarrow> s | Comment _ \<Rightarrow> []) its)"

lemma split_on_lines: "\<forall>j \<in> set js. d \<notin> set j \<Longrightarrow> split_on d (concat (map (\<lambda>j. j @ [d]) js)) = js @ [[]]"
  by (induction js) (simp_all add: split_on_append)

lemma str_lines_concat:
  assumes "\<forall>j \<in> set js. CHR 0x0A \<notin> set j \<and> CHR 0x0D \<notin> set j"
  shows "str_lines (concat (map (\<lambda>j. j @ [CHR 0x0A]) js)) = js"
proof -
  have "split_on (CHR 0x0A) (concat (map (\<lambda>j. j @ [CHR 0x0A]) js)) = js @ [[]]" using assms by (intro split_on_lines) auto
  moreover have "strip_return j = j" if "j \<in> set js" for j
    using assms that by (metis strip_return_def last_in_set)
  then have "map (\<lambda>(i, l). if i + 1 < Suc (length js) then strip_return l else l) (enumerate 0 js) = map snd (enumerate 0 js)"
    by (intro map_cong) (auto simp: in_set_enumerate_eq)
  ultimately show ?thesis by (simp add: str_lines_def Let_def)
qed

definition offer_json :: "line_filter \<Rightarrow> string \<Rightarrow> string list \<Rightarrow> string list" where
  "offer_json flt j q = (if allow flt j then try_send_line (j @ [CHR 0x0A]) q else q)"

lemma forward_json: "forward_line flt (CHR ''{'' # body) q = offer_json flt (CHR ''{'' # body) q"
  by (simp add: forward_line_def framed_payload_def offer_json_def strip_prefix_def)

lemma forward_data: "forward_line flt (''data: '' @ CHR ''{'' # body) q = offer_json flt (CHR ''{'' # body) q"
  by (simp add: forward_line_def framed_payload_def offer_json_def strip_prefix_def)

lemma forward_metadata: "forward_line flt [] q = q" "forward_line flt ('': '' @ t) q = q"
  by (simp_all add: forward_line_def framed_payload_def)

lemma forward_event_fields: "m \<in> {'':'', ''event:'', ''id:'', ''retry:''} \<Longrightarrow> forward_line flt (m @ t) q = q"
  by (auto simp: forward_line_def framed_payload_def)

lemma stream_loop_lines: "stream_loop flt t (map NextLine ls @ rest) q = stream_loop flt t rest (fold (forward_line flt) ls q)"
  by (induction ls arbitrary: q) simp_all

text \<open>The entries a follower is sent.\<close>

definition wanted :: "string list \<Rightarrow> log_entry \<Rightarrow> bool" where
  "wanted services e \<longleftrightarrow> services = [] \<or> le_service e \<in> set services"

fun followed :: "string list \<Rightarrow> recv_result list \<Rightarrow> log_entry list" where
  "followed services [] = []"
| "followed services (Received e # rs) = (if wanted services e then [e] else []) @ followed services rs"
| "followed services (Lagged n # rs) = followed services rs"
| "followed services (Closed # rs) = []"

lemma follow_logs_simps [simp]:
  "follow_logs to_json (Some fmt) services [] = []"
  "follow_logs to_json (Some fmt) services (Received e # rs) =
     (if wanted services e then [Data (follow_line to_json fmt e)] else []) @ follow_logs to_json (Some fmt) services rs"
  "follow_logs to_json (Some fmt) services (Lagged n # rs) =
     (if fmt = FmtNdjson then [] else [Comment (''lagged: skipped '' @ show_nat n @ '' entries'')])
     @ follow_logs to_json (Some fmt) services rs"
  "follow_logs to_json (Some fmt) services (Closed # rs) = []"
  by (simp_all add: follow_logs_def follow_item_of_def wanted_def List.map_filter_simps)

lemma sse_lines_simps [simp]:
  "sse_lines [] = []" "sse_lines (Data s # its) = (''data: '' @ s) # [] # sse_lines its"
  "sse_lines (Comment t # its) = ('': '' @ t) # [] # sse_lines its"
  by (simp_all add: sse_lines_def)

lemma ndjson_followed:
  "ndjson_text (follow_logs to_json (Some FmtNdjson) services rs) =
   concat (map (\<lambda>j. j @ [CHR 0x0A]) (map to_json (followed services rs)))"
  by (induction services rs rule: followed.induct) (simp_all add: ndjson_text_def follow_line_def)

definition one_line_json :: "(log_entry \<Rightarrow> string) \<Rightarrow> bool" where
  "one_line_json to_json \<longleftrightarrow> (\<forall>e. \<exists>body. to_json e = CHR ''{'' # body \<and> CHR 0x0A \<notin> set body \<and> CHR 0x0D \<notin> set body)"

lemma forward_entry:
  assumes "one_line_json to_json"
  shows "forward_line flt (to_json e) = offer_json flt (to_json e)"
    and "forward_line flt (''data: '' @ to_json e) = offer_json flt (to_json e)"
proof -
  obtain body where "to_json e = CHR ''{'' # body" using assms unfolding one_line_json_def by blast
  then show "forward_line flt (to_json e) = offer_json flt (to_json e)"
    and "forward_line flt (''data: '' @ to_json e) = offer_json flt (to_json e)"
    by (simp_all only: forward_json [THEN ext] forward_data [THEN ext])
qed

lemma forward_sse:
  assumes "one_line_json to_json"
  shows "fold (forward_line flt) (sse_lines (follow_logs to_json (Some FmtJson) services rs)) q =
    fold (offer_json flt) (map to_json (followed services rs)) q"
  by (induction services rs arbitrary: q rule: followed.induct)
    (simp_all add: follow_line_def forward_entry [OF assms, simplified] forward_metadata [simplified])

text \<open>
  A follower that lags is not disconnected (\<open>docs/user-guide/logging.md\<close> says it is): it gets every
  entry after the ones it lost.
\<close>

theorem lagged_follower_goes_on:
  "filter (\<lambda>i. \<exists>s. i = Data s) (follow_logs to_json (Some fmt) services (rs @ Lagged n # rest)) =
   filter (\<lambda>i. \<exists>s. i = Data s) (follow_logs to_json (Some fmt) services (rs @ rest))"
proof (induction rs)
  case (Cons r rs)
  then show ?case by (cases r) simp_all
qed simp

text \<open>
  The keep-alives of the event stream (\<open>KeepAlive\<close>, every 15 s of silence, the comment \<open>ping\<close>): they may
  come between any two events.
\<close>

definition keeps_alive :: "follow_item list \<Rightarrow> follow_item list \<Rightarrow> bool" where
  "keeps_alive its sent \<longleftrightarrow> filter (\<lambda>i. i \<noteq> Comment ''ping'') sent = its"

lemma forward_pings: "fold (forward_line flt) (sse_lines its) q =
    fold (forward_line flt) (sse_lines (filter (\<lambda>i. i \<noteq> Comment ''ping'') its)) q"
proof (induction its arbitrary: q)
  case (Cons i its)
  show ?case
  proof (cases "i = Comment ''ping''")
    case True
    then show ?thesis using Cons.IH forward_metadata(2) [of flt "''ping''"] by (simp add: forward_metadata(1))
  next
    case False
    then show ?thesis using Cons.IH by (cases i) simp_all
  qed
qed simp

text \<open>
  C25. The relay does not depend on the format it asks the daemon for: as long as an entry's JSON is one
  object on one line, the event stream, with keep-alives anywhere, and the line-delimited stream of
  the same entries put the same lines into the channel, namely the JSON of every followed entry the
  filter allows; and whatever comes after these lines (the end, an error, the idle timer) finds the
  relay in the same state. Lag comments and keep-alives leave no trace, nor does any other comment or
  an \<open>event:\<close>, \<open>id:\<close> or \<open>retry:\<close> field a server may send. What differs is when the idle timer fires: the
  keep-alives hold it off, and only the event stream has them.
\<close>

theorem formats_relay_alike:
  assumes "one_line_json to_json" and "keeps_alive (follow_logs to_json (Some FmtJson) services rs) sent"
  shows "stream_loop flt idle (map NextLine (sse_lines sent) @ rest) q =
      stream_loop flt idle rest (fold (offer_json flt) (map to_json (followed services rs)) q) \<and>
    stream_loop flt idle (map NextLine (str_lines (ndjson_text (follow_logs to_json (Some FmtNdjson) services rs))) @ rest) q =
      stream_loop flt idle rest (fold (offer_json flt) (map to_json (followed services rs)) q) \<and>
    (\<forall>m t. m \<in> {'':'', ''event:'', ''id:'', ''retry:''} \<longrightarrow>
      stream_loop flt idle (NextLine (m @ t) # rest) q = stream_loop flt idle rest q)"
proof -
  have "CHR 0x0A \<notin> set (to_json e) \<and> CHR 0x0D \<notin> set (to_json e)" for e
  proof -
    obtain body where "to_json e = CHR ''{'' # body" "CHR 0x0A \<notin> set body" "CHR 0x0D \<notin> set body"
      using assms(1) unfolding one_line_json_def by blast
    then show ?thesis by simp
  qed
  then have "\<forall>j \<in> set (map to_json (followed services rs)). CHR 0x0A \<notin> set j \<and> CHR 0x0D \<notin> set j" by simp
  note lines = str_lines_concat [OF this]
  have nd: "fold (forward_line flt) (map to_json es) q = fold (offer_json flt) (map to_json es) q" for es q
    by (induction es arbitrary: q) (simp_all add: forward_entry [OF assms(1)])
  have "fold (forward_line flt) (sse_lines sent) q = fold (offer_json flt) (map to_json (followed services rs)) q"
    using forward_sse [OF assms(1)] assms(2) unfolding keeps_alive_def forward_pings [of flt sent] by simp
  then have "stream_loop flt idle (map NextLine (sse_lines sent) @ rest) q =
      stream_loop flt idle rest (fold (offer_json flt) (map to_json (followed services rs)) q)"
    by (simp only: stream_loop_lines)
  moreover have "stream_loop flt idle (NextLine (m @ t) # rest) q = stream_loop flt idle rest q"
    if "m \<in> {'':'', ''event:'', ''id:'', ''retry:''}" for m t
    by (simp only: stream_loop.simps(2) forward_event_fields [OF that])
  ultimately show ?thesis
    by (simp only: stream_loop_lines ndjson_followed lines nd) blast
qed

definition sample_json :: "log_entry \<Rightarrow> string" where
  "sample_json e = ''{}''"

theorem formats_relay_alike_witness:
  "\<forall>e. stream_loop \<lparr>lf_include = [], lf_exclude = []\<rparr> 5
     (map NextLine (sse_lines [Data ''{}'', Comment ''ping'', Comment ''lagged: skipped 3 entries'']) @ [IdleExpired]) [] =
       ([''{}'' @ [CHR 0x0A]], Some False) \<and>
     keeps_alive (follow_logs sample_json (Some FmtJson) [] [Received e, Lagged 3])
       [Data ''{}'', Comment ''ping'', Comment ''lagged: skipped 3 entries'']"
proof
  fix e
  let ?flt = "\<lparr>lf_include = [], lf_exclude = []\<rparr>" and ?sent = "[Data ''{}'', Comment ''ping'', Comment ''lagged: skipped 3 entries'']"
  have j: "one_line_json sample_json" by (auto simp: one_line_json_def sample_json_def)
  have k: "keeps_alive (follow_logs sample_json (Some FmtJson) [] [Received e, Lagged 3]) ?sent"
    by (simp add: keeps_alive_def wanted_def follow_line_def sample_json_def show_nat.simps [of 3] char_of_def bit_iff_odd)
  have "fold (offer_json ?flt) (map sample_json (followed [] [Received e, Lagged 3])) [] = [''{}'' @ [CHR 0x0A]]"
    by (simp add: wanted_def offer_json_def allow_def try_send_line_def channel_capacity_def sample_json_def)
  moreover note formats_relay_alike [OF j k, of ?flt 5 "[IdleExpired]" "[]"]
  ultimately have "stream_loop ?flt 5 (map NextLine (sse_lines ?sent) @ [IdleExpired]) [] =
      stream_loop ?flt 5 [IdleExpired] [''{}'' @ [CHR 0x0A]]"
    by (simp only:)
  also have "\<dots> = ([''{}'' @ [CHR 0x0A]], Some False)" by simp
  finally show "stream_loop ?flt 5 (map NextLine (sse_lines ?sent) @ [IdleExpired]) [] = ([''{}'' @ [CHR 0x0A]], Some False) \<and>
     keeps_alive (follow_logs sample_json (Some FmtJson) [] [Received e, Lagged 3]) ?sent"
    using k by blast
qed

end
