(* ===== verification/RelayCli.thy ===== *)
theory RelayCli
  imports Relay
begin

text \<open>
  The options of the log relay (\<open>crates/vigil-log-relay/src/cli.rs\<close>) with their defaults, and what
  \<open>main.rs\<close> builds from them. The parsing of the command line itself is clap's.
\<close>

text \<open>The options, in the sections the struct has.\<close>

record relay_source_options =
  rl_kubernetes :: bool
  rl_source_url :: "string option"
  rl_source_socket :: "string option"
  rl_source_path :: string
  rl_source_connect_timeout :: nat
  rl_source_read_timeout :: nat
  rl_source_idle_timeout :: nat
  rl_source_keepalive_interval :: nat
  rl_source_keepalive_timeout :: nat
  rl_source_insecure :: bool
  rl_source_cacert :: "string option"
  rl_source_proxy :: "string option"
  rl_source_proxy_insecure :: bool
  rl_source_proxy_cacert :: "string option"
  rl_source_no_proxy :: "string option"

record relay_reconnect_options = relay_source_options +
  rl_source_reconnect_delay :: nat
  rl_source_reconnect_max :: nat
  rl_source_reconnect_retries :: "64 word"

record relay_kube_options = relay_reconnect_options +
  rl_namespace :: string
  rl_pod_selector :: string
  rl_watch_interval :: nat
  rl_container :: "string option"
  rl_tail_lines :: int
  rl_since_seconds :: int
  rl_exclude_pod :: "string list"
  rl_max_log_requests :: nat
  rl_no_stream_param :: bool

record relay_dest_options = relay_kube_options +
  rl_include :: "string list"
  rl_exclude :: "string list"
  rl_stdout_sink :: bool
  rl_tcp_sink_host :: string
  rl_tcp_sink_port :: "16 word"
  rl_dest_connect_timeout :: nat
  rl_dest_read_timeout :: nat
  rl_dest_idle_timeout :: nat
  rl_dest_keepalive_interval :: "64 word"
  rl_dest_keepalive_timeout :: "64 word"
  rl_dest_reconnect_delay :: nat
  rl_dest_reconnect_max :: nat

record relay_cli = relay_dest_options +
  rl_healthcheck :: string
  rl_healthcheck_max_age :: nat
  rl_log_format :: string
  rl_debug :: bool

text \<open>The values of the options when none is given on the command line or in the environment.\<close>

definition default_cli :: relay_cli where
  "default_cli = \<lparr>
     rl_kubernetes = False, rl_source_url = None, rl_source_socket = None,
     rl_source_path = ''/v1/logs/follow?format=ndjson'',
     rl_source_connect_timeout = 10000, rl_source_read_timeout = 0, rl_source_idle_timeout = 0,
     rl_source_keepalive_interval = 0, rl_source_keepalive_timeout = 0,
     rl_source_insecure = False, rl_source_cacert = None,
     rl_source_proxy = None, rl_source_proxy_insecure = False, rl_source_proxy_cacert = None, rl_source_no_proxy = None,
     rl_source_reconnect_delay = 500, rl_source_reconnect_max = 30000, rl_source_reconnect_retries = 0,
     rl_namespace = ''default'', rl_pod_selector = '''', rl_watch_interval = 10, rl_container = None,
     rl_tail_lines = 0, rl_since_seconds = 10, rl_exclude_pod = [], rl_max_log_requests = 0, rl_no_stream_param = False,
     rl_include = [], rl_exclude = [], rl_stdout_sink = False,
     rl_tcp_sink_host = ''127.0.0.1'', rl_tcp_sink_port = 5170,
     rl_dest_connect_timeout = 10000, rl_dest_read_timeout = 0, rl_dest_idle_timeout = 0,
     rl_dest_keepalive_interval = 0, rl_dest_keepalive_timeout = 0,
     rl_dest_reconnect_delay = 500, rl_dest_reconnect_max = 30000,
     rl_healthcheck = ''127.0.0.1:9091'', rl_healthcheck_max_age = 30,
     rl_log_format = ''text'', rl_debug = False \<rparr>"

text \<open>The conflicts clap enforces between the sources.\<close>

definition cli_conflict :: "relay_cli \<Rightarrow> bool" where
  "cli_conflict c \<longleftrightarrow>
     (rl_source_url c \<noteq> None \<and> (rl_kubernetes c \<or> rl_source_socket c \<noteq> None)) \<or>
     (rl_source_socket c \<noteq> None \<and> (rl_kubernetes c \<or> rl_source_url c \<noteq> None))"

definition sink_config_of :: "relay_cli \<Rightarrow> sink_config" where
  "sink_config_of c = \<lparr>
     kc_connect_timeout_ms = rl_dest_connect_timeout c, kc_write_timeout_ms = rl_dest_read_timeout c,
     kc_idle_timeout_ms = rl_dest_idle_timeout c, kc_keepalive_interval_secs = rl_dest_keepalive_interval c,
     kc_keepalive_timeout_secs = rl_dest_keepalive_timeout c, kc_reconnect_delay_ms = rl_dest_reconnect_delay c,
     kc_reconnect_max_ms = rl_dest_reconnect_max c \<rparr>"

definition source_conn_of :: "relay_cli \<Rightarrow> source_conn" where
  "source_conn_of c = \<lparr>
     sc_connect_timeout_ms = rl_source_connect_timeout c, sc_read_timeout_ms = rl_source_read_timeout c,
     sc_idle_timeout_ms = rl_source_idle_timeout c, sc_keepalive_interval_secs = rl_source_keepalive_interval c,
     sc_keepalive_timeout_secs = rl_source_keepalive_timeout c, sc_source_insecure = rl_source_insecure c,
     sc_source_cacert = rl_source_cacert c, sc_proxy_url = rl_source_proxy c,
     sc_proxy_insecure = rl_source_proxy_insecure c, sc_proxy_cacert = rl_source_proxy_cacert c,
     sc_no_proxy = rl_source_no_proxy c \<rparr>"

definition reconnect_of :: "relay_cli \<Rightarrow> reconnect_config" where
  "reconnect_of c = \<lparr> rc_initial_delay_ms = rl_source_reconnect_delay c, rc_max_delay_ms = rl_source_reconnect_max c,
     rc_max_retries = rl_source_reconnect_retries c \<rparr>"

text \<open>What \<open>main\<close> starts: the sink and one source.\<close>

datatype relay_sink = StdoutSink | TcpSink string sink_config

datatype relay_source =
    KubernetesSource
  | UrlSource string source_conn reconnect_config
  | SocketSource string string source_conn reconnect_config

definition relay_start :: "(string \<Rightarrow> string + regex) \<Rightarrow> relay_cli \<Rightarrow>
    string + (relay_sink \<times> (relay_error + line_filter \<times> relay_source option))" where
  "relay_start compile c =
     (if (if rl_kubernetes c then 1 else 0) + (if rl_source_url c \<noteq> None then 1 else 0)
           + (if rl_source_socket c \<noteq> None then 1 else (0 :: nat)) = 0
      then Inl ''specify exactly one source: --kubernetes, --source-url, or --source-socket''
      else
        let addr = rl_tcp_sink_host c @ '':'' @ show_nat (unat (rl_tcp_sink_port c));
            snk = (if rl_stdout_sink c then StdoutSink else TcpSink addr (sink_config_of c))
        in Inr (snk,
             case filter_new compile (rl_include c) (rl_exclude c) of
               Inl e \<Rightarrow> Inl e
             | Inr flt \<Rightarrow> Inr (flt,
                 if rl_kubernetes c then Some KubernetesSource
                 else (case rl_source_url c of
                         Some url \<Rightarrow> Some (UrlSource url (source_conn_of c) (reconnect_of c))
                       | None \<Rightarrow> (case rl_source_socket c of
                                    Some p \<Rightarrow> Some (SocketSource p (rl_source_path c) (source_conn_of c) (reconnect_of c))
                                  | None \<Rightarrow> None)))))"

subsection \<open>Logging and the end\<close>

text \<open>The filter of the relay's own log and its layout; \<open>rust_log\<close>: the variable is set.\<close>

datatype log_filter = FromEnv | FromEnvAnd string

datatype log_layout = JsonLayout | TimedText | BareText

definition relay_logging :: "bool \<Rightarrow> relay_cli \<Rightarrow> log_filter \<times> log_layout" where
  "relay_logging rust_log c =
     (if rust_log then FromEnv else if rl_debug c then FromEnvAnd ''debug'' else FromEnvAnd ''info'',
      if rl_log_format c = ''json'' then JsonLayout
      else if rl_debug c \<or> rust_log then TimedText
      else BareText)"

text \<open>
  What \<open>main\<close> waits for: the source's task, which may panic, fail or end, or a signal. Its result is
  the exit status; the lines the sink still holds are not waited for.
\<close>

datatype relay_wake = SourcePanicked string | SourceFailed string | SourceEnded | RelaySigTerm | RelaySigInt

fun relay_end :: "relay_wake \<Rightarrow> string + unit" where
  "relay_end (SourcePanicked e) = Inl e"
| "relay_end (SourceFailed e) = Inl e"
| "relay_end SourceEnded = Inr ()"
| "relay_end RelaySigTerm = Inr ()"
| "relay_end RelaySigInt = Inr ()"

end
