(* ===== verification/RelayK8s.thy ===== *)
theory RelayK8s
  imports RelayCli "HOL-Library.List_Lexorder" "HOL-Library.Char_ord"
begin

text \<open>
  The Kubernetes source, \<open>crates/vigil-log-relay/src/source_k8s\<close>: the choice of containers, the loop
  over watcher events and reconcile ticks (\<open>mod.rs\<close>), the tasks that stream a container and their
  requests (\<open>stream.rs\<close>) and the settings of the API client (\<open>client.rs\<close>). The API server and its
  client library are inputs: pod events, the ends of requests, the version string.
\<close>

subsection \<open>Containers\<close>

record pod =
  pd_name :: "string option"
  pd_phase :: "string option"
  pd_containers :: "string list option"

datatype container_selector = DefaultContainer | AllContainers | Named "string list"

definition from_cli :: "string option \<Rightarrow> container_selector" where
  "from_cli s =
     (case s of
        None \<Rightarrow> DefaultContainer
      | Some v \<Rightarrow> if v = ''all'' then AllContainers
                  else Named (filter (\<lambda>n. n \<noteq> []) (map trim (split_on (CHR '','') v))))"

definition keys_for_pod :: "container_selector \<Rightarrow> pod \<Rightarrow> string list" where
  "keys_for_pod sel p =
     (case sel of
        DefaultContainer \<Rightarrow> [[]]
      | Named names \<Rightarrow> names
      | AllContainers \<Rightarrow> (case pd_containers p of Some cs \<Rightarrow> cs | None \<Rightarrow> [[]]))"

text \<open>The version of the API server; both numbers are strings there.\<close>

definition trim_end_non_digits :: "string \<Rightarrow> string" where
  "trim_end_non_digits s = rev (dropWhile (\<lambda>c. \<not> is_ascii_digit c) (rev s))"

definition detect_stream_param_support :: "(string \<times> string) option \<Rightarrow> bool" where
  "detect_stream_param_support info =
     (case info of
        None \<Rightarrow> False
      | Some (major_str, minor_str) \<Rightarrow>
          let minor = (case parse_u32 (trim_end_non_digits minor_str) of Some n \<Rightarrow> n | None \<Rightarrow> 0);
              major = (case parse_u32 major_str of Some n \<Rightarrow> n | None \<Rightarrow> 0)
          in (major = 1 \<and> 32 \<le> minor) \<or> 1 < major)"

definition stream_params :: "string \<Rightarrow> string set \<Rightarrow> int \<Rightarrow> int \<Rightarrow> int \<times> int" where
  "stream_params name initialized tail_lines since_seconds =
     (if name \<in> initialized then (0, since_seconds) else (tail_lines, since_seconds))"

definition log_url :: "string \<Rightarrow> string \<Rightarrow> string \<Rightarrow> int \<Rightarrow> int \<Rightarrow> string option \<Rightarrow> string" where
  "log_url namespace name container_key tail_lines since_seconds stream =
     ''/api/v1/namespaces/'' @ namespace @ ''/pods/'' @ name @ ''/log?follow=true&timestamps=true''
     @ (if container_key \<noteq> [] then ''&container='' @ container_key else [])
     @ (if 0 < tail_lines then ''&tailLines='' @ show_nat (nat tail_lines)
        else if 0 < since_seconds then ''&sinceSeconds='' @ show_nat (nat since_seconds) else [])
     @ (case stream of Some s \<Rightarrow> ''&stream='' @ s | None \<Rightarrow> [])"

subsection \<open>Tasks\<close>

text \<open>
  A task of \<open>try_start\<close> holds a permit of the semaphore, if there is one, until it is dropped. A task
  that was aborted is dropped when the runtime gets to it. Its requests are tasks of their own when
  standard output and error are streamed apart, so they outlive it unless they are aborted too.
\<close>

record stream_task =
  st_id :: nat
  st_aborted :: bool

record log_request =
  lr_owner :: nat
  lr_url :: string
  lr_stream :: string
  lr_aborted :: bool

record k8s =
  ks_running :: "string \<rightharpoonup> string list"
  ks_active :: "string \<times> string \<rightharpoonup> nat"
  ks_initialized :: "string set"
  ks_permits :: "nat option"
  ks_tasks :: "stream_task list"
  ks_requests :: "log_request list"
  ks_next :: nat
  ks_ticks :: nat
  ks_ended :: bool

definition k8s_new :: "relay_cli \<Rightarrow> k8s" where
  "k8s_new c = \<lparr> ks_running = Map.empty, ks_active = Map.empty, ks_initialized = {},
     ks_permits = (if 0 < rl_max_log_requests c then Some (rl_max_log_requests c) else None),
     ks_tasks = [], ks_requests = [], ks_next = 0, ks_ticks = 0, ks_ended = False \<rparr>"

definition try_start :: "relay_cli \<Rightarrow> bool \<Rightarrow> string \<Rightarrow> int \<times> int \<Rightarrow> string \<Rightarrow> k8s \<Rightarrow> bool \<times> k8s" where
  "try_start c use_stream_param name params ck s =
     (if ks_active s (name, ck) \<noteq> None then (False, s)
      else if ks_permits s = Some 0 then (False, s)
      else
        let i = ks_next s;
            url = (\<lambda>str. log_url (rl_namespace c) name ck (fst params) (snd params) str);
            req = (\<lambda>u str. \<lparr> lr_owner = i, lr_url = u, lr_stream = str, lr_aborted = False \<rparr>);
            reqs = (if use_stream_param
                    then [req (url (Some ''Stdout'')) ''stdout'', req (url (Some ''Stderr'')) ''stderr'']
                    else [req (url None) ''output''])
        in (True, s\<lparr> ks_permits := map_option (\<lambda>n. n - 1) (ks_permits s),
                     ks_tasks := ks_tasks s @ [\<lparr> st_id = i, st_aborted = False \<rparr>],
                     ks_requests := ks_requests s @ reqs,
                     ks_active := (ks_active s)((name, ck) \<mapsto> i),
                     ks_next := i + 1 \<rparr>))"

fun try_start_all :: "relay_cli \<Rightarrow> bool \<Rightarrow> string \<Rightarrow> int \<times> int \<Rightarrow> string list \<Rightarrow> k8s \<Rightarrow> bool \<times> k8s" where
  "try_start_all c sp name params [] s = (False, s)"
| "try_start_all c sp name params (ck # cks) s =
     (let (started, s1) = try_start c sp name params ck s;
          (any_started, s2) = try_start_all c sp name params cks s1
      in (started \<or> any_started, s2))"

text \<open>The part the two arms of the loop share: start what a running pod misses.\<close>

definition start_pod :: "relay_cli \<Rightarrow> bool \<Rightarrow> string \<Rightarrow> string list \<Rightarrow> k8s \<Rightarrow> k8s" where
  "start_pod c sp name keys s =
     (let params = stream_params name (ks_initialized s) (rl_tail_lines c) (rl_since_seconds c);
          (any_started, s1) = try_start_all c sp name params keys s
      in if any_started then s1\<lparr>ks_initialized := insert name (ks_initialized s1)\<rparr> else s1)"

text \<open>\<open>active.retain\<close> with an abort of the handles of one pod.\<close>

definition abort_pod :: "string \<Rightarrow> k8s \<Rightarrow> k8s" where
  "abort_pod name s =
     (let gone = {i. \<exists>ck. ks_active s (name, ck) = Some i} in
      s\<lparr> ks_active := (\<lambda>k. if fst k = name then None else ks_active s k),
         ks_tasks := map (\<lambda>t. if st_id t \<in> gone then t\<lparr>st_aborted := True\<rparr> else t) (ks_tasks s) \<rparr>)"

subsection \<open>The loop\<close>

datatype watch_event = Apply pod | InitApply pod | Delete pod | WatchInit | InitDone

definition handle_apply :: "relay_cli \<Rightarrow> bool \<Rightarrow> (string \<Rightarrow> bool) \<Rightarrow> pod \<Rightarrow> k8s \<Rightarrow> k8s" where
  "handle_apply c sp excluded p s =
     (case pd_name p of
        None \<Rightarrow> s
      | Some name \<Rightarrow>
          if pd_phase p = Some ''Running''
          then (if excluded name then s
                else let keys = keys_for_pod (from_cli (rl_container c)) p
                     in start_pod c sp name keys (s\<lparr>ks_running := (ks_running s)(name \<mapsto> keys)\<rparr>))
          else if ks_running s name \<noteq> None
          then abort_pod name (s\<lparr>ks_running := (ks_running s)(name := None)\<rparr>)
          else s)"

definition handle_watch :: "relay_cli \<Rightarrow> bool \<Rightarrow> (string \<Rightarrow> bool) \<Rightarrow> watch_event \<Rightarrow> k8s \<Rightarrow> k8s" where
  "handle_watch c sp excluded ev s =
     (case ev of
        Apply p \<Rightarrow> handle_apply c sp excluded p s
      | InitApply p \<Rightarrow> handle_apply c sp excluded p s
      | Delete p \<Rightarrow>
          (case pd_name p of
             None \<Rightarrow> s
           | Some name \<Rightarrow> abort_pod name (s\<lparr> ks_running := (ks_running s)(name := None),
                                              ks_initialized := ks_initialized s - {name} \<rparr>))
      | InitDone \<Rightarrow> s\<lparr>ks_ticks := ks_ticks s + 1\<rparr>
      | WatchInit \<Rightarrow> s)"

text \<open>\<open>order\<close> is the order in which the hash map of running pods is walked.\<close>

definition drop_finished :: "k8s \<Rightarrow> k8s" where
  "drop_finished s =
     (let live = st_id ` set (ks_tasks s) in
      s\<lparr>ks_active := (\<lambda>k. case ks_active s k of Some i \<Rightarrow> if i \<in> live then Some i else None | None \<Rightarrow> None)\<rparr>)"

definition reconcile :: "relay_cli \<Rightarrow> bool \<Rightarrow> string list \<Rightarrow> k8s \<Rightarrow> k8s" where
  "reconcile c sp order s =
     (let s1 = drop_finished s;
          s2 = fold (\<lambda>name. start_pod c sp name (case ks_running s name of Some keys \<Rightarrow> keys | None \<Rightarrow> [])) order s1
      in s2\<lparr>ks_ticks := ks_ticks s2 + 1\<rparr>)"

text \<open>
  \<open>RequestEnds k\<close>: the \<open>k\<close>-th open request ends, at the end of the log, with an error or because it
  was aborted. Its task, if there still is one, aborts the other request of the pair and is done.
  \<open>TaskDropped i\<close>: an aborted task is dropped; a combined request runs inside its task and goes with it.
\<close>

datatype k8s_input =
    Watch watch_event
  | WatchError
  | WatchEnded
  | ReconcileTick "string list"
  | RequestEnds nat
  | TaskDropped nat

definition release :: "nat \<Rightarrow> k8s \<Rightarrow> k8s" where
  "release i s = s\<lparr> ks_tasks := filter (\<lambda>t. st_id t \<noteq> i) (ks_tasks s), ks_permits := map_option Suc (ks_permits s) \<rparr>"

definition request_ends :: "nat \<Rightarrow> k8s \<Rightarrow> k8s" where
  "request_ends k s =
     (let r = ks_requests s ! k;
          rest = take k (ks_requests s) @ drop (Suc k) (ks_requests s)
      in if \<exists>t \<in> set (ks_tasks s). st_id t = lr_owner r \<and> \<not> st_aborted t
         then release (lr_owner r)
                (s\<lparr>ks_requests := map (\<lambda>q. if lr_owner q = lr_owner r then q\<lparr>lr_aborted := True\<rparr> else q) rest\<rparr>)
         else s\<lparr>ks_requests := rest\<rparr>)"

fun k8s_react :: "relay_cli \<Rightarrow> bool \<Rightarrow> (string \<Rightarrow> bool) \<Rightarrow> k8s_input \<Rightarrow> k8s \<Rightarrow> k8s option" where
  "k8s_react c sp excluded (Watch ev) s = (if ks_ended s then None else Some (handle_watch c sp excluded ev s))"
| "k8s_react c sp excluded WatchError s = (if ks_ended s then None else Some s)"
| "k8s_react c sp excluded WatchEnded s = (if ks_ended s then None else Some (s\<lparr>ks_ended := True\<rparr>))"
| "k8s_react c sp excluded (ReconcileTick order) s =
     (if ks_ended s \<or> set order \<noteq> dom (ks_running s) \<or> \<not> distinct order then None
      else Some (reconcile c sp order s))"
| "k8s_react c sp excluded (RequestEnds k) s =
     (if k < length (ks_requests s) then Some (request_ends k s) else None)"
| "k8s_react c sp excluded (TaskDropped i) s =
     (if \<exists>t \<in> set (ks_tasks s). st_id t = i \<and> st_aborted t
      then Some (release i (if sp then s else s\<lparr>ks_requests := filter (\<lambda>q. lr_owner q \<noteq> i) (ks_requests s)\<rparr>))
      else None)"

inductive k8s_step :: "relay_cli \<Rightarrow> bool \<Rightarrow> (string \<Rightarrow> bool) \<Rightarrow> k8s \<Rightarrow> k8s \<Rightarrow> bool" for c sp excluded where
  k8s_step: "k8s_react c sp excluded i s = Some t \<Longrightarrow> k8s_step c sp excluded s t"

inductive_cases k8s_stepE: "k8s_step c sp excluded s t"

definition k8s_init :: "relay_cli \<Rightarrow> k8s \<Rightarrow> bool" where
  "k8s_init c s \<longleftrightarrow> s = k8s_new c"

text \<open>
  \<open>run\<close> up to its loop: the patterns, then the client, then the stream parameter.
\<close>

definition k8s_prepare :: "(string \<Rightarrow> string + regex) \<Rightarrow> string option \<Rightarrow> (string \<times> string) option \<Rightarrow> relay_cli \<Rightarrow>
    relay_error + ((string \<Rightarrow> bool) \<times> bool \<times> k8s)" where
  "k8s_prepare compile client_failure info c =
     (case compile_all compile InvalidExcludePod (rl_exclude_pod c) of
        Inl e \<Rightarrow> Inl e
      | Inr res \<Rightarrow>
          (case client_failure of
             Some e \<Rightarrow> Inl (ClientError e)
           | None \<Rightarrow> Inr (\<lambda>name. list_ex (\<lambda>re. re name) res,
                          \<not> rl_no_stream_param c \<and> detect_stream_param_support info, k8s_new c)))"

subsection \<open>One stream\<close>

record relay_entry =
  re_timestamp :: string
  re_namespace :: string
  re_pod :: string
  re_container :: "string option"
  re_stream :: string
  re_message :: string

definition split_timestamp :: "string \<Rightarrow> string \<times> string" where
  "split_timestamp line = (case split_once (CHR '' '') line of Some (ts, msg) \<Rightarrow> (ts, msg) | None \<Rightarrow> (line, []))"

text \<open>The entries of a stream, in the order they are offered to the channel.\<close>

fun stream_pod :: "line_filter \<Rightarrow> string \<Rightarrow> string \<Rightarrow> string option \<Rightarrow> string \<Rightarrow> string \<Rightarrow> line_result list \<Rightarrow> relay_entry list" where
  "stream_pod flt namespace name container str last_ts [] = []"
| "stream_pod flt namespace name container str last_ts (EndOfStream # ls) = []"
| "stream_pod flt namespace name container str last_ts (LineError # ls) = []"
| "stream_pod flt namespace name container str last_ts (Line _ line # ls) =
     (let (ts, msg) = split_timestamp line in
      if ts \<le> last_ts then stream_pod flt namespace name container str last_ts ls
      else if \<not> allow flt msg then stream_pod flt namespace name container str last_ts ls
      else \<lparr> re_timestamp = ts, re_namespace = namespace, re_pod = name, re_container = container,
             re_stream = str, re_message = msg \<rparr>
           # stream_pod flt namespace name container str ts ls)"

definition offer_entries :: "(relay_entry \<Rightarrow> string) \<Rightarrow> relay_entry list \<Rightarrow> string list \<Rightarrow> string list" where
  "offer_entries to_json es q = fold (\<lambda>e. try_send_line (to_json e @ [CHR 0x0A])) es q"

subsection \<open>The API client\<close>

record kube_config =
  ku_proxy :: "string option"
  ku_accept_invalid :: bool
  ku_roots :: "string list option"

definition load_der_certs :: "(string \<Rightarrow> string + string) \<Rightarrow> (string \<Rightarrow> string + string list) \<Rightarrow> string \<Rightarrow> string + string list" where
  "load_der_certs read_file certs_of path =
     (case read_file path of
        Inl e \<Rightarrow> Inl e
      | Inr pem \<Rightarrow> (case certs_of pem of
                      Inl e \<Rightarrow> Inl (''invalid PEM certificate: '' @ e)
                    | Inr certs \<Rightarrow> if certs = [] then Inl (''no certificates found in '' @ path) else Inr certs))"

definition kube_client :: "(string + kube_config) \<Rightarrow> (string \<Rightarrow> string + string) \<Rightarrow> (string \<Rightarrow> string + string) \<Rightarrow>
    (string \<Rightarrow> string + string list) \<Rightarrow> relay_cli \<Rightarrow> string + kube_config" where
  "kube_client inferred parse_uri read_file certs_of c =
     (case inferred of Inl e \<Rightarrow> Inl e | Inr cfg \<Rightarrow>
     (case (case rl_source_proxy c of
              None \<Rightarrow> Inr cfg
            | Some u \<Rightarrow> (case parse_uri u of Inl e \<Rightarrow> Inl e | Inr uri \<Rightarrow> Inr (cfg\<lparr>ku_proxy := Some uri\<rparr>)))
      of Inl e \<Rightarrow> Inl e | Inr cfg1 \<Rightarrow>
        let cfg2 = (if rl_source_proxy_insecure c then cfg1\<lparr>ku_accept_invalid := True\<rparr> else cfg1) in
        (case rl_source_proxy_cacert c of
           None \<Rightarrow> Inr cfg2
         | Some path \<Rightarrow>
             (case load_der_certs read_file certs_of path of
                Inl e \<Rightarrow> Inl e
              | Inr ders \<Rightarrow> Inr (cfg2\<lparr>ku_roots := Some ((case ku_roots cfg2 of Some rs \<Rightarrow> rs | None \<Rightarrow> []) @ ders)\<rparr>)))))"

end
