(* ===== verification/RelayK8sProps.thy ===== *)
theory RelayK8sProps
  imports RelayK8s
begin

text \<open>
  What the Kubernetes source promises: streams of running pods only, within the configured number of
  tasks; and where it does not: deleted pods whose streams go on, pods a new list no longer names.
\<close>

subsection \<open>The invariant\<close>

definition owners_of :: "k8s \<Rightarrow> nat list" where
  "owners_of s = map lr_owner (ks_requests s)"

definition open_pair :: "k8s \<Rightarrow> nat \<Rightarrow> bool" where
  "open_pair s i \<longleftrightarrow> length (filter (\<lambda>r. lr_owner r = i \<and> \<not> lr_aborted r) (ks_requests s)) = 2"

definition streams_inv :: "(string \<Rightarrow> bool) \<Rightarrow> k8s \<Rightarrow> bool" where
  "streams_inv excluded s \<longleftrightarrow>
     (\<forall>k i. ks_active s k = Some i \<longrightarrow> fst k \<in> dom (ks_running s) \<and> i < ks_next s) \<and>
     (\<forall>k k' i. ks_active s k = Some i \<longrightarrow> ks_active s k' = Some i \<longrightarrow> k = k') \<and>
     (\<forall>n \<in> dom (ks_running s). \<not> excluded n)"

definition tasks_inv :: "relay_cli \<Rightarrow> k8s \<Rightarrow> bool" where
  "tasks_inv c s \<longleftrightarrow>
     distinct (map st_id (ks_tasks s)) \<and> (\<forall>t \<in> set (ks_tasks s). st_id t < ks_next s) \<and>
     (if 0 < rl_max_log_requests c
      then \<exists>p. ks_permits s = Some p \<and> p + length (ks_tasks s) = rl_max_log_requests c
      else ks_permits s = None)"

definition requests_inv :: "bool \<Rightarrow> k8s \<Rightarrow> bool" where
  "requests_inv sp s \<longleftrightarrow>
     (\<forall>r \<in> set (ks_requests s). lr_owner r < ks_next s) \<and>
     (if sp then \<forall>t \<in> set (ks_tasks s). \<not> st_aborted t \<longrightarrow> open_pair s (st_id t)
      else distinct (owners_of s) \<and> set (owners_of s) \<subseteq> st_id ` set (ks_tasks s))"

definition k8s_inv :: "relay_cli \<Rightarrow> bool \<Rightarrow> (string \<Rightarrow> bool) \<Rightarrow> k8s \<Rightarrow> bool" where
  "k8s_inv c sp excluded s \<longleftrightarrow> streams_inv excluded s \<and> tasks_inv c s \<and> requests_inv sp s"

lemmas k8s_inv_defs = k8s_inv_def streams_inv_def tasks_inv_def requests_inv_def

text \<open>Starting: a started key gets a fresh task with a permit and its requests.\<close>

lemma try_start_cases:
  assumes "try_start c sp n params ck s = (b, t)"
  obtains "\<not> b" "t = s" "ks_active s (n, ck) \<noteq> None \<or> ks_permits s = Some 0"
  | reqs where "b" "ks_active s (n, ck) = None" "ks_permits s \<noteq> Some 0"
      "t = s\<lparr> ks_permits := map_option (\<lambda>n. n - 1) (ks_permits s),
              ks_tasks := ks_tasks s @ [\<lparr> st_id = ks_next s, st_aborted = False \<rparr>],
              ks_requests := ks_requests s @ reqs,
              ks_active := (ks_active s)((n, ck) \<mapsto> ks_next s),
              ks_next := ks_next s + 1 \<rparr>"
      "\<forall>r \<in> set reqs. lr_owner r = ks_next s \<and> \<not> lr_aborted r" "length reqs = (if sp then 2 else 1)"
proof (cases "ks_active s (n, ck) \<noteq> None \<or> ks_permits s = Some 0")
  case True
  with assms show ?thesis by (intro that(1)) (auto simp: try_start_def split: if_splits)
next
  case False
  let ?req = "\<lambda>str x. \<lparr> lr_owner = ks_next s, lr_url = log_url (rl_namespace c) n ck (fst params) (snd params) str,
    lr_stream = x, lr_aborted = False \<rparr>"
  from False assms show ?thesis
    by (intro that(2) [of "if sp then [?req (Some ''Stdout'') ''stdout'', ?req (Some ''Stderr'') ''stderr'']
          else [?req None ''output'']"])
      (auto simp: try_start_def Let_def split: if_splits)
qed

lemma open_pair_append:
  "\<forall>r \<in> set reqs. lr_owner r \<noteq> i \<Longrightarrow> open_pair (s\<lparr>ks_requests := ks_requests s @ reqs\<rparr>) i = open_pair s i"
  by (auto simp: open_pair_def filter_empty_conv)

lemma open_pair_cong: "ks_requests s = ks_requests t \<Longrightarrow> open_pair s i = open_pair t i"
  by (simp add: open_pair_def)

lemma try_start_inv:
  assumes "try_start c sp n params ck s = (b, t)" and inv: "k8s_inv c sp excluded s" and n: "n \<in> dom (ks_running s)"
  shows "k8s_inv c sp excluded t \<and> ks_running t = ks_running s"
  using assms(1)
proof (cases rule: try_start_cases)
  case 1
  with inv show ?thesis by simp
next
  case (2 reqs)
  have a: "streams_inv excluded t"
    using inv n unfolding 2(4) k8s_inv_def streams_inv_def by (auto simp: less_Suc_eq)
  have b: "tasks_inv c t"
    using inv 2(3) unfolding 2(4) k8s_inv_def tasks_inv_def by (auto simp: less_Suc_eq split: if_splits)
  have "requests_inv sp t"
  proof (cases sp)
    case True
    have "filter (\<lambda>r. lr_owner r = ks_next s \<and> \<not> lr_aborted r) (ks_requests s) = []"
      using inv by (auto simp: k8s_inv_defs filter_empty_conv)
    moreover have "filter (\<lambda>r. lr_owner r = ks_next s \<and> \<not> lr_aborted r) reqs = reqs" using 2(5) by (auto simp: filter_id_conv)
    ultimately have new: "open_pair t (ks_next s)" using 2(6) True by (simp add: 2(4) open_pair_def)
    have old: "open_pair t i = open_pair s i" if "i < ks_next s" for i
      using 2(5) that by (auto simp: 2(4) open_pair_def filter_empty_conv)
    show ?thesis
      using inv True new old 2(5) by (auto simp: k8s_inv_defs 2(4) less_Suc_eq)
  next
    case False
    then obtain r where r: "reqs = [r]" "lr_owner r = ks_next s" using 2(5,6) by (auto simp: length_Suc_conv)
    with False inv show ?thesis by (auto simp: k8s_inv_defs 2(4) owners_of_def less_Suc_eq)
  qed
  with a b show ?thesis by (simp add: k8s_inv_def 2(4))
qed

lemma try_start_all_inv:
  "try_start_all c sp n params cks s = (b, t) \<Longrightarrow> k8s_inv c sp excluded s \<Longrightarrow> n \<in> dom (ks_running s) \<Longrightarrow>
   k8s_inv c sp excluded t \<and> ks_running t = ks_running s"
proof (induction cks arbitrary: s b)
  case (Cons ck cks)
  then obtain b1 s1 b2 where s1: "try_start c sp n params ck s = (b1, s1)"
      and t: "try_start_all c sp n params cks s1 = (b2, t)"
    by (auto split: prod.splits)
  from try_start_inv [OF s1 Cons.prems(2,3)] have "k8s_inv c sp excluded s1" "ks_running s1 = ks_running s" by auto
  with Cons.IH [OF t] Cons.prems(3) show ?case by simp
qed simp

lemma inv_initialized [simp]: "k8s_inv c sp excluded (s\<lparr>ks_initialized := x\<rparr>) = k8s_inv c sp excluded s"
  by (simp add: k8s_inv_defs owners_of_def open_pair_def)

lemma inv_ticks [simp]: "k8s_inv c sp excluded (s\<lparr>ks_ticks := x\<rparr>) = k8s_inv c sp excluded s"
  by (simp add: k8s_inv_defs owners_of_def open_pair_def)

lemma inv_ended [simp]: "k8s_inv c sp excluded (s\<lparr>ks_ended := x\<rparr>) = k8s_inv c sp excluded s"
  by (simp add: k8s_inv_defs owners_of_def open_pair_def)

lemma start_pod_inv:
  assumes "k8s_inv c sp excluded s" and "n \<in> dom (ks_running s)"
  shows "k8s_inv c sp excluded (start_pod c sp n keys s) \<and> ks_running (start_pod c sp n keys s) = ks_running s"
proof -
  let ?p = "stream_params n (ks_initialized s) (rl_tail_lines c) (rl_since_seconds c)"
  obtain b t where t: "try_start_all c sp n ?p keys s = (b, t)" by (cases "try_start_all c sp n ?p keys s")
  show ?thesis using try_start_all_inv [OF t assms] by (simp add: start_pod_def Let_def t)
qed

lemma fold_start_pod_inv:
  "k8s_inv c sp excluded s \<Longrightarrow> set order \<subseteq> dom (ks_running s) \<Longrightarrow>
   k8s_inv c sp excluded (fold (\<lambda>n. start_pod c sp n (f n)) order s) \<and>
   ks_running (fold (\<lambda>n. start_pod c sp n (f n)) order s) = ks_running s"
proof (induction order arbitrary: s)
  case (Cons n ns)
  from start_pod_inv [OF Cons.prems(1), of n "f n"] Cons.prems(2)
  have "k8s_inv c sp excluded (start_pod c sp n (f n) s)" "ks_running (start_pod c sp n (f n) s) = ks_running s" by auto
  with Cons.IH [of "start_pod c sp n (f n) s"] Cons.prems(2) show ?case by simp
qed simp

text \<open>Stopping.\<close>

lemma abort_pod_inv:
  assumes inv: "k8s_inv c sp excluded s"
  shows "k8s_inv c sp excluded (abort_pod n (s\<lparr>ks_running := (ks_running s)(n := None)\<rparr>))"
proof -
  let ?t = "abort_pod n (s\<lparr>ks_running := (ks_running s)(n := None)\<rparr>)"
  have ids: "map st_id (ks_tasks ?t) = map st_id (ks_tasks s)" by (simp add: abort_pod_def Let_def comp_def if_distrib)
  have id_set: "st_id ` set (ks_tasks ?t) = st_id ` set (ks_tasks s)" by (metis ids set_map)
  have "length (ks_tasks ?t) = length (ks_tasks s)" by (simp add: abort_pod_def Let_def)
  moreover have "ks_next ?t = ks_next s" "ks_permits ?t = ks_permits s" "ks_requests ?t = ks_requests s"
    by (simp_all add: abort_pod_def Let_def)
  moreover have "\<forall>i \<in> st_id ` set (ks_tasks ?t). i < ks_next s"
    unfolding id_set using inv by (simp add: k8s_inv_defs)
  then have "\<forall>t \<in> set (ks_tasks ?t). st_id t < ks_next s" by blast
  moreover have "\<exists>u \<in> set (ks_tasks s). st_id u = st_id t \<and> \<not> st_aborted u"
    if "t \<in> set (ks_tasks ?t)" "\<not> st_aborted t" for t
    using that by (auto simp: abort_pod_def Let_def split: if_splits)
  moreover have "streams_inv excluded ?t"
    using inv by (auto simp: k8s_inv_defs abort_pod_def Let_def)
  moreover have "open_pair ?t i = open_pair s i" for i by (rule open_pair_cong) (simp add: abort_pod_def Let_def)
  moreover have "owners_of ?t = owners_of s" by (simp add: owners_of_def abort_pod_def Let_def)
  ultimately show ?thesis
    using inv ids id_set unfolding k8s_inv_def tasks_inv_def requests_inv_def by (auto split: if_splits) metis+
qed

lemma drop_finished_inv: "k8s_inv c sp excluded s \<Longrightarrow> k8s_inv c sp excluded (drop_finished s)"
  unfolding drop_finished_def Let_def k8s_inv_defs owners_of_def open_pair_def
  by (simp split: option.splits if_splits)

lemma length_filter_key:
  "distinct (map f xs) \<Longrightarrow> i \<in> f ` set xs \<Longrightarrow> Suc (length (filter (\<lambda>x. f x \<noteq> i) xs)) = length xs"
proof (induction xs)
  case (Cons x xs)
  show ?case
  proof (cases "f x = i")
    case True
    with Cons.prems have "filter (\<lambda>x. f x \<noteq> i) xs = xs" by (auto simp: filter_id_conv) (metis image_eqI)
    with True show ?thesis by simp
  next
    case False
    with Cons show ?thesis by auto
  qed
qed simp

lemma release_inv:
  assumes "k8s_inv c sp excluded s" and "i \<in> st_id ` set (ks_tasks s)"
    and "\<not> sp \<Longrightarrow> distinct (map lr_owner rs) \<and> set (map lr_owner rs) \<subseteq> st_id ` set (ks_tasks s) - {i}"
    and "sp \<Longrightarrow> \<forall>j. j \<noteq> i \<longrightarrow> open_pair s j \<longrightarrow> open_pair (s\<lparr>ks_requests := rs\<rparr>) j"
    and "\<forall>r \<in> set rs. lr_owner r < ks_next s"
  shows "k8s_inv c sp excluded (release i (s\<lparr>ks_requests := rs\<rparr>))"
proof -
  have d: "distinct (map st_id (ks_tasks s))" using assms(1) by (simp add: k8s_inv_defs)
  note len = length_filter_key [OF d assms(2)]
  let ?t = "release i (s\<lparr>ks_requests := rs\<rparr>)"
  have a: "streams_inv excluded ?t" using assms(1) by (simp add: k8s_inv_defs release_def)
  have b: "tasks_inv c ?t"
    using assms(1) len by (auto simp: k8s_inv_defs release_def distinct_map_filter split: if_splits)
  have "requests_inv sp ?t"
  proof (cases sp)
    case True
    then show ?thesis
      using assms(1,4,5) by (auto simp: k8s_inv_defs release_def open_pair_def)
  next
    case False
    then show ?thesis using assms(3,5) by (auto simp: requests_inv_def release_def owners_of_def)
  qed
  with a b show ?thesis by (simp add: k8s_inv_def)
qed


lemma request_ends_inv:
  assumes inv: "k8s_inv c sp excluded s" and k: "k < length (ks_requests s)"
  shows "k8s_inv c sp excluded (request_ends k s)"
proof -
  define r where "r = ks_requests s ! k"
  define rest where "rest = take k (ks_requests s) @ drop (Suc k) (ks_requests s)"
  have split: "ks_requests s = take k (ks_requests s) @ r # drop (Suc k) (ks_requests s)"
    unfolding r_def by (rule id_take_nth_drop [OF k])
  have sub: "set rest \<subseteq> set (ks_requests s)" unfolding rest_def by (auto dest: in_set_takeD in_set_dropD)
  have own: "lr_owner q < ks_next s" if "q \<in> set rest" for q using inv sub that by (auto simp: k8s_inv_defs)
  have flt: "filter P rest = filter P (ks_requests s)" if "\<not> P r" for P
    using arg_cong [OF split, of "filter P"] that by (simp add: rest_def)
  have dist: "distinct (map lr_owner rest) \<and> lr_owner r \<notin> lr_owner ` set rest" if "distinct (owners_of s)"
  proof -
    from that have "distinct (map lr_owner (take k (ks_requests s) @ r # drop (Suc k) (ks_requests s)))"
      unfolding owners_of_def using split by metis
    then show ?thesis unfolding rest_def by auto
  qed
  let ?i = "lr_owner r"
  let ?rest' = "map (\<lambda>q. if lr_owner q = ?i then q\<lparr>lr_aborted := True\<rparr> else q) rest"
  have combined: "distinct (map lr_owner rest) \<and> set (map lr_owner rest) \<subseteq> st_id ` set (ks_tasks s) - {?i}" if "\<not> sp"
  proof -
    from inv that have "distinct (owners_of s)" "set (owners_of s) \<subseteq> st_id ` set (ks_tasks s)"
      by (simp_all add: k8s_inv_def requests_inv_def)
    moreover have "set (map lr_owner rest) \<subseteq> set (owners_of s)" using sub by (auto simp: owners_of_def)
    ultimately show ?thesis using dist by (simp add: subset_Diff_insert)
  qed
  have owners': "map lr_owner ?rest' = map lr_owner rest" by simp
  show ?thesis
  proof (cases "\<exists>t \<in> set (ks_tasks s). st_id t = ?i \<and> \<not> st_aborted t")
    case True
    then have "request_ends k s = release ?i (s\<lparr>ks_requests := ?rest'\<rparr>)"
      by (simp add: request_ends_def Let_def r_def rest_def)
    moreover have "k8s_inv c sp excluded (release ?i (s\<lparr>ks_requests := ?rest'\<rparr>))"
    proof (rule release_inv [OF inv])
      show "?i \<in> st_id ` set (ks_tasks s)" using True by force
      show "distinct (map lr_owner ?rest') \<and> set (map lr_owner ?rest') \<subseteq> st_id ` set (ks_tasks s) - {?i}" if "\<not> sp"
        unfolding owners' by (rule combined [OF that])
      show "\<forall>j. j \<noteq> ?i \<longrightarrow> open_pair s j \<longrightarrow> open_pair (s\<lparr>ks_requests := ?rest'\<rparr>) j" if sp
      proof (intro allI impI)
        fix j assume j: "j \<noteq> ?i" "open_pair s j"
        have "length (filter (\<lambda>q. lr_owner q = j \<and> \<not> lr_aborted q) ?rest') =
            length (filter (\<lambda>q. lr_owner q = j \<and> \<not> lr_aborted q) rest)"
          using j(1) by (induction rest) auto
        also have "\<dots> = 2" using j flt [of "\<lambda>q. lr_owner q = j \<and> \<not> lr_aborted q"] by (simp add: open_pair_def)
        finally show "open_pair (s\<lparr>ks_requests := ?rest'\<rparr>) j" by (simp add: open_pair_def)
      qed
      show "\<forall>q \<in> set ?rest'. lr_owner q < ks_next s" using own by auto metis
    qed
    ultimately show ?thesis by simp
  next
    case False
    then have t: "request_ends k s = s\<lparr>ks_requests := rest\<rparr>"
      unfolding request_ends_def Let_def r_def [symmetric] rest_def [symmetric] by (simp only: if_False)
    have "open_pair (s\<lparr>ks_requests := rest\<rparr>) j = open_pair s j" if "j \<noteq> ?i" for j
      using flt [of "\<lambda>q. lr_owner q = j \<and> \<not> lr_aborted q"] that by (simp add: open_pair_def)
    with False have "\<forall>t \<in> set (ks_tasks s). \<not> st_aborted t \<longrightarrow> open_pair (s\<lparr>ks_requests := rest\<rparr>) (st_id t) = open_pair s (st_id t)"
      by metis
    with inv own combined show ?thesis
      unfolding t by (auto simp: k8s_inv_def streams_inv_def tasks_inv_def requests_inv_def owners_of_def)
  qed
qed

lemma task_dropped_inv:
  assumes inv: "k8s_inv c sp excluded s" and t: "t \<in> set (ks_tasks s)" "st_id t = i"
  shows "k8s_inv c sp excluded (release i (if sp then s else s\<lparr>ks_requests := filter (\<lambda>q. lr_owner q \<noteq> i) (ks_requests s)\<rparr>))"
proof -
  have i: "i \<in> st_id ` set (ks_tasks s)" using t by force
  show ?thesis
  proof (cases sp)
    case True
    with release_inv [OF inv i, of "ks_requests s"] inv show ?thesis by (simp add: k8s_inv_defs)
  next
    case False
    have "k8s_inv c sp excluded (release i (s\<lparr>ks_requests := filter (\<lambda>q. lr_owner q \<noteq> i) (ks_requests s)\<rparr>))"
      using inv False by (intro release_inv [OF inv i]) (auto simp: k8s_inv_defs owners_of_def distinct_map_filter)
    with False show ?thesis by simp
  qed
qed

lemma try_start_all_running: "try_start_all c sp n params cks s = (b, t) \<Longrightarrow> ks_running t = ks_running s"
proof (induction cks arbitrary: s b)
  case (Cons ck cks)
  then obtain b1 s1 b2 where s1: "try_start c sp n params ck s = (b1, s1)"
      and t: "try_start_all c sp n params cks s1 = (b2, t)"
    by (auto split: prod.splits)
  from s1 have "ks_running s1 = ks_running s" by (cases rule: try_start_cases) auto
  with Cons.IH [OF t] show ?case by simp
qed simp

lemma start_pod_running [simp]: "ks_running (start_pod c sp n keys s) = ks_running s"
  by (auto simp: start_pod_def Let_def split: prod.splits dest: try_start_all_running)

subsection \<open>The loop\<close>

lemma handle_apply_inv:
  assumes "k8s_inv c sp excluded s" shows "k8s_inv c sp excluded (handle_apply c sp excluded p s)"
proof (cases "pd_name p")
  case (Some n)
  consider (skip) "pd_phase p = Some ''Running''" "excluded n" | (go) "pd_phase p = Some ''Running''" "\<not> excluded n"
    | (stop) "pd_phase p \<noteq> Some ''Running''" by blast
  then show ?thesis
  proof cases
    case go
    let ?s = "s\<lparr>ks_running := (ks_running s)(n \<mapsto> keys_for_pod (from_cli (rl_container c)) p)\<rparr>"
    have "k8s_inv c sp excluded ?s" using assms go(2) by (fastforce simp: k8s_inv_defs owners_of_def open_pair_def)
    from start_pod_inv [OF this, of n] go Some show ?thesis by (simp add: handle_apply_def Let_def)
  next
    case stop
    with Some assms abort_pod_inv [OF assms, of n] show ?thesis by (auto simp: handle_apply_def)
  qed (use Some assms in \<open>simp add: handle_apply_def\<close>)
qed (use assms in \<open>simp add: handle_apply_def\<close>)

lemma abort_pod_initialized: "abort_pod n (s\<lparr>ks_running := f, ks_initialized := x\<rparr>) = (abort_pod n (s\<lparr>ks_running := f\<rparr>))\<lparr>ks_initialized := x\<rparr>"
  by (simp add: abort_pod_def Let_def cong: if_cong)

lemma handle_watch_inv:
  assumes "k8s_inv c sp excluded s" shows "k8s_inv c sp excluded (handle_watch c sp excluded ev s)"
proof (cases ev)
  case (Delete p)
  with assms abort_pod_inv [OF assms] show ?thesis
    by (auto simp: handle_watch_def abort_pod_initialized split: option.splits)
qed (use assms handle_apply_inv in \<open>auto simp: handle_watch_def\<close>)

lemma reconcile_inv:
  assumes "k8s_inv c sp excluded s" and "set order = dom (ks_running s)"
  shows "k8s_inv c sp excluded (reconcile c sp order s)"
proof -
  have "ks_running (drop_finished s) = ks_running s" by (simp add: drop_finished_def Let_def)
  with fold_start_pod_inv [OF drop_finished_inv [OF assms(1)], of order] assms(2) show ?thesis
    by (simp add: reconcile_def Let_def)
qed

lemma k8s_react_inv: "k8s_react c sp excluded i s = Some t \<Longrightarrow> k8s_inv c sp excluded s \<Longrightarrow> k8s_inv c sp excluded t"
  by (cases i) (auto simp: handle_watch_inv reconcile_inv request_ends_inv simp del: if_split_asm
      dest: task_dropped_inv split: if_split_asm)

lemma k8s_init_inv: "k8s_init c s \<Longrightarrow> k8s_inv c sp excluded s"
  by (auto simp: k8s_init_def k8s_new_def k8s_inv_defs owners_of_def)

interpretation kube_source: invariant_system "k8s_init c" "k8s_step c sp excluded" "k8s_inv c sp excluded" for c sp excluded
  by standard (auto elim!: k8s_stepE intro: k8s_init_inv k8s_react_inv)


subsection \<open>What a task streams\<close>

text \<open>
  A task that was not aborted is the one of an active pod and container, and the requests of such a
  task are for the log of that container.
\<close>

definition flow_inv :: "relay_cli \<Rightarrow> k8s \<Rightarrow> bool" where
  "flow_inv c s \<longleftrightarrow>
     (\<forall>t \<in> set (ks_tasks s). \<not> st_aborted t \<longrightarrow> (\<exists>k. ks_active s k = Some (st_id t))) \<and>
     (\<forall>r \<in> set (ks_requests s). \<forall>k. ks_active s k = Some (lr_owner r) \<longrightarrow>
        (\<exists>tl ss str. lr_url r = log_url (rl_namespace c) (fst k) (snd k) tl ss str))"

lemma flow_cong: "ks_tasks t = ks_tasks s \<Longrightarrow> ks_requests t = ks_requests s \<Longrightarrow> ks_active t = ks_active s \<Longrightarrow> flow_inv c t = flow_inv c s"
  by (simp add: flow_inv_def)

lemma try_start_flow:
  assumes "try_start c sp n params ck s = (b, t)" and inv: "k8s_inv c sp excluded s" and flow: "flow_inv c s"
  shows "flow_inv c t"
proof (cases "ks_active s (n, ck) \<noteq> None \<or> ks_permits s = Some 0")
  case True
  with assms show ?thesis by (auto simp: try_start_def split: if_splits)
next
  case False
  have old: "lr_owner r < ks_next s" if "r \<in> set (ks_requests s)" for r using inv that by (simp add: k8s_inv_defs)
  have act: "i < ks_next s" if "ks_active s k = Some i" for k i
    using inv that by (cases k) (auto simp: k8s_inv_defs)
  have t: "ks_tasks t = ks_tasks s @ [\<lparr> st_id = ks_next s, st_aborted = False \<rparr>]" "ks_active t = (ks_active s)((n, ck) \<mapsto> ks_next s)"
      "\<exists>reqs. ks_requests t = ks_requests s @ reqs \<and>
        (\<forall>r \<in> set reqs. lr_owner r = ks_next s \<and> (\<exists>str. lr_url r = log_url (rl_namespace c) n ck (fst params) (snd params) str))"
    using assms(1) False by (auto simp: try_start_def Let_def split: if_splits)
  then obtain reqs where reqs: "ks_requests t = ks_requests s @ reqs"
      "\<forall>r \<in> set reqs. lr_owner r = ks_next s \<and> (\<exists>str. lr_url r = log_url (rl_namespace c) n ck (fst params) (snd params) str)"
    by blast
  have none: "ks_active s (n, ck) = None" using False by simp
  have "\<exists>k. ks_active t k = Some (st_id u)" if "u \<in> set (ks_tasks t)" "\<not> st_aborted u" for u
  proof (cases "u \<in> set (ks_tasks s)")
    case True
    with flow that(2) obtain k where k: "ks_active s k = Some (st_id u)" unfolding flow_inv_def by blast
    then have "k \<noteq> (n, ck)" using none by auto
    with k show ?thesis by (intro exI [of _ k]) (simp add: t(2))
  next
    case False
    with that(1) have "st_id u = ks_next s" by (simp add: t(1))
    then show ?thesis by (intro exI [of _ "(n, ck)"]) (simp add: t(2))
  qed
  moreover have "\<exists>tl ss str. lr_url r = log_url (rl_namespace c) (fst k) (snd k) tl ss str"
    if r: "r \<in> set (ks_requests t)" and k: "ks_active t k = Some (lr_owner r)" for r k
  proof (cases "r \<in> set (ks_requests s)")
    case True
    then have "k \<noteq> (n, ck)" using k old [OF True] by (auto simp: t(2))
    with k True flow show ?thesis unfolding flow_inv_def t(2) by auto
  next
    case False
    with r reqs have o: "lr_owner r = ks_next s" "\<exists>str. lr_url r = log_url (rl_namespace c) n ck (fst params) (snd params) str" by auto
    then have "k = (n, ck)" using k act [of k "ks_next s"] by (auto simp: t(2) split: if_splits)
    with o(2) show ?thesis by auto
  qed
  ultimately show ?thesis by (simp add: flow_inv_def)
qed

lemma try_start_all_flow:
  "try_start_all c sp n params cks s = (b, t) \<Longrightarrow> k8s_inv c sp excluded s \<Longrightarrow> n \<in> dom (ks_running s) \<Longrightarrow> flow_inv c s \<Longrightarrow> flow_inv c t"
proof (induction cks arbitrary: s b)
  case (Cons ck cks)
  then obtain b1 s1 b2 where s1: "try_start c sp n params ck s = (b1, s1)" and t: "try_start_all c sp n params cks s1 = (b2, t)"
    by (auto split: prod.splits)
  from try_start_inv [OF s1 Cons.prems(2,3)] have i: "k8s_inv c sp excluded s1" "ks_running s1 = ks_running s" by auto
  from Cons.IH [OF t i(1) _ try_start_flow [OF s1 Cons.prems(2,4)]] Cons.prems(3) i(2) show ?case by simp
qed simp

lemma start_pod_flow:
  assumes "k8s_inv c sp excluded s" and "n \<in> dom (ks_running s)" and "flow_inv c s"
  shows "flow_inv c (start_pod c sp n keys s)"
proof -
  let ?p = "stream_params n (ks_initialized s) (rl_tail_lines c) (rl_since_seconds c)"
  obtain b t where t: "try_start_all c sp n ?p keys s = (b, t)" by (cases "try_start_all c sp n ?p keys s")
  have "flow_inv c (t\<lparr>ks_initialized := x\<rparr>) = flow_inv c t" for x by (rule flow_cong) simp_all
  with try_start_all_flow [OF t assms] show ?thesis by (simp add: start_pod_def Let_def t)
qed

lemma fold_start_pod_flow:
  "k8s_inv c sp excluded s \<Longrightarrow> set order \<subseteq> dom (ks_running s) \<Longrightarrow> flow_inv c s \<Longrightarrow>
   flow_inv c (fold (\<lambda>n. start_pod c sp n (f n)) order s)"
proof (induction order arbitrary: s)
  case (Cons n ns)
  have n: "n \<in> dom (ks_running s)" using Cons.prems(2) by simp
  from start_pod_inv [OF Cons.prems(1) n, of "f n"] start_pod_flow [OF Cons.prems(1) n Cons.prems(3), of "f n"]
    Cons.IH [of "start_pod c sp n (f n) s"] Cons.prems(2) show ?case by simp
qed simp

lemma abort_pod_flow: "flow_inv c s \<Longrightarrow> ks_active t = ks_active s \<Longrightarrow> ks_tasks t = ks_tasks s \<Longrightarrow> ks_requests t = ks_requests s \<Longrightarrow>
    flow_inv c (abort_pod n t)"
proof -
  assume f: "flow_inv c s" "ks_active t = ks_active s" "ks_tasks t = ks_tasks s" "ks_requests t = ks_requests s"
  have "\<exists>k. ks_active (abort_pod n t) k = Some (st_id u)" if u: "u \<in> set (ks_tasks (abort_pod n t))" "\<not> st_aborted u" for u
  proof -
    from u f(2,3) have "u \<in> set (ks_tasks s)" "\<nexists>ck. ks_active s (n, ck) = Some (st_id u)"
      by (auto simp: abort_pod_def Let_def split: if_splits)
    moreover from this(1) u(2) f(1) obtain k where "ks_active s k = Some (st_id u)" unfolding flow_inv_def by blast
    ultimately have "ks_active (abort_pod n t) k = Some (st_id u)"
      using f(2) by (cases k) (auto simp: abort_pod_def Let_def)
    then show ?thesis ..
  qed
  moreover have "ks_active s k = Some i" if "ks_active (abort_pod n t) k = Some i" for k i
    using that f(2) by (auto simp: abort_pod_def Let_def split: if_splits)
  moreover have "ks_requests (abort_pod n t) = ks_requests s" using f(4) by (simp add: abort_pod_def Let_def)
  ultimately show ?thesis using f(1) unfolding flow_inv_def by metis
qed

lemma drop_finished_flow: "flow_inv c s \<Longrightarrow> flow_inv c (drop_finished s)"
proof -
  assume f: "flow_inv c s"
  have sub: "ks_active s k = Some i" if "ks_active (drop_finished s) k = Some i" for k i
    using that by (auto simp: drop_finished_def Let_def split: option.splits if_splits)
  have "ks_active (drop_finished s) k = Some (st_id t)" if "t \<in> set (ks_tasks s)" "ks_active s k = Some (st_id t)" for t k
    using that by (auto simp: drop_finished_def Let_def)
  moreover have "ks_tasks (drop_finished s) = ks_tasks s" "ks_requests (drop_finished s) = ks_requests s"
    by (simp_all add: drop_finished_def Let_def)
  ultimately show ?thesis using f sub unfolding flow_inv_def by metis
qed

text \<open>Fewer tasks, and requests with the same owners and addresses.\<close>

lemma flow_fewer:
  assumes "flow_inv c s" and "set (ks_tasks t) \<subseteq> set (ks_tasks s)" and "ks_active t = ks_active s"
    and "\<forall>q \<in> set (ks_requests t). \<exists>r \<in> set (ks_requests s). lr_owner q = lr_owner r \<and> lr_url q = lr_url r"
  shows "flow_inv c t"
  using assms unfolding flow_inv_def by (metis subsetD)

lemma request_ends_flow: "flow_inv c s \<Longrightarrow> flow_inv c (request_ends k s)"
proof (erule flow_fewer)
  show "\<forall>q \<in> set (ks_requests (request_ends k s)). \<exists>r \<in> set (ks_requests s). lr_owner q = lr_owner r \<and> lr_url q = lr_url r"
    by (auto simp: request_ends_def Let_def release_def dest!: in_set_takeD in_set_dropD) metis+
qed (auto simp: request_ends_def Let_def release_def)

lemma task_dropped_flow: "flow_inv c s \<Longrightarrow>
    flow_inv c (release i (if sp then s else s\<lparr>ks_requests := filter (\<lambda>q. lr_owner q \<noteq> i) (ks_requests s)\<rparr>))"
  by (erule flow_fewer) (auto simp: release_def)

lemma handle_apply_flow:
  assumes inv: "k8s_inv c sp excluded s" and flow: "flow_inv c s"
  shows "flow_inv c (handle_apply c sp excluded p s)"
proof (cases "\<exists>n. pd_name p = Some n \<and> pd_phase p = Some ''Running'' \<and> \<not> excluded n")
  case True
  then obtain n where n: "pd_name p = Some n" "pd_phase p = Some ''Running''" "\<not> excluded n" by blast
  let ?s = "s\<lparr>ks_running := (ks_running s)(n \<mapsto> keys_for_pod (from_cli (rl_container c)) p)\<rparr>"
  have "k8s_inv c sp excluded ?s" using inv n(3) by (fastforce simp: k8s_inv_defs owners_of_def open_pair_def)
  moreover have "flow_inv c ?s = flow_inv c s" by (rule flow_cong) simp_all
  ultimately have "flow_inv c (start_pod c sp n (keys_for_pod (from_cli (rl_container c)) p) ?s)"
    using flow by (intro start_pod_flow) auto
  with n show ?thesis by (simp add: handle_apply_def Let_def)
next
  case False
  then show ?thesis
    using flow by (auto simp: handle_apply_def intro: abort_pod_flow split: option.splits)
qed

lemma k8s_react_flow: "k8s_react c sp excluded i s = Some t \<Longrightarrow> k8s_inv c sp excluded s \<Longrightarrow> flow_inv c s \<Longrightarrow> flow_inv c t"
proof (cases i)
  case (Watch ev)
  assume a: "k8s_react c sp excluded i s = Some t" "k8s_inv c sp excluded s" "flow_inv c s"
  have "flow_inv c (s\<lparr>ks_ticks := x\<rparr>)" for x using a(3) flow_cong [of "s\<lparr>ks_ticks := x\<rparr>" s c] by simp
  with a Watch show ?thesis
    by (cases ev) (auto simp: handle_watch_def handle_apply_flow intro: abort_pod_flow split: option.splits if_splits)
next
  case (ReconcileTick order)
  assume a: "k8s_react c sp excluded i s = Some t" "k8s_inv c sp excluded s" "flow_inv c s"
  have r: "ks_running (drop_finished s) = ks_running s" by (simp add: drop_finished_def Let_def)
  let ?f = "\<lambda>name. case ks_running s name of Some keys \<Rightarrow> keys | None \<Rightarrow> []"
  let ?u = "fold (\<lambda>name. start_pod c sp name (?f name)) order (drop_finished s)"
  from a(1) ReconcileTick have t: "t = ?u\<lparr>ks_ticks := ks_ticks ?u + 1\<rparr>" "set order = dom (ks_running s)"
    by (auto simp: reconcile_def Let_def split: if_splits)
  have "flow_inv c ?u"
    using fold_start_pod_flow [OF drop_finished_inv [OF a(2)] _ drop_finished_flow [OF a(3)]] t(2) r by simp
  moreover have "flow_inv c t = flow_inv c ?u" unfolding t(1) by (rule flow_cong) simp_all
  ultimately show ?thesis by simp
next
  case WatchEnded
  assume a: "k8s_react c sp excluded i s = Some t" "flow_inv c s"
  with WatchEnded flow_cong [of t s c] show ?thesis by (auto split: if_splits)
next
  case (TaskDropped j)
  assume "k8s_react c sp excluded i s = Some t" "flow_inv c s"
  with TaskDropped task_dropped_flow [of c s j sp] show ?thesis by (simp split: if_split_asm)
qed (auto simp: request_ends_flow split: if_splits)

interpretation kube_flow: invariant_system "k8s_init c" "k8s_step c sp excluded" "\<lambda>s. k8s_inv c sp excluded s \<and> flow_inv c s" for c sp excluded
proof
  fix s t
  show "k8s_inv c sp excluded s \<and> flow_inv c s" if "k8s_init c s"
    using that k8s_init_inv by (auto simp: flow_inv_def k8s_init_def k8s_new_def)
  show "k8s_inv c sp excluded t \<and> flow_inv c t" if "k8s_inv c sp excluded s \<and> flow_inv c s" "k8s_step c sp excluded s t"
    using that k8s_react_inv k8s_react_flow by (auto elim!: k8s_stepE)
qed

subsection \<open>Properties\<close>

text \<open>
  C23. What is streamed, and how much. A task that was not aborted belongs to a pod that is known to run
  and is not excluded, one task per pod and container, and its requests are for the log of that
  container; the tasks that have not ended never exceed \<open>max_log_requests\<close> and, with the free permits,
  always add up to it. With one combined stream per task every open request belongs to a task that
  has not ended, so the open requests are bounded by it too. With separate streams neither holds: the
  requests of a task that was aborted, because its pod stopped or was deleted, go on.
\<close>

theorem streams_within_limits:
  assumes "reach (k8s_init c) (k8s_step c sp excluded) s"
  shows "(\<forall>t \<in> set (ks_tasks s). \<not> st_aborted t \<longrightarrow>
       (\<exists>n ck. ks_active s (n, ck) = Some (st_id t) \<and> n \<in> dom (ks_running s) \<and> \<not> excluded n \<and>
          (\<forall>r \<in> set (ks_requests s). lr_owner r = st_id t \<longrightarrow>
             (\<exists>tl ss str. lr_url r = log_url (rl_namespace c) n ck tl ss str)))) \<and>
    (\<forall>n ck i. ks_active s (n, ck) = Some i \<longrightarrow> n \<in> dom (ks_running s) \<and> \<not> excluded n \<and>
        (\<forall>n' ck'. ks_active s (n', ck') = Some i \<longrightarrow> (n', ck') = (n, ck))) \<and>
    (\<not> sp \<longrightarrow> (\<forall>r \<in> set (ks_requests s). \<exists>t \<in> set (ks_tasks s). st_id t = lr_owner r)) \<and>
    (0 < rl_max_log_requests c \<longrightarrow>
       (\<exists>p. ks_permits s = Some p \<and> p + length (ks_tasks s) = rl_max_log_requests c) \<and>
       (\<not> sp \<longrightarrow> length (ks_requests s) \<le> rl_max_log_requests c))"
proof -
  have inv: "k8s_inv c sp excluded s" "flow_inv c s" using kube_flow.reach_inv [OF assms] by auto
  have "length (ks_requests s) \<le> length (ks_tasks s)" if "\<not> sp"
  proof -
    from inv that have d: "distinct (owners_of s)" "set (owners_of s) \<subseteq> st_id ` set (ks_tasks s)"
        "distinct (map st_id (ks_tasks s))"
      by (simp_all add: k8s_inv_defs)
    from d(2) have "card (set (owners_of s)) \<le> card (set (map st_id (ks_tasks s)))" by (intro card_mono) auto
    with d(1,3) show ?thesis by (simp only: distinct_card) (simp add: owners_of_def)
  qed
  moreover have "\<exists>n ck. ks_active s (n, ck) = Some (st_id t) \<and> n \<in> dom (ks_running s) \<and> \<not> excluded n \<and>
      (\<forall>r \<in> set (ks_requests s). lr_owner r = st_id t \<longrightarrow> (\<exists>tl ss str. lr_url r = log_url (rl_namespace c) n ck tl ss str))"
    if t: "t \<in> set (ks_tasks s)" "\<not> st_aborted t" for t
  proof -
    from inv(2) t obtain n ck where k: "ks_active s (n, ck) = Some (st_id t)" unfolding flow_inv_def by fastforce
    moreover have "n \<in> dom (ks_running s)" "\<not> excluded n"
      using inv(1) k unfolding k8s_inv_def streams_inv_def by fastforce+
    ultimately show ?thesis using inv(2) unfolding flow_inv_def by (intro exI [of _ n] exI [of _ ck]) fastforce
  qed
  moreover have "\<exists>t \<in> set (ks_tasks s). st_id t = lr_owner r" if "\<not> sp" "r \<in> set (ks_requests s)" for r
  proof -
    have "lr_owner r \<in> st_id ` set (ks_tasks s)"
      using inv(1) that by (auto simp: k8s_inv_def requests_inv_def owners_of_def)
    then show ?thesis by force
  qed
  ultimately show ?thesis using inv(1) by (fastforce simp: k8s_inv_def streams_inv_def tasks_inv_def)
qed

fun k8s_run :: "relay_cli \<Rightarrow> bool \<Rightarrow> (string \<Rightarrow> bool) \<Rightarrow> k8s_input list \<Rightarrow> k8s \<Rightarrow> k8s option" where
  "k8s_run c sp excluded [] s = Some s"
| "k8s_run c sp excluded (i # is) s = (case k8s_react c sp excluded i s of None \<Rightarrow> None | Some t \<Rightarrow> k8s_run c sp excluded is t)"

lemma k8s_run_reach:
  "k8s_run c sp excluded is s = Some t \<Longrightarrow> reach (k8s_init c) (k8s_step c sp excluded) s \<Longrightarrow>
   reach (k8s_init c) (k8s_step c sp excluded) t"
proof (induction "is" arbitrary: s)
  case (Cons i "is")
  then obtain u where u: "k8s_react c sp excluded i s = Some u" "k8s_run c sp excluded is u = Some t" by (auto split: option.splits)
  from reach_step [OF Cons.prems(2) k8s_step [OF u(1)]] Cons.IH u(2) show ?case by blast
qed simp

definition demo_cli :: relay_cli where
  "demo_cli = default_cli\<lparr>rl_kubernetes := True, rl_max_log_requests := 1\<rparr>"

definition demo_pod :: "string \<Rightarrow> pod" where
  "demo_pod n = \<lparr> pd_name = Some n, pd_phase = Some ''Running'', pd_containers = None \<rparr>"

lemma demo_cli_fields [simp]:
  "rl_max_log_requests demo_cli = 1" "rl_container demo_cli = None" "rl_tail_lines demo_cli = 0"
  "rl_since_seconds demo_cli = 10" "rl_namespace demo_cli = ''default''"
  by (simp_all add: demo_cli_def default_cli_def)

text \<open>The first pod of the demonstration gets the only permit.\<close>

lemma demo_first_pod:
  "\<exists>s r1 r2. reach (k8s_init demo_cli) (k8s_step demo_cli True (\<lambda>_. False)) s \<and>
     ks_running s = [''web'' \<mapsto> [[]]] \<and> ks_active s = [(''web'', []) \<mapsto> 0] \<and> ks_permits s = Some 0 \<and>
     ks_tasks s = [\<lparr>st_id = 0, st_aborted = False\<rparr>] \<and> ks_requests s = [r1, r2] \<and> \<not> ks_ended s"
proof -
  let ?i = "Watch (InitApply (demo_pod ''web''))"
  have r: "reach (k8s_init demo_cli) (k8s_step demo_cli True (\<lambda>_. False)) (k8s_new demo_cli)"
    by (rule reach_init) (simp add: k8s_init_def)
  obtain s where s: "k8s_react demo_cli True (\<lambda>_. False) ?i (k8s_new demo_cli) = Some s"
      "ks_running s = [''web'' \<mapsto> [[]]]" "ks_active s = [(''web'', []) \<mapsto> 0]" "ks_permits s = Some 0"
      "ks_tasks s = [\<lparr>st_id = 0, st_aborted = False\<rparr>]" "length (ks_requests s) = 2" "\<not> ks_ended s"
    by (simp add: k8s_new_def handle_watch_def handle_apply_def demo_pod_def keys_for_pod_def from_cli_def start_pod_def
        stream_params_def try_start_def Let_def)
  moreover from s(6) obtain r1 r2 where "ks_requests s = [r1, r2]" by (auto simp: length_Suc_conv numeral_2_eq_2)
  ultimately show ?thesis using reach_step [OF r k8s_step [OF s(1)]] by blast
qed

theorem streams_within_limits_witness:
  "\<exists>s. reach (k8s_init demo_cli) (k8s_step demo_cli True (\<lambda>_. False)) s \<and>
     ks_active s (''web'', []) = Some 0 \<and> ks_permits s = Some 0 \<and> length (ks_tasks s) = 1 \<and> ''web'' \<in> dom (ks_running s)"
proof -
  obtain s where s: "reach (k8s_init demo_cli) (k8s_step demo_cli True (\<lambda>_. False)) s"
      "ks_active s = [(''web'', []) \<mapsto> 0]" "ks_permits s = Some 0"
    using demo_first_pod by blast
  note limits = streams_within_limits [OF s(1)]
  have a: "ks_active s (''web'', []) = Some 0" by (simp add: s(2))
  have "''web'' \<in> dom (ks_running s)" using limits a by blast
  moreover have "length (ks_tasks s) = 1" using limits s(3) by simp
  ultimately show ?thesis using s(1,3) a by blast
qed

text \<open>
  With separate streams for standard output and error a pod that is deleted keeps its streams:
  aborting its task detaches the two requests instead of ending them, the permit goes back, and the
  requests stay open while other pods take the permit.
\<close>

theorem deleted_pod_keeps_streaming:
  assumes "reach (k8s_init c) (k8s_step c True excluded) s" and "\<not> ks_ended s"
    and "ks_active s (n, ck) = Some i" and "\<exists>t \<in> set (ks_tasks s). st_id t = i \<and> \<not> st_aborted t"
    and "pd_name p = Some n" and "ks_permits s = Some m"
  shows "\<exists>t. k8s_run c True excluded [Watch (Delete p), TaskDropped i] s = Some t \<and>
    ks_running t n = None \<and> (\<forall>ck'. ks_active t (n, ck') = None) \<and> ks_permits t = Some (m + 1) \<and>
    ks_requests t = ks_requests s \<and> open_pair t i"
proof -
  have "open_pair s i" using kube_source.reach_inv [OF assms(1)] assms(4) by (auto simp: k8s_inv_defs)
  moreover define d where "d = handle_watch c True excluded (Delete p) s"
  have d: "d = abort_pod n (s\<lparr> ks_running := (ks_running s)(n := None), ks_initialized := ks_initialized s - {n} \<rparr>)"
    by (simp add: d_def handle_watch_def assms(5))
  from assms(4) obtain u where u: "u \<in> set (ks_tasks s)" "st_id u = i" by blast
  with assms(3) have "u\<lparr>st_aborted := True\<rparr> \<in> set (ks_tasks d)"
    unfolding d by (auto simp: abort_pod_def Let_def image_iff intro!: bexI [of _ u])
  then have "\<exists>t \<in> set (ks_tasks d). st_id t = i \<and> st_aborted t"
    using u(2) by (intro bexI [of _ "u\<lparr>st_aborted := True\<rparr>"]) simp_all
  then have "k8s_run c True excluded [Watch (Delete p), TaskDropped i] s = Some (release i d)"
    using assms(2) by (simp add: d_def)
  moreover have "ks_requests (release i d) = ks_requests s" "ks_permits (release i d) = Some (m + 1)"
      "ks_running (release i d) n = None" "ks_active (release i d) (n, ck') = None" for ck'
    using assms(6) by (simp_all add: d abort_pod_def Let_def release_def)
  ultimately show ?thesis by (auto simp: open_pair_def)
qed

theorem deleted_pod_keeps_streaming_witness:
  "\<exists>s t. reach (k8s_init demo_cli) (k8s_step demo_cli True (\<lambda>_. False)) s \<and>
     k8s_run demo_cli True (\<lambda>_. False) [Watch (Delete (demo_pod ''web'')), TaskDropped 0] s = Some t \<and>
     ks_running t ''web'' = None \<and> ks_permits t = Some 1 \<and> length (ks_requests t) = 2"
proof -
  obtain s r1 r2 where s: "reach (k8s_init demo_cli) (k8s_step demo_cli True (\<lambda>_. False)) s"
      "ks_active s = [(''web'', []) \<mapsto> 0]" "ks_permits s = Some 0" "ks_tasks s = [\<lparr>st_id = 0, st_aborted = False\<rparr>]"
      "ks_requests s = [r1, r2]" "\<not> ks_ended s"
    using demo_first_pod by blast
  have named: "pd_name (demo_pod ''web'') = Some ''web''" by (simp add: demo_pod_def)
  from s(2,4) have "ks_active s (''web'', []) = Some 0" "\<exists>t \<in> set (ks_tasks s). st_id t = 0 \<and> \<not> st_aborted t" by simp_all
  from deleted_pod_keeps_streaming [OF s(1) s(6) this named s(3)] s(1,5) show ?thesis
    by - (rule exI [of _ s], auto simp del: k8s_run.simps)
qed

lemma start_all_active:
  "try_start_all c sp n params cks s = (b, t) \<Longrightarrow> ks_permits s = None \<Longrightarrow>
   ks_permits t = None \<and> dom (ks_active t) = dom (ks_active s) \<union> {(n, ck) | ck. ck \<in> set cks}"
proof (induction cks arbitrary: s b)
  case (Cons ck cks)
  then obtain b1 s1 b2 where s1: "try_start c sp n params ck s = (b1, s1)"
      and t: "try_start_all c sp n params cks s1 = (b2, t)"
    by (auto split: prod.splits)
  from s1 have "ks_permits s1 = None \<and> dom (ks_active s1) = insert (n, ck) (dom (ks_active s))"
    by (cases rule: try_start_cases) (use Cons.prems(2) in auto)
  with Cons.IH [OF t] show ?case by auto
qed simp

lemma start_pod_active:
  assumes "ks_permits s = None"
  shows "ks_permits (start_pod c sp n keys s) = None \<and>
    dom (ks_active (start_pod c sp n keys s)) = dom (ks_active s) \<union> {(n, ck) | ck. ck \<in> set keys}"
proof -
  let ?p = "stream_params n (ks_initialized s) (rl_tail_lines c) (rl_since_seconds c)"
  obtain b t where t: "try_start_all c sp n ?p keys s = (b, t)" by (cases "try_start_all c sp n ?p keys s")
  show ?thesis using start_all_active [OF t assms] by (simp add: start_pod_def Let_def t)
qed

lemma fold_start_active:
  "ks_permits s = None \<Longrightarrow>
   dom (ks_active (fold (\<lambda>n. start_pod c sp n (f n)) order s)) = dom (ks_active s) \<union> {(n, ck) | n ck. n \<in> set order \<and> ck \<in> set (f n)}"
proof (induction order arbitrary: s)
  case (Cons n ns)
  from start_pod_active [OF Cons.prems, of c sp n "f n"] Cons.IH [of "start_pod c sp n (f n) s"] show ?case by auto
qed simp

text \<open>
  A pod deleted while the watcher was disconnected is never forgotten: the list that follows a
  reconnect does not name it, \<open>Init\<close> clears nothing, so the pod stays among the running ones and
  every reconcile tick starts its streams again.
\<close>

theorem relist_keeps_pods:
  assumes "ks_running s n = Some keys" and "\<forall>p \<in> set listed. pd_name p \<noteq> Some n"
    and "t = fold (handle_watch c sp excluded) (WatchInit # map InitApply listed @ [InitDone]) s"
    and "set order = dom (ks_running t)" and "ks_permits t = None"
  shows "ks_running t n = Some keys \<and> (\<forall>ck \<in> set keys. ks_active (reconcile c sp order t) (n, ck) \<noteq> None)"
proof -
  have "ks_running (fold (handle_watch c sp excluded) (map InitApply listed) s) n = Some keys"
    using assms(1,2)
  proof (induction listed arbitrary: s)
    case (Cons p ps)
    have "ks_running (handle_apply c sp excluded p s) n = ks_running s n"
      using Cons.prems(2) by (auto simp: handle_apply_def Let_def start_pod_running abort_pod_def split: option.splits)
    with Cons show ?case by (simp add: handle_watch_def)
  qed simp
  then have run: "ks_running t n = Some keys" by (simp add: assms(3) handle_watch_def)
  then have "n \<in> set order" using assms(4) by auto
  moreover have "ks_permits (drop_finished t) = None" using assms(5) by (simp add: drop_finished_def Let_def)
  note fold_start_active [OF this, of c sp "\<lambda>n. case ks_running t n of Some keys \<Rightarrow> keys | None \<Rightarrow> []" order]
  ultimately have "\<forall>ck \<in> set keys. (n, ck) \<in> dom (ks_active (reconcile c sp order t))"
    using run by (auto simp: reconcile_def Let_def)
  with run show ?thesis by auto
qed

theorem relist_keeps_pods_witness:
  "\<exists>s t. ks_running s ''gone'' = Some [[]] \<and>
     t = fold (handle_watch default_cli False (\<lambda>_. False)) (WatchInit # map InitApply [demo_pod ''web''] @ [InitDone]) s \<and>
     ks_active (reconcile default_cli False [''gone'', ''web''] t) (''gone'', []) \<noteq> None"
proof -
  let ?s = "(k8s_new default_cli)\<lparr>ks_running := [''gone'' \<mapsto> [[]]]\<rparr>"
  define t where "t = fold (handle_watch default_cli False (\<lambda>_. False)) (WatchInit # map InitApply [demo_pod ''web''] @ [InitDone]) ?s"
  note unfold = t_def handle_watch_def handle_apply_def demo_pod_def k8s_new_def keys_for_pod_def from_cli_def Let_def
  have cli: "rl_max_log_requests default_cli = 0" "rl_container default_cli = None" by (simp_all add: default_cli_def)
  have "ks_permits t = None" by (simp add: unfold cli start_pod_active)
  moreover have "set [''gone'', ''web''] = dom (ks_running t)" by (auto simp: unfold cli)
  moreover have "ks_running ?s ''gone'' = Some [[]]" "\<forall>p \<in> set [demo_pod ''web'']. pd_name p \<noteq> Some ''gone''"
    by (simp_all add: demo_pod_def)
  ultimately have "\<forall>ck \<in> set [[]]. ks_active (reconcile default_cli False [''gone'', ''web''] t) (''gone'', ck) \<noteq> None"
    using relist_keeps_pods [of ?s "''gone''" "[[]]" "[demo_pod ''web'']" t default_cli False "\<lambda>_. False" "[''gone'', ''web'']"] t_def
    by blast
  then show ?thesis using t_def by (intro exI [of _ ?s] exI [of _ t]) simp
qed

subsection \<open>One stream\<close>

text \<open>The pairs of time stamp and message a stream yields before it ends, without the filtered ones.\<close>

fun stream_pairs :: "line_result list \<Rightarrow> (string \<times> string) list" where
  "stream_pairs (Line _ line # ls) = split_timestamp line # stream_pairs ls"
| "stream_pairs _ = []"

definition allowed_pairs :: "line_filter \<Rightarrow> line_result list \<Rightarrow> (string \<times> string) list" where
  "allowed_pairs flt ls = filter (\<lambda>p. allow flt (snd p)) (stream_pairs ls)"

text \<open>The strict left-to-right maxima of a list of pairs, by their first components.\<close>

definition records :: "string \<Rightarrow> (string \<times> string) list \<Rightarrow> (string \<times> string) list" where
  "records bound ps = map (nth ps) (filter (\<lambda>i. bound < fst (ps ! i) \<and> (\<forall>j<i. fst (ps ! j) < fst (ps ! i))) [0..<length ps])"

lemma records_Nil [simp]: "records bound [] = []"
  by (simp add: records_def)

lemma records_Cons:
  "records bound (p # ps) = (if bound < fst p then p # records (fst p) ps else records bound ps)"
proof -
  have up: "[0..<length (p # ps)] = 0 # map Suc [0..<length ps]" by (simp add: map_Suc_upt upt_conv_Cons del: upt_Suc)
  have all: "(\<forall>j < Suc i. fst ((p # ps) ! j) < x) \<longleftrightarrow> fst p < x \<and> (\<forall>j<i. fst (ps ! j) < x)" for i x
    by (auto simp: less_Suc_eq_0_disj)
  have "records bound (p # ps) = (if bound < fst p then [p] else []) @
      map (nth ps) (filter (\<lambda>i. bound < fst (ps ! i) \<and> fst p < fst (ps ! i) \<and> (\<forall>j<i. fst (ps ! j) < fst (ps ! i))) [0..<length ps])"
    unfolding records_def up by (simp add: filter_map comp_def all)
  then show ?thesis
  proof (cases "bound < fst p")
    case True
    then have "(bound < x \<and> fst p < x \<and> Q) = (fst p < x \<and> Q)" for x Q by auto
    with True show ?thesis using \<open>records bound (p # ps) = _\<close> by (simp add: records_def)
  next
    case False
    then have "(bound < x \<and> fst p < x \<and> Q) = (bound < x \<and> Q)" for x Q by auto
    with False show ?thesis using \<open>records bound (p # ps) = _\<close> by (simp add: records_def)
  qed
qed

text \<open>
  C26. Of the lines of a stream exactly those are relayed that pass the filter and whose time stamp is
  greater than every time stamp the filter let through before: a repeated line is never sent twice,
  and of several lines with one time stamp only the first is sent.
\<close>

theorem stream_pod_relays_records:
  "map (\<lambda>e. (re_timestamp e, re_message e)) (stream_pod flt ns name container str last_ts ls) =
   records last_ts (allowed_pairs flt ls)"
proof (induction flt ns name container str last_ts ls rule: stream_pod.induct)
  case (4 flt ns name container str last_ts d line ls)
  obtain ts msg where p: "split_timestamp line = (ts, msg)" by (cases "split_timestamp line")
  then have pairs: "allowed_pairs flt (Line d line # ls) = (if allow flt msg then [(ts, msg)] else []) @ allowed_pairs flt ls"
    by (simp add: allowed_pairs_def)
  show ?case
    using 4 unfolding pairs by (auto simp: p records_Cons not_le)
qed (simp_all add: allowed_pairs_def)

end
