(* ===== verification/MetricsStore.thy ===== *)
theory MetricsStore
  imports ServiceBackoff CheckProps Overlord
begin

text \<open>
  The metrics of the daemon, \<open>crates/vigild/src/metrics/mod.rs\<close>: one map per metric family, a label
  having no value before its first use. The text encoding is the client library's.
\<close>

record metrics_store =
  mt_service_start_count :: "string \<rightharpoonup> 64 word"
  mt_service_active :: "string \<rightharpoonup> int"
  mt_service_info :: "string \<rightharpoonup> int"
  mt_services_count :: int
  mt_check_up :: "string \<rightharpoonup> int"
  mt_check_success_count :: "string \<rightharpoonup> 64 word"
  mt_check_failure_count :: "string \<rightharpoonup> 64 word"
  mt_alert_fire_count :: "string \<rightharpoonup> 64 word"

definition metrics_new :: metrics_store where
  "metrics_new = \<lparr> mt_service_start_count = Map.empty, mt_service_active = Map.empty, mt_service_info = Map.empty,
     mt_services_count = 0, mt_check_up = Map.empty, mt_check_success_count = Map.empty,
     mt_check_failure_count = Map.empty, mt_alert_fire_count = Map.empty \<rparr>"

definition counter_inc :: "string \<Rightarrow> (string \<rightharpoonup> 64 word) \<Rightarrow> (string \<rightharpoonup> 64 word)" where
  "counter_inc l m = m(l \<mapsto> (case m l of Some n \<Rightarrow> n | None \<Rightarrow> 0) + 1)"

definition set_services :: "string list \<Rightarrow> metrics_store \<Rightarrow> metrics_store" where
  "set_services names m =
     (let m1 = fold (\<lambda>n m. m\<lparr>mt_service_info := (mt_service_info m)(n \<mapsto> 1)\<rparr>) names m
      in m1\<lparr>mt_services_count := int (length names)\<rparr>)"

definition record_service_start :: "string \<Rightarrow> metrics_store \<Rightarrow> metrics_store" where
  "record_service_start n m = m\<lparr>mt_service_start_count := counter_inc n (mt_service_start_count m)\<rparr>"

definition set_service_active :: "string \<Rightarrow> bool \<Rightarrow> metrics_store \<Rightarrow> metrics_store" where
  "set_service_active n active m = m\<lparr>mt_service_active := (mt_service_active m)(n \<mapsto> (if active then 1 else 0))\<rparr>"

definition record_check_success :: "string \<Rightarrow> metrics_store \<Rightarrow> metrics_store" where
  "record_check_success n m = m\<lparr>mt_check_success_count := counter_inc n (mt_check_success_count m)\<rparr>"

definition record_check_failure :: "string \<Rightarrow> metrics_store \<Rightarrow> metrics_store" where
  "record_check_failure n m = m\<lparr>mt_check_failure_count := counter_inc n (mt_check_failure_count m)\<rparr>"

definition set_check_up :: "string \<Rightarrow> bool \<Rightarrow> metrics_store \<Rightarrow> metrics_store" where
  "set_check_up n up m = m\<lparr>mt_check_up := (mt_check_up m)(n \<mapsto> (if up then 1 else 0))\<rparr>"

definition record_alert_fire :: "string \<Rightarrow> metrics_store \<Rightarrow> metrics_store" where
  "record_alert_fire n m = m\<lparr>mt_alert_fire_count := counter_inc n (mt_alert_fire_count m)\<rparr>"

text \<open>What the effects of the actors and of the overlord do to the store.\<close>

fun metric_of_effect :: "string \<Rightarrow> effect \<Rightarrow> metrics_store \<Rightarrow> metrics_store" where
  "metric_of_effect n EServiceStart m = record_service_start n m"
| "metric_of_effect n (EServiceActive b) m = set_service_active n b m"
| "metric_of_effect n _ m = m"

fun metric_of_check_effect :: "string \<Rightarrow> check_effect \<Rightarrow> metrics_store \<Rightarrow> metrics_store" where
  "metric_of_check_effect n (MetricUp b) m = set_check_up n b m"
| "metric_of_check_effect n MetricSuccess m = record_check_success n m"
| "metric_of_check_effect n MetricFailure m = record_check_failure n m"
| "metric_of_check_effect n _ m = m"

fun metric_of_ov_effect :: "ov_effect \<Rightarrow> metrics_store \<Rightarrow> metrics_store" where
  "metric_of_ov_effect (AlertFired a) m = record_alert_fire a m"
| "metric_of_ov_effect (ServicesSet names) m = set_services names m"
| "metric_of_ov_effect _ m = m"

lemmas metric_defs = set_services_def record_service_start_def set_service_active_def record_check_success_def
  record_check_failure_def set_check_up_def record_alert_fire_def

subsection \<open>The gauges tell the state\<close>

lemma active_gauge:
  "(case mt_service_active m n of Some g \<Rightarrow> g | None \<Rightarrow> 0) = (if b then 1 else 0) \<Longrightarrow>
   (case mt_service_active (fold (metric_of_effect n) es m) n of Some g \<Rightarrow> g | None \<Rightarrow> 0) = (if fold note_active es b then 1 else 0)"
proof (induction es arbitrary: m b)
  case (Cons e es)
  have "(case mt_service_active (metric_of_effect n e m) n of Some g \<Rightarrow> g | None \<Rightarrow> 0) = (if note_active e b then 1 else 0)"
    using Cons.prems by (cases e) (simp_all add: metric_defs)
  from Cons.IH [OF this] show ?case by simp
qed simp

lemma up_gauge:
  "mt_check_up m n = map_option (\<lambda>b. if b then 1 else 0) g \<Longrightarrow>
   mt_check_up (fold (metric_of_check_effect n) es m) n = map_option (\<lambda>b. if b then 1 else 0) (fold note_up es g)"
proof (induction es arbitrary: m g)
  case (Cons e es)
  have "mt_check_up (metric_of_check_effect n e m) n = map_option (\<lambda>b. if b then 1 else 0) (note_up e g)"
    using Cons.prems by (cases e) (simp_all add: metric_defs)
  from Cons.IH [OF this] show ?case by simp
qed simp

lemma counter_fold:
  "mt_service_start_count (fold (metric_of_effect n) es m) n =
     (if EServiceStart \<in> set es \<or> mt_service_start_count m n \<noteq> None
      then Some ((case mt_service_start_count m n of Some k \<Rightarrow> k | None \<Rightarrow> 0) + of_nat (count_list es EServiceStart)) else None)"
proof (induction es arbitrary: m)
  case (Cons e es)
  show ?case by (cases e) (auto simp: Cons.IH metric_defs counter_inc_def split: option.splits)
qed auto

text \<open>Every process an actor spawns is recorded as a start, and nothing else is.\<close>

interpretation recorded: effect_weight "\<lambda>e. if is_spawn e then 1 else if e = EServiceStart then -1 else 0" 0
  by unfold_locales simp_all

lemma recorded_weight: "recorded.weight s = int (length (filter is_spawn (a_trace s))) - int (count_list (a_trace s) EServiceStart)"
proof -
  have "sum_list (map (\<lambda>e. if is_spawn e then 1 else if e = EServiceStart then -1 else 0) es) =
      int (length (filter is_spawn es)) - int (count_list es EServiceStart)" for es
    by (induction es) auto
  then show ?thesis by (simp add: recorded.weight_def)
qed

definition spawns_recorded :: "actor \<Rightarrow> bool" where
  "spawns_recorded s \<longleftrightarrow> length (filter is_spawn (a_trace s)) = count_list (a_trace s) EServiceStart"

lemma spawns_recorded_weight: "spawns_recorded s \<longleftrightarrow> recorded.weight s = 0"
  by (auto simp: spawns_recorded_def recorded_weight)

interpretation spawning: invariant_system "svc_init os nm cfg" "svc_step os" spawns_recorded for os nm cfg
proof
  fix s t
  show "spawns_recorded s" if "svc_init os nm cfg s"
    using that by (auto simp: svc_init_def spawns_recorded_def actor_start_def actor_new_def Let_def actor_simps
        split: option.splits)
  show "spawns_recorded t" if "spawns_recorded s" "svc_step os s t"
    using that by (auto simp: spawns_recorded_weight recorded.weight_dispatch simp del: dispatch.simps elim!: svc_stepE)
qed

text \<open>The counters of a check.\<close>

definition counted :: "(string \<rightharpoonup> 64 word) \<Rightarrow> string \<Rightarrow> 64 word" where
  "counted m n = (case m n of Some k \<Rightarrow> k | None \<Rightarrow> 0)"

lemma check_counters:
  "counted (mt_check_success_count (fold (metric_of_check_effect n) es m)) n =
     counted (mt_check_success_count m) n + of_nat (count_list es MetricSuccess)"
  "counted (mt_check_failure_count (fold (metric_of_check_effect n) es m)) n =
     counted (mt_check_failure_count m) n + of_nat (count_list es MetricFailure)"
proof (induction es arbitrary: m)
  case (Cons e es)
  { case 1 show ?case using Cons.IH(1) by (cases e) (simp_all add: metric_defs counter_inc_def counted_def) }
  { case 2 show ?case using Cons.IH(2) by (cases e) (simp_all add: metric_defs counter_inc_def counted_def) }
qed simp_all

lemma tick_counts:
  "count_list (ck_out (check_tick now env c)) MetricSuccess = count_list (ck_out c) MetricSuccess + (if probe_ok env c then 1 else 0)"
  "count_list (ck_out (check_tick now env c)) MetricFailure = count_list (ck_out c) MetricFailure + (if probe_ok env c then 0 else 1)"
  by (simp_all add: check_tick_def report_first_run_def probe_passed_def probe_failed_def probe_ok_def Let_def check_simps
      put_out_def send_event_def)

lemma ticks_counts:
  "count_list (ck_out (check_ticks ticks c)) MetricSuccess =
     count_list (ck_out c) MetricSuccess + length (filter (\<lambda>ok. ok) (outcomes c ticks))"
  "count_list (ck_out (check_ticks ticks c)) MetricFailure =
     count_list (ck_out c) MetricFailure + length (filter Not (outcomes c ticks))"
proof (induction ticks rule: rev_induct)
  case (snoc x ticks)
  obtain now env where x: "x = (now, env)" by (cases x)
  { case 1 show ?case using snoc(1) by (simp add: x check_ticks_snoc outcomes_snoc tick_counts probe_ok_ticks) }
  { case 2 show ?case using snoc(2) by (simp add: x check_ticks_snoc outcomes_snoc tick_counts probe_ok_ticks) }
qed (simp_all add: check_ticks_def outcomes_def)

text \<open>
  C37. The metrics of a service and of a check tell what happened. After any run of a service actor its
  activity gauge is 1 exactly when the service is active, and its start counter is the number of
  processes the actor has spawned, modulo 2^64. While a check task probes, its gauge is 1 exactly
  when the check is up, and over any further ticks its success and failure counters grow by the
  numbers of probes that passed and failed, modulo 2^64.
\<close>

theorem metrics_tell_state:
  assumes "reach (svc_init os n cfg) (svc_step os) s" and "reach (check_init k kcfg svcs st) check_step c"
    and "ck_phase c = Probing"
  shows "(case mt_service_active (fold (metric_of_effect n) (a_trace s) metrics_new) n of Some g \<Rightarrow> g | None \<Rightarrow> 0) =
      (if a_state s = Active then 1 else 0) \<and>
    counted (mt_service_start_count (fold (metric_of_effect n) (a_trace s) metrics_new)) n =
      of_nat (length (filter is_spawn (a_trace s))) \<and>
    mt_check_up (fold (metric_of_check_effect k) (ck_out c) metrics_new) k = Some (if ck_status c = Up then 1 else 0) \<and>
    (let m = fold (metric_of_check_effect k) (ck_out c) metrics_new;
         m' = fold (metric_of_check_effect k) (ck_out (check_ticks ticks c)) metrics_new
     in counted (mt_check_success_count m') k = counted (mt_check_success_count m) k + of_nat (length (filter (\<lambda>ok. ok) (outcomes c ticks))) \<and>
        counted (mt_check_failure_count m') k = counted (mt_check_failure_count m) k + of_nat (length (filter Not (outcomes c ticks))))"
proof -
  have "observed_active s = (a_state s = Active)" using mirror.reach_inv [OF assms(1)] by (simp add: mirrored_def)
  then have "(case mt_service_active (fold (metric_of_effect n) (a_trace s) metrics_new) n of Some g \<Rightarrow> g | None \<Rightarrow> 0) =
      (if a_state s = Active then 1 else 0)"
    using active_gauge [of metrics_new n False "a_trace s"] by (simp add: observed_active_def metrics_new_def)
  moreover have "gauge c = Some (ck_status c = Up)" using probing.reach_inv [OF assms(2)] assms(3) by (simp add: check_inv_def)
  then have "mt_check_up (fold (metric_of_check_effect k) (ck_out c) metrics_new) k = Some (if ck_status c = Up then 1 else 0)"
    using up_gauge [of metrics_new k None "ck_out c"] by (simp add: gauge_def metrics_new_def)
  moreover have "length (filter is_spawn (a_trace s)) = count_list (a_trace s) EServiceStart"
    using spawning.reach_inv [OF assms(1)] by (simp add: spawns_recorded_def)
  then have "counted (mt_service_start_count (fold (metric_of_effect n) (a_trace s) metrics_new)) n =
      of_nat (length (filter is_spawn (a_trace s)))"
    by (auto simp: counted_def counter_fold metrics_new_def count_list_0_iff)
  ultimately show ?thesis by (simp add: Let_def check_counters ticks_counts)
qed

theorem metrics_tell_state_witness:
  "\<exists>s. reach (svc_init calm_os ''s'' sleep_cfg) (svc_step calm_os) s \<and>
     (case mt_service_active (fold (metric_of_effect ''s'') (a_trace s) metrics_new) ''s'' of Some g \<Rightarrow> g | None \<Rightarrow> 0) = 1 \<and>
     mt_check_up (fold (metric_of_check_effect ''c'') (ck_out demo_actor) metrics_new) ''c'' = Some 1"
proof -
  let ?a = "actor_start calm_os ''s'' sleep_cfg"
  let ?t = "dispatch calm_os (OnCmd CmdStart) ?a"
  have s: "a_state ?a = Inactive" "a_config ?a = sleep_cfg" "a_running ?a"
    by (simp_all add: actor_start_def actor_new_def sleep_cfg_def service_config_default_def)
  then have t: "a_state ?t = Active" by (simp add: handle_start_def handle_start_result_def do_start_sleep actor_simps)
  have r: "reach (svc_init calm_os ''s'' sleep_cfg) (svc_step calm_os) ?t"
    by (rule reach_dispatch [OF reach_run_init]) (simp add: s)
  let ?c = "check_run 0 ''c'' demo_check [] Up"
  have "reach (check_init ''c'' demo_check [] Up) check_step ?c" by (rule reach_init) (auto simp: check_init_def)
  moreover have "check_enabled ?c (CkDelayOver 3000)"
    by (simp add: check_run_def check_delay_def duration_or_def default_check_delay_def demo_check_def check_config_default_def)
  then have "check_step ?c (check_dispatch (CkDelayOver 3000) ?c)" by (rule check_step)
  ultimately have c: "reach (check_init ''c'' demo_check [] Up) check_step demo_actor"
    unfolding demo_actor_def using reach_step by fastforce
  have "ck_phase demo_actor = Probing" by (simp add: demo_actor_def delay_over_def Let_def check_simps check_run_def demo_settings)
  from metrics_tell_state [OF r c this, of "[]"] t demo_actor_fields(2) show ?thesis
    by (intro exI [of _ ?t] conjI r) (simp_all del: dispatch.simps)
qed

lemma info_fold: "mt_service_info (fold (\<lambda>n m. m\<lparr>mt_service_info := (mt_service_info m)(n \<mapsto> 1)\<rparr>) names m) =
    (\<lambda>x. if x \<in> set names then Some 1 else mt_service_info m x)"
  by (induction names arbitrary: m) (auto simp: fun_eq_iff)

lemma info_set_services: "mt_service_info (set_services names m) = (\<lambda>x. if x \<in> set names then Some 1 else mt_service_info m x)"
  by (simp add: set_services_def Let_def info_fold)

lemma info_plans: "mt_service_info (fold set_services plans m) =
    (\<lambda>x. if \<exists>ns \<in> set plans. x \<in> set ns then Some 1 else mt_service_info m x)"
  by (induction plans arbitrary: m) (auto simp: info_set_services fun_eq_iff)

text \<open>
  The metrics never forget a service: whatever plans the overlord announced one after the other,
  every service of any of them keeps its information gauge at 1, while the count of services is
  that of the last plan.
\<close>

theorem metrics_keep_services:
  "mt_service_info (fold set_services (plans @ [names]) metrics_new) =
     (\<lambda>x. if (\<exists>ns \<in> set plans. x \<in> set ns) \<or> x \<in> set names then Some 1 else None) \<and>
   mt_services_count (fold set_services (plans @ [names]) metrics_new) = int (length names)"
  by (auto simp: info_plans info_set_services metrics_new_def fun_eq_iff) (simp add: set_services_def Let_def)

end
