(* ===== verification/Api.thy ===== *)
theory Api
  imports MetricsStore OverlordCmd Auth Logs
begin

text \<open>
  The HTTP API of the daemon, \<open>crates/vigild/src/api/mod.rs\<close> and \<open>api/handlers\<close>: every endpoint with
  its access check, the command it sends to the overlord and its reply. Routing and the decoding
  of requests are the web framework's: a request is the decoded one.
\<close>

subsection \<open>State, errors and replies\<close>

text \<open>The queue to the main loop holds one action.\<close>

record app_state =
  ap_overlord :: daemon
  ap_log_store :: log_store
  ap_identities :: identity_store
  ap_metrics :: metrics_store
  ap_shutdown :: "daemon_action list"

datatype api_body =
    BodyNone
  | BodySystem system_info
  | BodyServices "service_info list"
  | BodyChange change_info
  | BodyChecks "check_info list"
  | BodyAlerts "alert_info list"
  | BodyLogs "log_entry list"
  | BodyFollow log_format "string list"
  | BodyIdentities "identity list"
  | BodyNames "string list"
  | BodyMetrics string

datatype api_response = ApiOk api_body | ApiFailed nat string

definition forbidden :: api_response where "forbidden = ApiFailed 403 ''forbidden''"
definition not_found :: "string \<Rightarrow> api_response" where "not_found msg = ApiFailed 404 msg"
definition internal_error :: "string \<Rightarrow> api_response" where "internal_error msg = ApiFailed 500 msg"

text \<open>The envelope of a reply on the wire.\<close>

record envelope =
  en_type :: string
  en_status_code :: nat
  en_status :: string
  en_result :: "api_body option"
  en_message :: "string option"

definition envelope_of :: "(nat \<Rightarrow> string option) \<Rightarrow> api_response \<Rightarrow> envelope" where
  "envelope_of canonical_reason r =
     (case r of
        ApiOk b \<Rightarrow> \<lparr> en_type = ''sync'', en_status_code = 200, en_status = ''OK'', en_result = Some b, en_message = None \<rparr>
      | ApiFailed code msg \<Rightarrow> \<lparr> en_type = ''error'', en_status_code = code,
          en_status = (case canonical_reason code of Some s \<Rightarrow> s | None \<Rightarrow> ''Error''), en_result = None, en_message = Some msg \<rparr>)"

subsection \<open>Queries\<close>

definition comma_list :: "string option \<Rightarrow> string list" where
  "comma_list q = filter (\<lambda>s. s \<noteq> []) (map trim (split_on (CHR '','') (case q of Some s \<Rightarrow> s | None \<Rightarrow> [])))"

definition parse_names :: "string option \<Rightarrow> string list" where
  "parse_names names = comma_list names"

definition parse_services :: "string option \<Rightarrow> string list" where
  "parse_services services = comma_list services"

subsection \<open>Asking the overlord\<close>

text \<open>
  A command is sent and its reply awaited. A daemon that hangs never replies; one that ended has
  closed its channel; one that panics in the handler drops the reply.
\<close>

definition channel_closed :: string where "channel_closed = ''channel closed''"

definition ask_overlord :: "ctx \<Rightarrow> ov_cmd \<Rightarrow> app_state \<Rightarrow> (string + ov_reply) option \<times> app_state" where
  "ask_overlord cx cmd s =
     (case ap_overlord s of
        Serving ov \<Rightarrow>
          (case handle_cmd cx cmd ov of
             Finished (ov', r) \<Rightarrow> (Some (Inr r), s\<lparr>ap_overlord := Serving ov'\<rparr>)
           | Deadlocked \<Rightarrow> (None, s\<lparr>ap_overlord := Hung\<rparr>)
           | OvPanicked \<Rightarrow> (Some (Inl channel_closed), s\<lparr>ap_overlord := Dead\<rparr>))
      | Hung \<Rightarrow> (None, s)
      | _ \<Rightarrow> (Some (Inl channel_closed), s))"

text \<open>\<open>finish\<close> is what the endpoint makes of the reply.\<close>

definition via_overlord :: "ctx \<Rightarrow> ov_cmd \<Rightarrow> (ov_reply \<Rightarrow> api_response) \<Rightarrow> app_state \<Rightarrow> api_response option \<times> app_state" where
  "via_overlord cx cmd finish s =
     (case ask_overlord cx cmd s of
        (None, s') \<Rightarrow> (None, s')
      | (Some (Inl e), s') \<Rightarrow> (Some (internal_error e), s')
      | (Some (Inr r), s') \<Rightarrow> (Some (finish r), s'))"

text \<open>\<open>caller.require(level)?\<close> at the head of an endpoint.\<close>

definition requiring :: "identity_access \<Rightarrow> identity_access \<Rightarrow> (app_state \<Rightarrow> api_response option \<times> app_state) \<Rightarrow>
    app_state \<Rightarrow> api_response option \<times> app_state" where
  "requiring caller needed f s =
     (case require caller needed of Inl _ \<Rightarrow> (Some forbidden, s) | Inr _ \<Rightarrow> f s)"

subsection \<open>The endpoints\<close>

definition system_info_endpoint :: "ctx \<Rightarrow> app_state \<Rightarrow> api_response option \<times> app_state" where
  "system_info_endpoint cx = via_overlord cx OvGetSystemInfo
     (\<lambda>r. case r of ReplySystem i \<Rightarrow> ApiOk (BodySystem i) | _ \<Rightarrow> internal_error channel_closed)"

definition list_services :: "ctx \<Rightarrow> identity_access \<Rightarrow> string option \<Rightarrow> app_state \<Rightarrow> api_response option \<times> app_state" where
  "list_services cx caller names = requiring caller Read (via_overlord cx (OvGetServices (parse_names names))
     (\<lambda>r. case r of ReplyServices is \<Rightarrow> ApiOk (BodyServices is) | _ \<Rightarrow> internal_error channel_closed))"

definition services_action :: "ctx \<Rightarrow> identity_access \<Rightarrow> service_action \<Rightarrow> string list \<Rightarrow> app_state \<Rightarrow> api_response option \<times> app_state" where
  "services_action cx caller action services = requiring caller Write (via_overlord cx (OvServices action services)
     (\<lambda>r. case r of ReplyChange c \<Rightarrow> ApiOk (BodyChange c) | _ \<Rightarrow> internal_error channel_closed))"

definition get_change :: "ctx \<Rightarrow> identity_access \<Rightarrow> string \<Rightarrow> app_state \<Rightarrow> api_response option \<times> app_state" where
  "get_change cx caller i = requiring caller Read (via_overlord cx (OvGetChanges (Some i))
     (\<lambda>r. case r of
            ReplyChanges (c # cs) \<Rightarrow> ApiOk (BodyChange c)
          | ReplyChanges [] \<Rightarrow> not_found (''change '' @ [CHR 0x27] @ i @ [CHR 0x27] @ '' not found'')
          | _ \<Rightarrow> internal_error channel_closed))"

definition list_checks :: "ctx \<Rightarrow> identity_access \<Rightarrow> string option \<Rightarrow> app_state \<Rightarrow> api_response option \<times> app_state" where
  "list_checks cx caller names = requiring caller Read (via_overlord cx (OvGetChecks (parse_names names))
     (\<lambda>r. case r of ReplyChecks is \<Rightarrow> ApiOk (BodyChecks is) | _ \<Rightarrow> internal_error channel_closed))"

definition list_alerts :: "ctx \<Rightarrow> identity_access \<Rightarrow> string option \<Rightarrow> app_state \<Rightarrow> api_response option \<times> app_state" where
  "list_alerts cx caller names = requiring caller Read (via_overlord cx (OvGetAlerts (parse_names names))
     (\<lambda>r. case r of ReplyAlerts is \<Rightarrow> ApiOk (BodyAlerts is) | _ \<Rightarrow> internal_error channel_closed))"

text \<open>\<open>order\<close> is the order in which the hash map of buffers is walked.\<close>

definition get_logs :: "string list \<Rightarrow> identity_access \<Rightarrow> string option \<Rightarrow> nat option \<Rightarrow> app_state \<Rightarrow> api_response option \<times> app_state" where
  "get_logs order caller services n = requiring caller Read (\<lambda>s.
     (Some (ApiOk (BodyLogs (tail_entries order (parse_services services) (case n of Some k \<Rightarrow> k | None \<Rightarrow> 100) (ap_log_store s)))), s))"

text \<open>The reply of the follow endpoint is a stream; what it sends is \<open>follow_logs\<close>.\<close>

definition follow_endpoint :: "identity_access \<Rightarrow> string option \<Rightarrow> log_format option \<Rightarrow> app_state \<Rightarrow> api_response option \<times> app_state" where
  "follow_endpoint caller services format = requiring caller Read (\<lambda>s.
     (Some (ApiOk (BodyFollow (case format of Some f \<Rightarrow> f | None \<Rightarrow> FmtJson) (parse_services services))), s))"

definition replan :: "ctx \<Rightarrow> identity_access \<Rightarrow> app_state \<Rightarrow> api_response option \<times> app_state" where
  "replan cx caller = requiring caller Write (via_overlord cx OvReloadLayers
     (\<lambda>r. case r of
            ReplyReload (Inr _) \<Rightarrow> ApiOk BodyNone
          | ReplyReload (Inl e) \<Rightarrow> internal_error (cx_error_text cx e)
          | _ \<Rightarrow> internal_error channel_closed))"

text \<open>
  \<open>shutdown_tx.send\<close> waits while the queue of one is full: then the request stays unanswered and
  changes nothing yet.
\<close>

definition daemon_action :: "identity_access \<Rightarrow> daemon_action \<Rightarrow> app_state \<Rightarrow> api_response option \<times> app_state" where
  "daemon_action caller action = requiring caller Admin (\<lambda>s.
     if ap_shutdown s = [] then (Some (ApiOk BodyNone), s\<lparr>ap_shutdown := [action]\<rparr>) else (None, s))"

definition list_identities :: "identity_access \<Rightarrow> string option \<Rightarrow> app_state \<Rightarrow> api_response option \<times> app_state" where
  "list_identities caller names = requiring caller Admin (\<lambda>s.
     (Some (ApiOk (BodyIdentities (identity_list (parse_names names) (ap_identities s)))), s))"

definition add_identities :: "identity_access \<Rightarrow> (string \<times> identity_spec) list \<Rightarrow> app_state \<Rightarrow> api_response option \<times> app_state" where
  "add_identities caller specs = requiring caller Admin (\<lambda>s.
     (Some (ApiOk BodyNone), s\<lparr>ap_identities := fold (\<lambda>(name, spec). identity_add name spec) specs (ap_identities s)\<rparr>))"

definition remove_identities :: "identity_access \<Rightarrow> string list \<Rightarrow> app_state \<Rightarrow> api_response option \<times> app_state" where
  "remove_identities caller names = requiring caller Admin (\<lambda>s.
     case identity_remove names (ap_identities s) of
       (removed, m) \<Rightarrow> (Some (ApiOk (BodyNames removed)), s\<lparr>ap_identities := m\<rparr>))"

definition get_metrics :: "(metrics_store \<Rightarrow> string) \<Rightarrow> identity_access \<Rightarrow> app_state \<Rightarrow> api_response option \<times> app_state" where
  "get_metrics render caller = requiring caller Metrics (\<lambda>s. (Some (ApiOk (BodyMetrics (render (ap_metrics s)))), s))"

subsection \<open>The router\<close>

datatype api_request =
    GetSystemInfo
  | GetMetrics
  | ListServices "string option"
  | PostServices service_action "string list"
  | GetChange string
  | ListChecks "string option"
  | ListAlerts "string option"
  | GetLogs "string option" "nat option"
  | FollowLogs "string option" "log_format option"
  | PostReplan
  | PostVigild daemon_action
  | ListIdentities "string option"
  | AddIdentities "(string \<times> identity_spec) list"
  | RemoveIdentities "string list"

text \<open>What the request meets: the handler's context, the walk order of the log store, the encoder.\<close>

record api_env =
  ae_ctx :: ctx
  ae_order :: "string list"
  ae_render :: "metrics_store \<Rightarrow> string"
  ae_auth :: auth_env

fun route :: "api_env \<Rightarrow> identity_access \<Rightarrow> api_request \<Rightarrow> app_state \<Rightarrow> api_response option \<times> app_state" where
  "route env caller GetSystemInfo = system_info_endpoint (ae_ctx env)"
| "route env caller GetMetrics = get_metrics (ae_render env) caller"
| "route env caller (ListServices names) = list_services (ae_ctx env) caller names"
| "route env caller (PostServices action services) = services_action (ae_ctx env) caller action services"
| "route env caller (GetChange i) = get_change (ae_ctx env) caller i"
| "route env caller (ListChecks names) = list_checks (ae_ctx env) caller names"
| "route env caller (ListAlerts names) = list_alerts (ae_ctx env) caller names"
| "route env caller (GetLogs services n) = get_logs (ae_order env) caller services n"
| "route env caller (FollowLogs services format) = follow_endpoint caller services format"
| "route env caller PostReplan = replan (ae_ctx env) caller"
| "route env caller (PostVigild action) = daemon_action caller action"
| "route env caller (ListIdentities names) = list_identities caller names"
| "route env caller (AddIdentities specs) = add_identities caller specs"
| "route env caller (RemoveIdentities names) = remove_identities caller names"

text \<open>A request: its caller is resolved first, from the store as it is.\<close>

definition serve :: "api_env \<Rightarrow> request_parts \<Rightarrow> api_request \<Rightarrow> app_state \<Rightarrow> api_response option \<times> app_state" where
  "serve env parts req s = route env (caller_access (ae_auth env) (ap_identities s) parts) req s"

end
