(* ===== verification/ApiProps.thy ===== *)
theory ApiProps
  imports Api DaemonInv
begin

text \<open>
  What the API guarantees: every endpoint's level of access, who can change the identities, and that a
  change can be fetched by the number it was given.
\<close>

subsection \<open>Access\<close>

text \<open>The level each endpoint documents.\<close>

fun documented_access :: "api_request \<Rightarrow> identity_access" where
  "documented_access GetSystemInfo = Open"
| "documented_access GetMetrics = Metrics"
| "documented_access (PostServices _ _) = Write"
| "documented_access PostReplan = Write"
| "documented_access (PostVigild _) = Admin"
| "documented_access (ListIdentities _) = Admin"
| "documented_access (AddIdentities _) = Admin"
| "documented_access (RemoveIdentities _) = Admin"
| "documented_access _ = Read"

lemmas endpoint_defs = system_info_endpoint_def list_services_def services_action_def get_change_def list_checks_def
  list_alerts_def get_logs_def follow_endpoint_def replan_def daemon_action_def list_identities_def
  add_identities_def remove_identities_def get_metrics_def

lemma requiring_denied: "\<not> needed \<le> caller \<Longrightarrow> requiring caller needed f s = (Some forbidden, s)"
  by (simp add: requiring_def require_def)

lemma requiring_granted: "needed \<le> caller \<Longrightarrow> requiring caller needed f s = f s"
  by (simp add: requiring_def require_def)

definition no_refusal :: "api_response option \<times> app_state \<Rightarrow> bool" where
  "no_refusal r \<longleftrightarrow> (\<forall>m. fst r \<noteq> Some (ApiFailed 403 m))"

lemma via_overlord_no_refusal:
  "(\<And>r m. finish r \<noteq> ApiFailed 403 m) \<Longrightarrow> no_refusal (via_overlord cx cmd finish s)"
  by (auto simp: no_refusal_def via_overlord_def internal_error_def split: prod.splits option.splits sum.splits)

lemma open_le: "Open \<le> (a :: identity_access)"
  by (simp add: less_eq_identity_access_def)

lemma route_denied: "\<not> documented_access req \<le> caller \<Longrightarrow> route env caller req s = (Some forbidden, s)"
  using open_le by (cases req) (auto simp: endpoint_defs requiring_denied)

lemma route_granted: "documented_access req \<le> caller \<Longrightarrow> no_refusal (route env caller req s)"
proof (cases req)
  case (PostVigild a)
  then show "documented_access req \<le> caller \<Longrightarrow> no_refusal (route env caller req s)"
    by (simp add: endpoint_defs requiring_granted no_refusal_def)
next
  case (RemoveIdentities names)
  then show "documented_access req \<le> caller \<Longrightarrow> no_refusal (route env caller req s)"
    by (simp add: endpoint_defs requiring_granted no_refusal_def split: prod.splits)
qed (auto simp: endpoint_defs requiring_granted internal_error_def not_found_def no_refusal_def
    split: ov_reply.splits list.splits sum.splits intro!: via_overlord_no_refusal [unfolded no_refusal_def, rule_format])

text \<open>
  What a request below the level of writing may touch: a check takes what waits in its mailbox, and
  answers. Its configuration, status and failures stay; it ends only by a shutdown that was waiting.
\<close>

definition mail_taken :: "chk_entry \<Rightarrow> chk_entry \<Rightarrow> bool" where
  "mail_taken e f \<longleftrightarrow> ke_config f = ke_config e \<and> (ke_mail f = ke_mail e \<or> ke_mail f = []) \<and>
     (\<exists>out ph. ke_actor f = (ke_actor e)\<lparr>ck_phase := ph, ck_out := ck_out (ke_actor e) @ out\<rparr> \<and>
        (\<forall>x \<in> set out. \<exists>i. x = SendInfo i) \<and>
        (ph \<noteq> ck_phase (ke_actor e) \<longrightarrow> ph = Returned \<and> CheckShutdown \<in> set (ke_mail e)))"

definition check_kept :: "string \<times> chk_entry \<Rightarrow> string \<times> chk_entry \<Rightarrow> bool" where
  "check_kept a b \<longleftrightarrow> fst b = fst a \<and> mail_taken (snd a) (snd b)"

definition same_but_checks :: "app_state \<Rightarrow> app_state \<Rightarrow> bool" where
  "same_but_checks s t \<longleftrightarrow>
     t = s\<lparr>ap_overlord := ap_overlord t\<rparr> \<and>
     (ap_overlord t = ap_overlord s \<or>
      (\<exists>ov cs. ap_overlord s = Serving ov \<and> ap_overlord t = Serving (ov\<lparr>ov_checks := cs\<rparr>) \<and>
         list_all2 check_kept (ov_checks ov) cs))"

lemma mail_taken_refl: "mail_taken e e"
proof -
  have "ke_actor e = (ke_actor e)\<lparr>ck_phase := ck_phase (ke_actor e), ck_out := ck_out (ke_actor e) @ []\<rparr>" by simp
  then show ?thesis unfolding mail_taken_def by fastforce
qed

lemma mail_taken_trans:
  assumes "mail_taken e f" and "mail_taken f g"
  shows "mail_taken e g"
proof -
  from assms(1) obtain o1 p1 where f: "ke_actor f = (ke_actor e)\<lparr>ck_phase := p1, ck_out := ck_out (ke_actor e) @ o1\<rparr>"
      "\<forall>x \<in> set o1. \<exists>i. x = SendInfo i" "p1 \<noteq> ck_phase (ke_actor e) \<longrightarrow> p1 = Returned \<and> CheckShutdown \<in> set (ke_mail e)"
      "ke_config f = ke_config e" "ke_mail f = ke_mail e \<or> ke_mail f = []"
    by (auto simp: mail_taken_def)
  from assms(2) obtain o2 p2 where g: "ke_actor g = (ke_actor f)\<lparr>ck_phase := p2, ck_out := ck_out (ke_actor f) @ o2\<rparr>"
      "\<forall>x \<in> set o2. \<exists>i. x = SendInfo i" "p2 \<noteq> ck_phase (ke_actor f) \<longrightarrow> p2 = Returned \<and> CheckShutdown \<in> set (ke_mail f)"
      "ke_config g = ke_config f" "ke_mail g = ke_mail f \<or> ke_mail g = []"
    by (auto simp: mail_taken_def)
  have "ke_actor g = (ke_actor e)\<lparr>ck_phase := p2, ck_out := ck_out (ke_actor e) @ o1 @ o2\<rparr>" by (simp add: f g)
  moreover have "p2 \<noteq> ck_phase (ke_actor e) \<longrightarrow> p2 = Returned \<and> CheckShutdown \<in> set (ke_mail e)"
    using f g(3) by (cases "p2 = p1") auto
  ultimately show ?thesis
    using f g unfolding mail_taken_def
    by - (intro conjI exI [of _ "o1 @ o2"] exI [of _ p2], auto)
qed

lemma checks_taken_refl: "list_all2 check_kept cs cs"
  by (rule list_all2_refl) (simp add: check_kept_def mail_taken_refl)

lemma checks_taken_trans:
  "list_all2 check_kept as bs \<Longrightarrow>
   list_all2 check_kept bs cs \<Longrightarrow>
   list_all2 check_kept as cs"
  by (rule list_all2_trans [of check_kept check_kept check_kept as bs cs]) (auto simp: check_kept_def intro: mail_taken_trans)

lemma same_refl: "same_but_checks s s"
  by (simp add: same_but_checks_def)

lemma same_trans:
  assumes "same_but_checks s t" and "same_but_checks t u"
  shows "same_but_checks s u"
proof -
  have "u = s\<lparr>ap_overlord := ap_overlord u\<rparr>"
    using assms unfolding same_but_checks_def by (metis app_state.update_convs(1) app_state.surjective)
  then show ?thesis
    using assms checks_taken_trans by (fastforce simp: same_but_checks_def)
qed

lemma take_check_mail_taken:
  "\<exists>out ph. take_check_mail now cs a = a\<lparr>ck_phase := ph, ck_out := ck_out a @ out\<rparr> \<and>
     (\<forall>x \<in> set out. \<exists>i. x = SendInfo i) \<and> (ph \<noteq> ck_phase a \<longrightarrow> ph = Returned \<and> CheckShutdown \<in> set cs)"
proof (induction cs arbitrary: a)
  case Nil
  show ?case by (rule exI [of _ "[]"], rule exI [of _ "ck_phase a"]) simp
next
  case (Cons c cs)
  show ?case
  proof (cases "check_enabled a (CkCmd now (Some c))")
    case False
    then show ?thesis by (intro exI [of _ "[]"] exI [of _ "ck_phase a"]) simp
  next
    case True
    from Cons.IH [of "check_command now (Some c) a"] obtain out ph where
        o: "take_check_mail now cs (check_command now (Some c) a) =
          (check_command now (Some c) a)\<lparr>ck_phase := ph, ck_out := ck_out (check_command now (Some c) a) @ out\<rparr>"
        "\<forall>x \<in> set out. \<exists>i. x = SendInfo i"
        "ph \<noteq> ck_phase (check_command now (Some c) a) \<longrightarrow> ph = Returned \<and> CheckShutdown \<in> set cs"
      by blast
    show ?thesis
    proof (cases c)
      case GetStatus
      let ?i = "SendInfo (case ck_phase a of Delaying _ \<Rightarrow> delay_info a | _ \<Rightarrow> loop_info now a)"
      from o True GetStatus show ?thesis
        by (intro exI [of _ "?i # out"] exI [of _ ph]) (auto simp: check_command_def put_out_def)
    next
      case CheckShutdown
      with o True show ?thesis
        by (intro exI [of _ out] exI [of _ ph]) (auto simp: check_command_def)
    qed
  qed
qed

lemma status_taken: "mail_taken f (f\<lparr>ke_actor := check_command now (Some GetStatus) (ke_actor f), ke_mail := []\<rparr>)"
proof -
  obtain i where "check_command now (Some GetStatus) (ke_actor f) =
      (ke_actor f)\<lparr>ck_phase := ck_phase (ke_actor f), ck_out := ck_out (ke_actor f) @ [SendInfo i]\<rparr>"
    by (simp add: check_command_def put_out_def)
  then show ?thesis
    unfolding mail_taken_def
    by (intro conjI exI [of _ "[SendInfo i]"] exI [of _ "ck_phase (ke_actor f)"]) simp_all
qed

lemma query_check_taken: "mail_taken e (snd (query_check cx e))"
proof -
  obtain out ph where o: "take_check_mail (cx_mono cx) (ke_mail e) (ke_actor e) = (ke_actor e)\<lparr>ck_phase := ph, ck_out := ck_out (ke_actor e) @ out\<rparr>"
      "\<forall>x \<in> set out. \<exists>i. x = SendInfo i" "ph \<noteq> ck_phase (ke_actor e) \<longrightarrow> ph = Returned \<and> CheckShutdown \<in> set (ke_mail e)"
    using take_check_mail_taken by blast
  let ?f = "e\<lparr>ke_actor := take_check_mail (cx_mono cx) (ke_mail e) (ke_actor e), ke_mail := []\<rparr>"
  have "mail_taken e ?f" unfolding mail_taken_def using o by auto
  moreover have "mail_taken ?f (?f\<lparr>ke_actor := check_command (cx_mono cx) (Some GetStatus) (ke_actor ?f), ke_mail := []\<rparr>)"
    by (rule status_taken)
  ultimately have "mail_taken e (?f\<lparr>ke_actor := check_command (cx_mono cx) (Some GetStatus) (ke_actor ?f), ke_mail := []\<rparr>)"
    by (rule mail_taken_trans)
  with \<open>mail_taken e ?f\<close> show ?thesis by (simp add: query_check_def Let_def)
qed

lemma via_overlord_query:
  assumes "\<And>ov. \<exists>cs r. handle_cmd cx cmd ov = Finished (ov\<lparr>ov_checks := cs\<rparr>, r) \<and>
    list_all2 check_kept (ov_checks ov) cs"
  shows "same_but_checks s (snd (via_overlord cx cmd finish s))"
proof (cases "ap_overlord s")
  case (Serving ov)
  from assms obtain cs r where "handle_cmd cx cmd ov = Finished (ov\<lparr>ov_checks := cs\<rparr>, r)"
      "list_all2 check_kept (ov_checks ov) cs" by blast
  with Serving show ?thesis by (auto simp: via_overlord_def ask_overlord_def same_but_checks_def)
qed (simp_all add: via_overlord_def ask_overlord_def same_refl)

lemma query_keeps:
  assumes "cmd \<in> {OvGetServices names, OvGetChanges (Some i), OvGetChecks names, OvGetAlerts names, OvGetSystemInfo}"
  shows "same_but_checks s (snd (via_overlord cx cmd finish s))"
proof (rule via_overlord_query)
  fix ov
  show "\<exists>cs r. handle_cmd cx cmd ov = Finished (ov\<lparr>ov_checks := cs\<rparr>, r) \<and>
    list_all2 check_kept (ov_checks ov) cs"
  proof (cases "cmd = OvGetChecks names")
    case True
    have "list_all2 check_kept xs
        (map (\<lambda>(n, e). (n, if names = [] \<or> n \<in> set names then snd (query_check cx e) else e)) xs)" for xs
      by (induction xs) (auto simp: check_kept_def query_check_taken mail_taken_refl)
    with True show ?thesis by (auto simp: handle_cmd_def query_checks_def Let_def)
  next
    case False
    have same: "ov = ov\<lparr>ov_checks := ov_checks ov\<rparr>" by simp
    from False assms show ?thesis
      by (intro exI [of _ "ov_checks ov"]) (auto simp: handle_cmd_def checks_taken_refl)
  qed
qed

lemma queries_keep:
  "same_but_checks s (snd (via_overlord cx (OvGetServices names) finish s))"
  "same_but_checks s (snd (via_overlord cx (OvGetChanges (Some i)) finish s))"
  "same_but_checks s (snd (via_overlord cx (OvGetChecks names) finish s))"
  "same_but_checks s (snd (via_overlord cx (OvGetAlerts names) finish s))"
  "same_but_checks s (snd (via_overlord cx OvGetSystemInfo finish s))"
  by (rule query_keeps, blast)+

lemma read_route: "documented_access req \<le> Read \<Longrightarrow> same_but_checks s (snd (route env caller req s))"
  by (cases req; cases "documented_access req \<le> caller")
    (auto simp: endpoint_defs requiring_granted requiring_denied same_refl less_eq_identity_access_def queries_keep)

text \<open>
  C10. Every endpoint demands the level of access it documents, from the caller as the identities say
  at that moment: a request below the level is refused with 403 and changes nothing, one at the
  level is never refused (but asking the checks may wait for them, possibly for ever). And no request
  that needs less than write access changes anything of the daemon, except that checks take what
  waits in their mailboxes and answer: the same checks stay, with their configuration, status and
  failures, and one ends only by a shutdown that was already waiting for it.
\<close>

theorem api_access:
  shows "(\<not> documented_access req \<le> caller_access (ae_auth env) (ap_identities s) parts \<longrightarrow>
      serve env parts req s = (Some forbidden, s)) \<and>
    (documented_access req \<le> caller_access (ae_auth env) (ap_identities s) parts \<longrightarrow> no_refusal (serve env parts req s)) \<and>
    (documented_access req \<le> Read \<longrightarrow> same_but_checks s (snd (serve env parts req s)))"
  unfolding serve_def using route_denied route_granted read_route by blast

theorem api_access_witness:
  "(\<forall>s env parts. no_refusal (serve env parts (RemoveIdentities []) (s\<lparr>ap_identities := []\<rparr>))) \<and>
   (\<forall>s env. serve (env\<lparr>ae_auth := demo_auth\<rparr>) \<lparr>rp_authorization = None, rp_peer_cert = None, rp_unix_peer = None\<rparr>
      (ListServices None) (s\<lparr>ap_identities := demo_ids\<rparr>) = (Some forbidden, s\<lparr>ap_identities := demo_ids\<rparr>))"
proof (intro conjI allI)
  fix s :: app_state and env :: api_env and parts
  have "caller_access (ae_auth env) [] parts = Admin" by (simp add: caller_access_def identity_is_empty_def)
  with api_access [of "RemoveIdentities []" env "s\<lparr>ap_identities := []\<rparr>" parts]
  show "no_refusal (serve env parts (RemoveIdentities []) (s\<lparr>ap_identities := []\<rparr>))" by simp
next
  fix s :: app_state and env :: api_env
  let ?p = "\<lparr>rp_authorization = None, rp_peer_cert = None, rp_unix_peer = None\<rparr>"
  have "caller_access demo_auth demo_ids ?p = Open"
    by (simp add: caller_access_def identity_is_empty_def demo_ids_def identity_add_def resolve_access_def basic_credentials_def)
  with api_access [of "ListServices None" "env\<lparr>ae_auth := demo_auth\<rparr>" "s\<lparr>ap_identities := demo_ids\<rparr>" ?p]
  show "serve (env\<lparr>ae_auth := demo_auth\<rparr>) ?p (ListServices None) (s\<lparr>ap_identities := demo_ids\<rparr>) =
      (Some forbidden, s\<lparr>ap_identities := demo_ids\<rparr>)"
    by (simp add: less_eq_identity_access_def)
qed

subsection \<open>Identities\<close>

fun serve_all :: "(api_env \<times> request_parts \<times> api_request) list \<Rightarrow> app_state \<Rightarrow> app_state" where
  "serve_all [] s = s"
| "serve_all ((env, parts, req) # rs) s = serve_all rs (snd (serve env parts req s))"

text \<open>There are identities, and all of them are below a level.\<close>

definition all_below :: "identity_access \<Rightarrow> identity_store \<Rightarrow> bool" where
  "all_below level m \<longleftrightarrow> m \<noteq> [] \<and> (\<forall>i \<in> snd ` set m. id_access i < level)"

lemma all_below_caller: "all_below level m \<Longrightarrow> Open < level \<Longrightarrow> caller_access env m parts < level"
  using access_sound [of m env parts] by (auto simp: all_below_def less_identity_access_def less_eq_identity_access_def)

lemma via_overlord_frame:
  "ap_identities (snd (via_overlord cx cmd f s)) = ap_identities s \<and> ap_shutdown (snd (via_overlord cx cmd f s)) = ap_shutdown s"
  by (auto simp: via_overlord_def ask_overlord_def split: prod.splits option.splits sum.splits daemon.splits outcome.splits if_splits)

lemma route_frame:
  assumes "caller < Admin"
  shows "ap_identities (snd (route env caller req s)) = ap_identities s \<and> ap_shutdown (snd (route env caller req s)) = ap_shutdown s"
proof (cases "documented_access req \<le> caller")
  case False
  then show ?thesis by (simp add: route_denied)
next
  case True
  with assms show ?thesis
    by (cases req) (auto simp: endpoint_defs requiring_granted via_overlord_frame)
qed

lemma route_below_write: "caller < Write \<Longrightarrow> same_but_checks s (snd (route env caller req s))"
  using read_route [of req s env caller] route_denied [of req caller env s]
  by (cases "documented_access req \<le> Read")
    (auto simp: same_refl less_identity_access_def less_eq_identity_access_def)

text \<open>
  C39. The identities decide who controls the daemon. If there are some and all of them are below the
  administrator's level, everybody is locked out of them: from then on no sequence of requests,
  whatever their credentials and transports, changes the identities or puts a stop or restart of the
  daemon into the queue of its main task. If all of them are below write access, no sequence of
  requests changes anything of the daemon but the mailboxes of its checks. (Write access is enough
  to end it in another way: a reload with a queue limit of 0 makes the overlord panic.) Without any
  identity every caller is an administrator, whatever the transport and the credentials, and no
  request is refused.
\<close>

theorem identities_decide_control:
  shows "(all_below Admin (ap_identities s) \<longrightarrow>
      ap_identities (serve_all rs s) = ap_identities s \<and> ap_shutdown (serve_all rs s) = ap_shutdown s) \<and>
    (all_below Write (ap_identities s) \<longrightarrow> same_but_checks s (serve_all rs s)) \<and>
    (ap_identities s = [] \<longrightarrow>
      caller_access (ae_auth env) (ap_identities s) parts = Admin \<and> no_refusal (serve env parts req s) \<and>
      serve env parts (AddIdentities specs) s =
        (Some (ApiOk BodyNone), s\<lparr>ap_identities := fold (\<lambda>(name, spec). identity_add name spec) specs []\<rparr>))"
proof (intro conjI impI)
  assume "all_below Admin (ap_identities s)"
  then have "ap_identities (serve_all rs s) = ap_identities s \<and> ap_shutdown (serve_all rs s) = ap_shutdown s"
  proof (induction rs s rule: serve_all.induct)
    case (2 env parts req rs s)
    have "caller_access (ae_auth env) (ap_identities s) parts < Admin"
      by (rule all_below_caller [OF 2(2)]) (simp add: less_identity_access_def less_eq_identity_access_def)
    from route_frame [OF this, of env req s] 2 show ?case by (simp add: serve_def)
  qed simp
  then show "ap_identities (serve_all rs s) = ap_identities s" and "ap_shutdown (serve_all rs s) = ap_shutdown s" by auto
next
  assume "all_below Write (ap_identities s)"
  then show "same_but_checks s (serve_all rs s)"
  proof (induction rs s rule: serve_all.induct)
    case (2 env parts req rs s)
    have "caller_access (ae_auth env) (ap_identities s) parts < Write"
      by (rule all_below_caller [OF 2(2)]) (simp add: less_identity_access_def less_eq_identity_access_def)
    from route_below_write [OF this] have one: "same_but_checks s (snd (serve env parts req s))" by (simp add: serve_def)
    then have "ap_identities (snd (serve env parts req s)) = ap_identities s"
      unfolding same_but_checks_def by (metis app_state.select_convs(3) app_state.surjective app_state.update_convs(1))
    with 2 same_trans [OF one] show ?case by simp
  qed (simp add: same_refl)
next
  assume none: "ap_identities s = []"
  then have admin: "caller_access (ae_auth env) (ap_identities s) parts = Admin"
    by (simp add: caller_access_def identity_is_empty_def)
  then show "caller_access (ae_auth env) (ap_identities s) parts = Admin" .
  have "documented_access req \<le> Admin" by (cases "documented_access req") (simp_all add: less_eq_identity_access_def)
  then show "no_refusal (serve env parts req s)" unfolding serve_def admin by (rule route_granted)
  show "serve env parts (AddIdentities specs) s =
      (Some (ApiOk BodyNone), s\<lparr>ap_identities := fold (\<lambda>(name, spec). identity_add name spec) specs []\<rparr>)"
    using none admin by (simp add: serve_def add_identities_def requiring_granted)
qed

theorem identities_decide_control_witness:
  "\<forall>s env parts specs. ap_identities (serve_all [(env, parts, RemoveIdentities [''bob'']), (env, parts, AddIdentities specs)]
     (s\<lparr>ap_identities := demo_ids\<rparr>)) = demo_ids"
proof (intro allI)
  fix s :: app_state and env :: api_env and parts :: request_parts and specs
  let ?rs = "[(env, parts, RemoveIdentities [''bob'']), (env, parts, AddIdentities specs)]"
  have "all_below Admin demo_ids"
    by (simp add: all_below_def demo_ids_def identity_add_def identity_of_spec_def less_identity_access_def less_eq_identity_access_def)
  with identities_decide_control [of "s\<lparr>ap_identities := demo_ids\<rparr>" ?rs]
  show "ap_identities (serve_all ?rs (s\<lparr>ap_identities := demo_ids\<rparr>)) = demo_ids" by simp
qed

subsection \<open>Changes\<close>

lemma change_ids_distinct: "k < 2 ^ 64 \<Longrightarrow> distinct (change_ids k)"
proof -
  assume k: "k < 2 ^ 64"
  have "unat (of_nat (Suc i) :: 64 word) = Suc i" if "i < k" for i using that k
    by (simp only: unat_of_nat) simp
  moreover have "inj show_nat" by (metis injI parse_show_nat)
  ultimately show ?thesis
    by (auto simp: change_ids_def distinct_map inj_on_def)
qed

text \<open>
  C38. A change can be fetched by its number: as long as fewer than 2^64 changes were made, the record a
  write request was answered with is what the change endpoint answers for its number right
  afterwards, to anybody who may read.
\<close>

theorem change_round_trip:
  assumes "reach daemon_init daemon_step (Serving ov)" and "ap_overlord s = Serving ov"
    and "serve env parts (PostServices action services) s = (Some (ApiOk (BodyChange c)), t)"
    and "ap_overlord t = Serving ov'" and "length (ov_changes ov') < 2 ^ 64"
    and "Read \<le> caller_access (ae_auth env') (ap_identities t) parts'"
  shows "serve env' parts' (GetChange (ch_id c)) t = (Some (ApiOk (BodyChange c)), t)"
proof -
  let ?cx = "ae_ctx env"
  have inv: "ov_inv ov" using daemon.reach_inv [OF assms(1)] by simp
  have "Write \<le> caller_access (ae_auth env) (ap_identities s) parts"
  proof (rule ccontr)
    assume "\<not> Write \<le> caller_access (ae_auth env) (ap_identities s) parts"
    with assms(3) show False by (simp add: serve_def services_action_def requiring_denied forbidden_def)
  qed
  with assms(2,3) obtain ov1 r where r: "handle_cmd ?cx (OvServices action services) ov = Finished (ov1, r)"
      "t = s\<lparr>ap_overlord := Serving ov1\<rparr>" "r = ReplyChange c"
    by (auto simp: serve_def services_action_def requiring_granted via_overlord_def ask_overlord_def internal_error_def
        split: outcome.splits ov_reply.splits)
  with assms(4) have ov1: "ov1 = ov'" by simp
  from r(1) r(3) obtain xs where xs: "ov_changes ov1 = xs @ [c]"
    by (auto simp: handle_cmd_def handle_services_action_def and_then_Finished Let_def)
  have "ov_inv ov1" by (rule handle_cmd_inv [OF r(1) inv])
  then have "map ch_id (ov_changes ov1) = change_ids (length (ov_changes ov1))" by (simp add: ov_inv_def numbered_def)
  then have "distinct (map ch_id (xs @ [c]))" using change_ids_distinct [OF assms(5)] xs ov1 by simp
  then have "filter (\<lambda>c'. ch_id c' = ch_id c) xs = []" by (auto simp: filter_empty_conv) (metis image_eqI)
  then have "handle_cmd (ae_ctx env') (OvGetChanges (Some (ch_id c))) ov' = Finished (ov', ReplyChanges [c])"
    using xs ov1 by (simp add: handle_cmd_def)
  with assms(4,6) show ?thesis
    by (simp add: serve_def get_change_def requiring_granted via_overlord_def ask_overlord_def)
qed

definition demo_api_env :: api_env where
  "demo_api_env = \<lparr> ae_ctx = demo_cx, ae_order = [], ae_render = (\<lambda>_. []), ae_auth = demo_auth \<rparr>"

theorem change_round_trip_witness:
  "\<exists>s t c. \<forall>parts. serve demo_api_env parts (PostServices ActStop [''nosuch'']) s = (Some (ApiOk (BodyChange c)), t) \<and>
     serve demo_api_env parts (GetChange (ch_id c)) t = (Some (ApiOk (BodyChange c)), t)"
proof -
  obtain ov where ov: "reach daemon_init daemon_step (Serving ov)" "plan_services (ov_plan ov) = [(''web'', new_web)]"
      "ov_changes ov = []"
    using demo_serving by blast
  then have "set (im_keys (ov_services ov)) = {''web''}"
    using daemon.reach_inv [OF ov(1)] by (simp add: ov_inv_def planned_def)
  then have none: "map_of (ov_services ov) ''nosuch'' = None" by (simp add: map_of_eq_None_iff)
  define s where "s = \<lparr> ap_overlord = Serving ov, ap_log_store = log_store_new 1, ap_identities = [], ap_metrics = metrics_new, ap_shutdown = [] \<rparr>"
  obtain ov' c where h: "handle_cmd demo_cx (OvServices ActStop [''nosuch'']) ov = Finished (ov', ReplyChange c)"
      and one: "length (ov_changes ov') = 1"
    by (simp add: handle_cmd_def handle_services_action_def service_action_one_def svc_cmd_result_def none Let_def ov(3))
  define t where "t = s\<lparr>ap_overlord := Serving ov'\<rparr>"
  have admin: "caller_access (ae_auth demo_api_env) [] parts = Admin" for parts
    by (simp add: caller_access_def identity_is_empty_def)
  have post: "serve demo_api_env parts (PostServices ActStop [''nosuch'']) s = (Some (ApiOk (BodyChange c)), t)" for parts
    using h admin by (simp add: serve_def s_def t_def demo_api_env_def services_action_def requiring_granted via_overlord_def
        ask_overlord_def less_eq_identity_access_def)
  have "serve demo_api_env parts (GetChange (ch_id c)) t = (Some (ApiOk (BodyChange c)), t)" for parts
  proof (rule change_round_trip [OF ov(1) _ post [of parts]])
    show "length (ov_changes ov') < 2 ^ 64" by (simp only: one) simp
  qed (simp_all add: s_def t_def admin less_eq_identity_access_def)
  with post show ?thesis by blast
qed

end
