(* ===== verification/Server.thy ===== *)
theory Server
  imports Api HttpClient
begin

text \<open>
  The start and the end of the daemon: the control socket and the peers of a connection
  (\<open>crates/vigild/src/server.rs\<close>), the TLS acceptor (\<open>tls/acceptor.rs\<close>, \<open>tls/cert.rs\<close>), the options
  and the signal loop (\<open>main.rs\<close>). The file system is a map from paths to what they name; which
  system call fails, and the cryptographic library, are parameters.
\<close>

subsection \<open>Paths\<close>

text \<open>\<open>Path::components\<close>: repeated separators and inner dots do not count.\<close>

definition path_components :: "string \<Rightarrow> string list" where
  "path_components p =
     (let ws = split_on (CHR ''/'') p
      in (if hd ws = ''.'' then [''.''] else []) @ filter (\<lambda>w. w \<noteq> [] \<and> w \<noteq> ''.'') ws)"

definition path_root :: "string \<Rightarrow> string" where
  "path_root p = (if starts_with p ''/'' then ''/'' else [])"

definition path_file_name :: "string \<Rightarrow> string option" where
  "path_file_name p =
     (case rev (path_components p) of
        [] \<Rightarrow> None
      | w # _ \<Rightarrow> if w = ''..'' \<or> w = ''.'' then None else Some w)"

definition path_parent :: "string \<Rightarrow> string option" where
  "path_parent p =
     (if path_components p = [] then None
      else Some (path_root p @ join_with ''/'' (butlast (path_components p))))"

definition path_join :: "string \<Rightarrow> string \<Rightarrow> string" where
  "path_join d w = (if d = [] \<or> last d = CHR ''/'' then d @ w else d @ ''/'' @ w)"

subsection \<open>The control socket\<close>

datatype fs_node = SocketNode nat | OtherNode | SymlinkNode

type_synonym file_system = "string \<rightharpoonup> fs_node"

record fs_calls =
  fc_inspect :: "string option"
  fc_remove :: "string option"
  fc_mkdir :: "string option"
  fc_remove_tmp :: "string option"
  fc_bind :: "string option"
  fc_chmod :: "string option"
  fc_rename :: "string option"
  fc_listen :: "string option"
  fc_new_mode :: nat

definition socket_dir :: "string \<Rightarrow> string" where
  "socket_dir p = (case path_parent p of Some d \<Rightarrow> if d = [] then ''.'' else d | None \<Rightarrow> ''.'')"

definition tmp_path :: "string \<Rightarrow> string \<Rightarrow> nat \<Rightarrow> string" where
  "tmp_path dir name pid = path_join dir (''.'' @ name @ ''.'' @ show_nat pid @ ''.tmp'')"

text \<open>
  The steps of \<open>bind_unix\<close> leave a trace: the file systems other processes could see, oldest first.
  What was at the path goes first, then the socket is made under its temporary name and moved.
\<close>

definition remove_stale :: "fs_calls \<Rightarrow> string \<Rightarrow> file_system \<Rightarrow> string + file_system" where
  "remove_stale calls path fs =
     (case fc_inspect calls of
        Some e \<Rightarrow> Inl e
      | None \<Rightarrow>
          (case fs path of
             None \<Rightarrow> Inr fs
           | Some SymlinkNode \<Rightarrow> Inl ''it is a symlink''
           | Some OtherNode \<Rightarrow> Inl ''it exists and is not a socket''
           | Some (SocketNode _) \<Rightarrow> (case fc_remove calls of Some e \<Rightarrow> Inl e | None \<Rightarrow> Inr (fs(path := None)))))"

definition bind_and_move :: "fs_calls \<Rightarrow> nat \<Rightarrow> string \<Rightarrow> string \<Rightarrow> file_system \<Rightarrow> file_system list \<times> (string + unit)" where
  "bind_and_move calls mode path tmp fs =
     (let fs3 = (case fs tmp of
                   Some (SocketNode _) \<Rightarrow> if fc_remove_tmp calls = None then fs(tmp := None) else fs
                 | _ \<Rightarrow> fs);
          fs4 = fs3(tmp \<mapsto> SocketNode (fc_new_mode calls));
          fs5 = fs4(tmp \<mapsto> SocketNode mode);
          fs6 = fs5(tmp := None, path \<mapsto> SocketNode mode);
          undo = (\<lambda>fs. if fc_remove_tmp calls = None then fs(tmp := None) else fs)
      in case (if fs3 tmp \<noteq> None then Some ''address in use'' else fc_bind calls) of
           Some e \<Rightarrow> ([fs3], Inl e)
         | None \<Rightarrow>
             (case fc_chmod calls of
                Some e \<Rightarrow> ([fs3, fs4, undo fs4], Inl e)
              | None \<Rightarrow>
                  (case fc_rename calls of
                     Some e \<Rightarrow> ([fs3, fs4, fs5, undo fs5], Inl e)
                   | None \<Rightarrow> ([fs3, fs4, fs5, fs6], case fc_listen calls of Some e \<Rightarrow> Inl e | None \<Rightarrow> Inr ()))))"

text \<open>\<open>mkdirs\<close> adds the missing directories of a path.\<close>

definition bind_unix :: "fs_calls \<Rightarrow> (string \<Rightarrow> file_system \<Rightarrow> file_system) \<Rightarrow> nat \<Rightarrow> string \<Rightarrow> nat \<Rightarrow> file_system \<Rightarrow>
    file_system list \<times> (string + unit)" where
  "bind_unix calls mkdirs pid path mode fs0 =
     (case remove_stale calls path fs0 of
        Inl e \<Rightarrow> ([fs0], Inl e)
      | Inr fs1 \<Rightarrow>
          (case fc_mkdir calls of
             Some e \<Rightarrow> ([fs0, fs1], Inl e)
           | None \<Rightarrow>
               let dir = socket_dir path; fs2 = mkdirs dir fs1 in
               (case path_file_name path of
                  None \<Rightarrow> ([fs0, fs1, fs2], Inl ''no file name'')
                | Some name \<Rightarrow>
                    (case bind_and_move calls mode path (tmp_path dir name pid) fs2 of
                       (fss, r) \<Rightarrow> ([fs0, fs1, fs2] @ fss, r)))))"

text \<open>The options of \<open>parse_octal_mode\<close>: \<open>from_str_radix\<close> takes one sign and octal digits.\<close>

fun octal_value :: "nat \<Rightarrow> string \<Rightarrow> nat" where
  "octal_value acc [] = acc"
| "octal_value acc (c # cs) = octal_value (acc * 8 + digit_val c) cs"

definition is_octal_digit :: "char \<Rightarrow> bool" where
  "is_octal_digit c \<longleftrightarrow> is_ascii_digit c \<and> digit_val c < 8"

definition u32_from_octal :: "string \<Rightarrow> nat option" where
  "u32_from_octal s =
     (let ds = (case s of [] \<Rightarrow> [] | c # cs \<Rightarrow> if c = CHR ''+'' then cs else s) in
      if ds = [] \<or> \<not> list_all is_octal_digit ds \<or> 4294967295 < octal_value 0 ds then None
      else Some (octal_value 0 ds))"

definition parse_octal_mode :: "string \<Rightarrow> string + nat" where
  "parse_octal_mode s =
     (let digits = (case strip_prefix ''0o'' s of Some d \<Rightarrow> d | None \<Rightarrow> s) in
      case u32_from_octal digits of
        None \<Rightarrow> Inl ''invalid octal mode''
      | Some mode \<Rightarrow> if 511 < mode then Inl ''out of range (max 777)'' else Inr mode)"

text \<open>What a connection tells about its peer: the socket its user, TLS its certificate.\<close>

definition unix_peer :: "u32 option \<Rightarrow> string option \<Rightarrow> request_parts" where
  "unix_peer uid auth = \<lparr> rp_authorization = auth, rp_peer_cert = None, rp_unix_peer = Some uid \<rparr>"

definition tls_peer :: "string list option \<Rightarrow> string option \<Rightarrow> request_parts" where
  "tls_peer certs auth = \<lparr> rp_authorization = auth,
     rp_peer_cert = (case certs of Some (c # _) \<Rightarrow> Some c | _ \<Rightarrow> None), rp_unix_peer = None \<rparr>"

subsection \<open>The TLS acceptor\<close>

text \<open>A private key in one of the three formats a PEM file can hold.\<close>

datatype private_key = Pkcs1 string | Pkcs8 string | Sec1 string

fun secret_der :: "private_key \<Rightarrow> string" where
  "secret_der (Pkcs1 k) = k"
| "secret_der (Pkcs8 k) = k"
| "secret_der (Sec1 k) = k"

record tls_acceptor =
  ta_certs :: "string list"
  ta_key :: private_key
  ta_client_roots :: "string list option"

record tls_env =
  te_read :: "string \<Rightarrow> string + string"
  te_certs :: "string \<Rightarrow> string + string list"
  te_private_key :: "string \<Rightarrow> string + private_key option"
  te_self_signed :: "string list \<Rightarrow> string + (string list \<times> string)"
  te_add_root :: "string list \<Rightarrow> string \<Rightarrow> string + string list"
  te_verifier :: "string list \<Rightarrow> string option"
  te_single_cert :: "string list \<Rightarrow> private_key \<Rightarrow> string option"

definition acceptor_from_der :: "tls_env \<Rightarrow> string list \<Rightarrow> string \<Rightarrow> string + tls_acceptor" where
  "acceptor_from_der env cert_ders key_der =
     (case te_single_cert env cert_ders (Pkcs8 key_der) of
        Some e \<Rightarrow> Inl e
      | None \<Rightarrow> Inr \<lparr> ta_certs = cert_ders, ta_key = Pkcs8 key_der, ta_client_roots = None \<rparr>)"

fun add_client_roots :: "tls_env \<Rightarrow> string list \<Rightarrow> string list \<Rightarrow> string + string list" where
  "add_client_roots env roots [] = Inr roots"
| "add_client_roots env roots (ca # cas) =
     (case te_add_root env roots ca of Inl e \<Rightarrow> Inl e | Inr roots' \<Rightarrow> add_client_roots env roots' cas)"

definition acceptor_from_der_mtls :: "tls_env \<Rightarrow> string list \<Rightarrow> string \<Rightarrow> string list \<Rightarrow> string + tls_acceptor" where
  "acceptor_from_der_mtls env cert_ders key_der client_ca_ders =
     (case add_client_roots env [] client_ca_ders of Inl e \<Rightarrow> Inl e | Inr roots \<Rightarrow>
     (case te_verifier env roots of Some e \<Rightarrow> Inl e | None \<Rightarrow>
     (case te_single_cert env cert_ders (Pkcs8 key_der) of
        Some e \<Rightarrow> Inl e
      | None \<Rightarrow> Inr \<lparr> ta_certs = cert_ders, ta_key = Pkcs8 key_der, ta_client_roots = Some roots \<rparr>)))"

definition load_pem :: "tls_env \<Rightarrow> string \<Rightarrow> string \<Rightarrow> string + (string list \<times> string)" where
  "load_pem env cert_path key_path =
     (case te_read env cert_path of Inl e \<Rightarrow> Inl e | Inr cert_pem \<Rightarrow>
     (case te_certs env cert_pem of Inl e \<Rightarrow> Inl e | Inr cert_ders \<Rightarrow>
      if cert_ders = [] then Inl (''no certificate found in '' @ cert_path)
      else
     (case te_read env key_path of Inl e \<Rightarrow> Inl e | Inr key_pem \<Rightarrow>
     (case te_private_key env key_pem of
        Inl e \<Rightarrow> Inl e
      | Inr None \<Rightarrow> Inl (''no private key found in '' @ key_path)
      | Inr (Some k) \<Rightarrow> Inr (cert_ders, secret_der k)))))"

definition generate_self_signed :: "tls_env \<Rightarrow> string list \<Rightarrow> string + (string list \<times> string)" where
  "generate_self_signed env hostnames = te_self_signed env hostnames"

definition load_or_generate :: "tls_env \<Rightarrow> string option \<Rightarrow> string option \<Rightarrow> string \<Rightarrow> string option \<Rightarrow> string + tls_acceptor" where
  "load_or_generate env cert_path key_path hostname client_ca_path =
     (case (case (cert_path, key_path) of
              (Some c, Some k) \<Rightarrow> load_pem env c k
            | (None, None) \<Rightarrow> generate_self_signed env [''localhost'', hostname]
            | _ \<Rightarrow> Inl ''--cert and --key must both be provided (or both omitted)'')
      of Inl e \<Rightarrow> Inl e
       | Inr (cert_der, key_der) \<Rightarrow>
           (case client_ca_path of
              None \<Rightarrow> acceptor_from_der env cert_der key_der
            | Some ca_path \<Rightarrow>
                (case te_read env ca_path of Inl e \<Rightarrow> Inl e | Inr pem \<Rightarrow>
                (case te_certs env pem of Inl e \<Rightarrow> Inl e | Inr ca_ders \<Rightarrow>
                 if ca_ders = [] then Inl (''no CA certificates found in '' @ ca_path)
                 else acceptor_from_der_mtls env cert_der key_der ca_ders))))"

text \<open>The base64 text of a certificate is cut into lines of 64 characters.\<close>

fun chunks64 :: "string \<Rightarrow> string list" where
  "chunks64 s = (if s = [] then [] else take 64 s # chunks64 (drop 64 s))"

declare chunks64.simps [simp del]

definition cert_to_pem :: "(string \<Rightarrow> string) \<Rightarrow> string \<Rightarrow> string" where
  "cert_to_pem b64_encode cert_der =
     ''-----BEGIN CERTIFICATE-----'' @ [CHR 0x0A] @ join_with [CHR 0x0A] (chunks64 (b64_encode cert_der)) @ [CHR 0x0A]
     @ ''-----END CERTIFICATE-----'' @ [CHR 0x0A]"

definition tls_hostname :: "string \<Rightarrow> string" where
  "tls_hostname addr = hd (split_on (CHR '':'') addr)"

subsection \<open>The options and the signal loop\<close>

record daemon_args =
  da_layers_dir :: string
  da_socket :: string
  da_socket_mode :: nat
  da_tls_addr :: "string option"
  da_cert :: "string option"
  da_key :: "string option"
  da_tls_client_ca :: "string option"
  da_reaper :: bool
  da_log_format :: string
  da_log_buffer :: nat

definition default_args :: daemon_args where
  "default_args = \<lparr> da_layers_dir = ''/etc/vigil/layers'', da_socket = ''/run/vigil/vigild.sock'', da_socket_mode = 384,
     da_tls_addr = None, da_cert = None, da_key = None, da_tls_client_ca = None, da_reaper = False,
     da_log_format = ''text'', da_log_buffer = 1000 \<rparr>"

datatype main_event = SigTerm | SigInt | SigQuit | SigHup | SigUsr1 | SigUsr2 | ApiAction "daemon_action option"

text \<open>The commands sent to the overlord, and whether to restart once the loop is left.\<close>

fun signal_loop :: "main_event list \<Rightarrow> ov_cmd list \<times> bool option" where
  "signal_loop [] = ([], None)"
| "signal_loop (SigTerm # es) = ([], Some False)"
| "signal_loop (SigInt # es) = ([], Some False)"
| "signal_loop (SigQuit # es) = ([], Some False)"
| "signal_loop (SigHup # es) = (case signal_loop es of (cmds, r) \<Rightarrow> (OvForwardSignal SIGHUP # cmds, r))"
| "signal_loop (SigUsr1 # es) = (case signal_loop es of (cmds, r) \<Rightarrow> (OvForwardSignal SIGUSR1 # cmds, r))"
| "signal_loop (SigUsr2 # es) = (case signal_loop es of (cmds, r) \<Rightarrow> (OvForwardSignal SIGUSR2 # cmds, r))"
| "signal_loop (ApiAction a # es) = ([], Some (a = Some DaemonRestart))"

datatype main_end = StillRunning | Exited | ReExecuted

definition async_main :: "main_event list \<Rightarrow> ov_cmd list \<times> main_end" where
  "async_main es =
     (case signal_loop es of
        (cmds, None) \<Rightarrow> (cmds, StillRunning)
      | (cmds, Some restart) \<Rightarrow> (cmds @ [OvShutdown], if restart then ReExecuted else Exited))"

end
