(* ===== verification/ServerProps.thy ===== *)
theory ServerProps
  imports Server
begin

text \<open>
  What the start-up guarantees: the control socket never shows with other permissions and nothing but
  a socket is ever replaced; a legacy private key is refused; the signal loop forwards and ends.
\<close>

subsection \<open>The temporary name\<close>

lemma file_name_join:
  assumes "CHR ''/'' \<notin> set x" and "x \<noteq> []" and "x \<noteq> ''.''" and "x \<noteq> ''..''"
  shows "path_file_name (path_join d x) = Some x"
proof -
  have "\<exists>ws. split_on (CHR ''/'') (path_join d x) = ws @ [x]"
  proof (cases "d = []")
    case True
    then show ?thesis using assms(1) by (auto simp: path_join_def split_on_id)
  next
    case False
    then obtain d' c where d: "d = d' @ [c]" by (metis rev_exhaust)
    show ?thesis
    proof (cases "c = CHR ''/''")
      case True
      then show ?thesis using split_on_snoc [OF assms(1), of d'] by (auto simp: path_join_def d)
    next
      case False
      then show ?thesis using split_on_snoc [OF assms(1), of d] by (auto simp: path_join_def d)
    qed
  qed
  then obtain ws where ws: "split_on (CHR ''/'') (path_join d x) = ws @ [x]" by blast
  then have "\<exists>us. path_components (path_join d x) = us @ [x]"
    using assms(2,3) by (auto simp: path_components_def Let_def)
  then show ?thesis using assms(3,4) by (auto simp: path_file_name_def)
qed

lemma file_name_plain: "path_file_name p = Some w \<Longrightarrow> CHR ''/'' \<notin> set w"
proof -
  assume "path_file_name p = Some w"
  then have "w \<in> set (path_components p)"
    by (auto simp: path_file_name_def split: list.splits if_splits)
  then show ?thesis by (auto simp: path_components_def Let_def dest: split_on_parts split: if_splits)
qed

lemma tmp_neq_path:
  assumes "path_file_name path = Some name"
  shows "tmp_path dir name pid \<noteq> path"
proof
  let ?x = "''.'' @ name @ ''.'' @ show_nat pid @ ''.tmp''"
  assume "tmp_path dir name pid = path"
  moreover have "CHR ''/'' \<notin> set (show_nat pid)" using show_nat_digits [of pid] by (auto simp: list_all_iff is_ascii_digit_def)
  then have "path_file_name (path_join dir ?x) = Some ?x"
    using file_name_plain [OF assms] by (intro file_name_join) (auto simp: append_eq_Cons_conv)
  ultimately have "?x = name" using assms by (simp add: tmp_path_def)
  then have "length ?x = length name" by metis
  then show False by simp
qed

subsection \<open>The control socket\<close>

text \<open>What \<open>create_dir_all\<close> does: it adds directories where nothing is.\<close>

definition adds_dirs :: "(string \<Rightarrow> file_system \<Rightarrow> file_system) \<Rightarrow> string \<Rightarrow> bool" where
  "adds_dirs mkdirs path \<longleftrightarrow>
     (\<forall>d fs p. mkdirs d fs p = fs p \<or> fs p = None \<and> mkdirs d fs p = Some OtherNode) \<and>
     (\<forall>fs. mkdirs (socket_dir path) fs path = fs path)"

lemma remove_stale_Inr:
  "remove_stale calls path fs = Inr fs1 \<Longrightarrow>
   fs1 = fs(path := None) \<and> (\<forall>n. fs path = Some n \<longrightarrow> (\<exists>m. n = SocketNode m))"
  by (auto simp: remove_stale_def fun_upd_idem split: option.splits fs_node.splits)

lemma bind_and_move_safe:
  assumes "bind_and_move calls mode path tmp fs = (fss, r)" and "path \<noteq> tmp" and "fs path = None"
  shows "(\<forall>g \<in> set fss. g path = None \<or> g path = Some (SocketNode mode)) \<and>
    (\<forall>g \<in> set fss. \<forall>p. p \<noteq> path \<longrightarrow> p \<noteq> tmp \<longrightarrow> g p = fs p) \<and> fss \<noteq> [] \<and>
    (r = Inr () \<longrightarrow> last fss path = Some (SocketNode mode) \<and> last fss tmp = None)"
proof -
  define g where "g = (case fs tmp of Some (SocketNode _) \<Rightarrow> if fc_remove_tmp calls = None then fs(tmp := None) else fs | _ \<Rightarrow> fs)"
  have g: "g path = None" "\<And>p. p \<noteq> path \<Longrightarrow> p \<noteq> tmp \<Longrightarrow> g p = fs p"
    using assms(2,3) by (auto simp: g_def split: option.splits fs_node.splits)
  from assms(1) show ?thesis
    unfolding bind_and_move_def Let_def g_def [symmetric] using g assms(2)
    by (auto split: option.splits if_splits)
qed

text \<open>
  C14. Binding the control socket is safe at every moment: whatever system call fails, at the socket's
  path there is at all times what was there before, nothing, or a socket with exactly the requested
  mode; anything but a socket is left alone and refused; no other existing file but the temporary
  one is touched; and a success leaves the socket in place and no temporary file.
\<close>

theorem bind_unix_safe:
  assumes "bind_unix calls mkdirs pid path mode fs0 = (trace, r)" and "adds_dirs mkdirs path"
  shows "(\<forall>fs \<in> set trace. fs path = fs0 path \<or> fs path = None \<or> fs path = Some (SocketNode mode)) \<and>
    (\<forall>n. fs0 path = Some n \<longrightarrow> (\<forall>m. n \<noteq> SocketNode m) \<longrightarrow> trace = [fs0] \<and> r \<noteq> Inr ()) \<and>
    (\<forall>name. path_file_name path = Some name \<longrightarrow>
       (\<forall>fs \<in> set trace. \<forall>p. p \<noteq> path \<longrightarrow> p \<noteq> tmp_path (socket_dir path) name pid \<longrightarrow> fs0 p \<noteq> None \<longrightarrow> fs p = fs0 p) \<and>
       (r = Inr () \<longrightarrow> last trace path = Some (SocketNode mode) \<and> last trace (tmp_path (socket_dir path) name pid) = None))"
proof (cases "remove_stale calls path fs0")
  case (Inl e)
  with assms(1) show ?thesis by (auto simp: bind_unix_def)
next
  case (Inr fs1)
  define fs2 where "fs2 = mkdirs (socket_dir path) fs1"
  from remove_stale_Inr [OF Inr] have keep1: "fs1 path = None" "\<And>p. p \<noteq> path \<Longrightarrow> fs1 p = fs0 p"
      "\<And>n. fs0 path = Some n \<Longrightarrow> \<exists>m. n = SocketNode m"
    by auto
  from assms(2) have dirs: "\<forall>d fs p. mkdirs d fs p = fs p \<or> fs p = None \<and> mkdirs d fs p = Some OtherNode"
      "\<forall>fs. mkdirs (socket_dir path) fs path = fs path"
    unfolding adds_dirs_def by (rule conjunct1, rule conjunct2)
  have m: "mkdirs d fs p = fs p \<or> fs p = None" for d fs p
    using dirs(1) [THEN spec, of d, THEN spec, of fs, THEN spec, of p] by (rule disjE) simp_all
  have keep2: "fs2 path = None" "fs0 p \<noteq> None \<Longrightarrow> p \<noteq> path \<Longrightarrow> fs2 p = fs0 p" for p
    using keep1 m [of "socket_dir path" fs1 p] spec [OF dirs(2), of fs1] by (auto simp: fs2_def)
  consider (short) e where "r = Inl e" "set trace \<subseteq> {fs0, fs1, fs2}"
    | (full) name fss where "path_file_name path = Some name" "trace = [fs0, fs1, fs2] @ fss"
        "bind_and_move calls mode path (tmp_path (socket_dir path) name pid) fs2 = (fss, r)"
    using assms(1) Inr by (auto simp: bind_unix_def Let_def fs2_def split: option.splits prod.splits)
  then show ?thesis
  proof cases
    case short
    with keep1 keep2 show ?thesis by auto
  next
    case full
    let ?tmp = "tmp_path (socket_dir path) name pid"
    have "path \<noteq> ?tmp" using tmp_neq_path [OF full(1)] by metis
    from bind_and_move_safe [OF full(3) this keep2(1)] full(1,2) keep1 keep2 show ?thesis by auto
  qed
qed

theorem bind_unix_safe_witness:
  "snd (bind_unix \<lparr> fc_inspect = None, fc_remove = None, fc_mkdir = None, fc_remove_tmp = None, fc_bind = None,
     fc_chmod = None, fc_rename = None, fc_listen = None, fc_new_mode = 493 \<rparr> (\<lambda>_ fs. fs) 7 ''/s'' 384 [''/s'' \<mapsto> OtherNode]) \<noteq> Inr ()"
proof -
  let ?c = "\<lparr> fc_inspect = None, fc_remove = None, fc_mkdir = None, fc_remove_tmp = None, fc_bind = None,
     fc_chmod = None, fc_rename = None, fc_listen = None, fc_new_mode = 493 \<rparr>"
  obtain trace r where b: "bind_unix ?c (\<lambda>_ fs. fs) 7 ''/s'' 384 [''/s'' \<mapsto> OtherNode] = (trace, r)" by fastforce
  moreover have "adds_dirs (\<lambda>_ fs. fs) ''/s''" by (simp add: adds_dirs_def)
  ultimately show ?thesis using bind_unix_safe by fastforce
qed

subsection \<open>Keys\<close>

text \<open>
  A private key in one of the legacy formats is refused although it is valid: its format is lost
  when it is read, it is handed on as PKCS#8, and where the library rejects it as such the start
  fails, even if it would accept the key in its own format.
\<close>

theorem legacy_key_refused:
  assumes "te_read env cert_path = Inr cert_pem" and "te_certs env cert_pem = Inr certs" and "certs \<noteq> []"
    and "te_read env key_path = Inr key_pem" and "te_private_key env key_pem = Inr (Some k)" and "k \<in> {Pkcs1 der, Sec1 der}"
    and "te_single_cert env certs k = None" and "te_single_cert env certs (Pkcs8 der) = Some e"
  shows "load_or_generate env (Some cert_path) (Some key_path) hostname None = Inl e"
  using assms by (auto simp: load_or_generate_def load_pem_def acceptor_from_der_def)

theorem legacy_key_refused_witness:
  "load_or_generate \<lparr> te_read = Inr, te_certs = (\<lambda>p. Inr [p]), te_private_key = (\<lambda>p. Inr (Some (Pkcs1 p))),
      te_self_signed = (\<lambda>_. Inl ''''), te_add_root = (\<lambda>rs c. Inr (c # rs)), te_verifier = (\<lambda>_. None),
      te_single_cert = (\<lambda>_ k. case k of Pkcs8 _ \<Rightarrow> Some ''bad key'' | _ \<Rightarrow> None) \<rparr> (Some ''c'') (Some ''k'') ''h'' None = Inl ''bad key''"
  by (rule legacy_key_refused [where cert_pem = "''c''" and certs = "[''c'']" and key_pem = "''k''" and k = "Pkcs1 ''k''"
        and der = "''k''"]) simp_all

lemma chunks64_concat: "concat (chunks64 s) = s"
  by (induction s rule: chunks64.induct) (simp add: chunks64.simps)

subsection \<open>Signals\<close>

fun forwarded_signal :: "main_event \<Rightarrow> signal option" where
  "forwarded_signal SigHup = Some SIGHUP"
| "forwarded_signal SigUsr1 = Some SIGUSR1"
| "forwarded_signal SigUsr2 = Some SIGUSR2"
| "forwarded_signal _ = None"

text \<open>
  The daemon's main task runs until the first terminating signal or request to stop: the signals
  before it are forwarded to the overlord in their order, then the shutdown is sent, once and last;
  and the daemon executes itself again exactly if it was asked to restart.
\<close>

theorem main_forwards_then_ends:
  assumes "\<forall>e \<in> set pre. forwarded_signal e \<noteq> None" and "forwarded_signal e = None"
  shows "async_main (pre @ e # post) =
    (map (\<lambda>e. OvForwardSignal (the (forwarded_signal e))) pre @ [OvShutdown],
     if e = ApiAction (Some DaemonRestart) then ReExecuted else Exited)"
proof -
  have "signal_loop (pre @ e # post) =
      (map (\<lambda>e. OvForwardSignal (the (forwarded_signal e))) pre, Some (e = ApiAction (Some DaemonRestart)))"
    using assms
  proof (induction pre)
    case Nil
    then show ?case by (cases e) auto
  next
    case (Cons x pre)
    then show ?case by (cases x) auto
  qed
  then show ?thesis by (simp add: async_main_def)
qed

theorem main_forwards_then_ends_witness:
  "async_main [SigHup, SigUsr1, ApiAction (Some DaemonRestart), SigTerm] =
     ([OvForwardSignal SIGHUP, OvForwardSignal SIGUSR1, OvShutdown], ReExecuted)"
  using main_forwards_then_ends [of "[SigHup, SigUsr1]" "ApiAction (Some DaemonRestart)" "[SigTerm]"] by simp

end
