(* ===== verification/Startup.thy ===== *)
theory Startup
  imports Server Reaper LoadPlan OverlordCmd
begin

text \<open>
  The start of the daemon: \<open>main\<close> and the first half of \<open>async_main\<close> (\<open>crates/vigild/src/main.rs\<close>),
  \<open>overlord::spawn\<close> (\<open>overlord/mod.rs\<close>) and the reaper's set-up (\<open>reaper.rs\<close>). Which system call
  fails is a field of \<open>startup_env\<close>; the stages reached are recorded, oldest first.
\<close>

subsection \<open>The reaper's set-up\<close>

definition is_pid1 :: "nat \<Rightarrow> bool" where
  "is_pid1 pid \<longleftrightarrow> pid = 1"

definition enable_subreaper :: "string option \<Rightarrow> string + unit" where
  "enable_subreaper prctl = (case prctl of Some e \<Rightarrow> Inl (''prctl PR_SET_CHILD_SUBREAPER: '' @ e) | None \<Rightarrow> Inr ())"

text \<open>The task wakes at each \<open>SIGCHLD\<close>, at the given time and with these results of \<open>waitpid\<close>.\<close>

fun reaper_task :: "(nat \<times> (wait_error + wait_status) list) list \<Rightarrow> reaped \<Rightarrow> reaped" where
  "reaper_task [] m = m"
| "reaper_task ((now, results) # wakes) m = reaper_task wakes (reap_children now results m)"

subsection \<open>The overlord's set-up\<close>

definition broadcast_capacity :: "nat \<Rightarrow> nat" where
  "broadcast_capacity log_buffer = max 64 (min 4096 (log_buffer div 2))"

record spawned =
  sp_daemon :: daemon
  sp_log_store :: log_store
  sp_broadcast :: nat
  sp_metrics :: metrics_store

definition overlord_spawn :: "ctx \<Rightarrow> string \<Rightarrow> string \<Rightarrow> string option \<Rightarrow> nat \<Rightarrow> load_error + spawned outcome" where
  "overlord_spawn cx boot_id http https log_buffer =
     (case load_plan (cx_layers cx) of
        Inl e \<Rightarrow> Inl e
      | Inr p \<Rightarrow> Inr
          (case overlord_new cx p boot_id http https of
             Finished ov \<Rightarrow> Finished \<lparr> sp_daemon = overlord_run cx ov, sp_log_store = log_store_new log_buffer,
               sp_broadcast = broadcast_capacity log_buffer, sp_metrics = metrics_new \<rparr>
           | Deadlocked \<Rightarrow> Deadlocked
           | OvPanicked \<Rightarrow> OvPanicked))"

subsection \<open>Starting\<close>

record startup_env =
  se_pid :: nat
  se_prctl :: "string option"
  se_runtime :: "string option"
  se_sigchld :: "string option"
  se_calls :: fs_calls
  se_mkdirs :: "string \<Rightarrow> file_system \<Rightarrow> file_system"
  se_files :: file_system
  se_ctx :: ctx
  se_layers :: "string \<Rightarrow> layer_fs"
  se_boot_id :: string
  se_tls :: tls_env
  se_signals :: "string option"

datatype stage =
    SubreaperOn
  | ReaperTask
  | SocketBound
  | OverlordTask daemon
  | UnixTask
  | TlsTask string tls_acceptor

datatype start_error =
    SubreaperFailed string
  | RuntimeFailed string
  | ReaperFailed string
  | BindFailed string
  | LayersFailed load_error
  | TlsFailed string
  | SignalsFailed string

datatype start_end = Started app_state | StartFailed start_error | StartPanicked

definition initial_state :: "spawned \<Rightarrow> app_state" where
  "initial_state sp = \<lparr> ap_overlord = sp_daemon sp, ap_log_store = sp_log_store sp, ap_identities = [],
     ap_metrics = sp_metrics sp, ap_shutdown = [] \<rparr>"

text \<open>From the spawned overlord on: the servers and the signal handlers.\<close>

definition start_servers :: "startup_env \<Rightarrow> daemon_args \<Rightarrow> spawned \<Rightarrow> stage list \<times> start_end" where
  "start_servers env args sp =
     (case (case da_tls_addr args of
              None \<Rightarrow> Inr []
            | Some addr \<Rightarrow>
                (case load_or_generate (se_tls env) (da_cert args) (da_key args) (tls_hostname addr) (da_tls_client_ca args) of
                   Inl e \<Rightarrow> Inl e
                 | Inr acceptor \<Rightarrow> Inr [TlsTask addr acceptor]))
      of Inl e \<Rightarrow> ([UnixTask], StartFailed (TlsFailed e))
       | Inr tls \<Rightarrow>
           (UnixTask # tls,
            case se_signals env of Some e \<Rightarrow> StartFailed (SignalsFailed e) | None \<Rightarrow> Started (initial_state sp)))"

definition start_async :: "startup_env \<Rightarrow> daemon_args \<Rightarrow> bool \<Rightarrow> stage list \<times> start_end" where
  "start_async env args use_reaper =
     (case (if use_reaper then se_sigchld env else None) of
        Some e \<Rightarrow> ([], StartFailed (ReaperFailed e))
      | None \<Rightarrow>
          let reaper = (if use_reaper then [ReaperTask] else []) in
          (case snd (bind_unix (se_calls env) (se_mkdirs env) (se_pid env) (da_socket args) (da_socket_mode args) (se_files env)) of
             Inl e \<Rightarrow> (reaper, StartFailed (BindFailed e))
           | Inr _ \<Rightarrow>
               (case overlord_spawn ((se_ctx env)\<lparr>cx_layers := se_layers env (da_layers_dir args)\<rparr>) (se_boot_id env)
                       (da_socket args) (da_tls_addr args) (da_log_buffer args) of
                  Inl e \<Rightarrow> (reaper @ [SocketBound], StartFailed (LayersFailed e))
                | Inr (Finished sp) \<Rightarrow>
                    (case start_servers env args sp of
                       (stages, r) \<Rightarrow> (reaper @ [SocketBound, OverlordTask (sp_daemon sp)] @ stages, r))
                | Inr _ \<Rightarrow> (reaper @ [SocketBound], StartPanicked))))"

text \<open>The daemon's own log: the filter, and whether it is written as JSON.\<close>

definition daemon_logging :: "bool \<Rightarrow> daemon_args \<Rightarrow> string option \<times> bool" where
  "daemon_logging rust_log args = (if rust_log then None else Some ''info'', da_log_format args = ''json'')"

definition daemon_main :: "startup_env \<Rightarrow> daemon_args \<Rightarrow> stage list \<times> start_end" where
  "daemon_main env args =
     (let use_reaper = da_reaper args \<or> is_pid1 (se_pid env) in
      case (if use_reaper \<and> \<not> is_pid1 (se_pid env) then enable_subreaper (se_prctl env) else Inr ()) of
        Inl e \<Rightarrow> ([], StartFailed (SubreaperFailed e))
      | Inr _ \<Rightarrow>
          let sub = (if use_reaper \<and> \<not> is_pid1 (se_pid env) then [SubreaperOn] else []) in
          (case se_runtime env of
             Some e \<Rightarrow> (sub, StartFailed (RuntimeFailed e))
           | None \<Rightarrow> (case start_async env args use_reaper of (stages, r) \<Rightarrow> (sub @ stages, r))))"

end
