(* ===== verification/StartupProps.thy ===== *)
theory StartupProps
  imports Startup ApiProps DaemonInv
begin

text \<open>
  What the start guarantees: nothing is started before the control socket is bound and the layers are
  read, a started daemon is in an initial state of its step relation, and a late failure (a bad TLS
  set-up) finds the services already running.
\<close>

fun late :: "start_error \<Rightarrow> bool" where
  "late (TlsFailed e) = True"
| "late (SignalsFailed e) = True"
| "late _ = False"

definition overlord_running :: "stage list \<Rightarrow> bool" where
  "overlord_running stages \<longleftrightarrow> (\<exists>d. OverlordTask d \<in> set stages)"

definition ends_well :: "stage list \<Rightarrow> start_end \<Rightarrow> bool" where
  "ends_well stages r \<longleftrightarrow>
     (case r of
        StartFailed e \<Rightarrow> overlord_running stages = late e
      | StartPanicked \<Rightarrow> \<not> overlord_running stages
      | Started s \<Rightarrow> OverlordTask (ap_overlord s) \<in> set stages \<and> UnixTask \<in> set stages \<and>
          daemon_init (ap_overlord s) \<and> ap_identities s = [])"

lemma servers_end:
  assumes "daemon_init (sp_daemon sp)" and "start_servers env args sp = (stages, r)"
  shows "ends_well (OverlordTask (sp_daemon sp) # stages) r"
  using assms
  by (auto simp: start_servers_def ends_well_def overlord_running_def initial_state_def split: option.splits sum.splits)

lemma overlord_spawn_init:
  assumes "overlord_spawn cx boot_id http https n = Inr (Finished sp)"
  shows "daemon_init (sp_daemon sp)"
proof -
  from assms obtain p ov where "load_plan (cx_layers cx) = Inr p" "overlord_new cx p boot_id http https = Finished ov"
      "sp_daemon sp = overlord_run cx ov"
    by (auto simp: overlord_spawn_def split: sum.splits outcome.splits)
  then show ?thesis unfolding daemon_init_def by blast
qed

fun bound_first :: "stage list \<Rightarrow> bool" where
  "bound_first [] = True"
| "bound_first (SocketBound # ss) = True"
| "bound_first (OverlordTask d # ss) = False"
| "bound_first (_ # ss) = bound_first ss"

lemma bound_first_before: "bound_first (pre @ OverlordTask d # post) \<Longrightarrow> SocketBound \<in> set pre"
  by (induction pre rule: bound_first.induct) simp_all

lemma ends_well_prefix: "\<not> overlord_running pre \<Longrightarrow> ends_well stages r \<Longrightarrow> ends_well (pre @ stages) r"
  by (auto simp: ends_well_def overlord_running_def split: start_end.splits)

lemma bound_first_none: "\<not> overlord_running stages \<Longrightarrow> bound_first stages"
  by (induction stages rule: bound_first.induct) (auto simp: overlord_running_def)

lemma bound_first_prefix: "\<not> overlord_running pre \<Longrightarrow> bound_first stages \<Longrightarrow> bound_first (pre @ stages)"
  by (induction pre rule: bound_first.induct) (auto simp: overlord_running_def)

lemma async_end:
  assumes "start_async env args use_reaper = (stages, r)"
  shows "ends_well stages r \<and> bound_first stages"
proof -
  let ?reaper = "if use_reaper then [ReaperTask] else []"
  have nr: "\<not> overlord_running ?reaper" by (simp add: overlord_running_def)
  consider (sigchld) e where "r = StartFailed (ReaperFailed e)" "stages = []"
    | (bind) e where "r = StartFailed (BindFailed e)" "stages = ?reaper"
    | (layers) e where "r = StartFailed (LayersFailed e)" "stages = ?reaper @ [SocketBound]"
    | (panic) "r = StartPanicked" "stages = ?reaper @ [SocketBound]"
    | (spawned) sp ss cx boot_id http https n where "overlord_spawn cx boot_id http https n = Inr (Finished sp)"
        "start_servers env args sp = (ss, r)" "stages = ?reaper @ [SocketBound, OverlordTask (sp_daemon sp)] @ ss"
    using assms
    by (auto simp: start_async_def Let_def split: if_splits option.splits sum.splits outcome.splits prod.splits)
  then show ?thesis
  proof cases
    case spawned
    have s: "ends_well (OverlordTask (sp_daemon sp) # ss) r" by (rule servers_end [OF overlord_spawn_init [OF spawned(1)] spawned(2)])
    have "\<not> overlord_running (?reaper @ [SocketBound])" by (simp add: overlord_running_def)
    from ends_well_prefix [OF this s] bound_first_prefix [OF nr, of "SocketBound # OverlordTask (sp_daemon sp) # ss"]
    show ?thesis by (simp only: spawned(3) append_assoc append_Cons append_Nil bound_first.simps)
  qed (simp_all add: overlord_running_def ends_well_def)
qed

text \<open>
  C16. However the start of the daemon ends: the overlord, and with it the services, is only started
  once the control socket is bound; every failure before that point (the reaper, the runtime, the
  socket, the layers, a queue of length 0) leaves no overlord behind, and the two failures that come
  later (the TLS set-up and the signal handlers) always find it running; and a start that succeeds
  serves from an initial state of the daemon, with no identities, so that every caller is admin.
\<close>

theorem startup_outcome:
  assumes "daemon_main env args = (stages, r)"
  shows "(\<forall>pre d post. stages = pre @ OverlordTask d # post \<longrightarrow> SocketBound \<in> set pre) \<and>
    (case r of
       StartFailed e \<Rightarrow> (\<exists>d. OverlordTask d \<in> set stages) = late e
     | StartPanicked \<Rightarrow> \<forall>d. OverlordTask d \<notin> set stages
     | Started s \<Rightarrow> OverlordTask (ap_overlord s) \<in> set stages \<and> UnixTask \<in> set stages \<and>
         reach daemon_init daemon_step (ap_overlord s) \<and>
         (\<forall>auth parts. caller_access auth (ap_identities s) parts = Admin))"
proof -
  let ?use = "da_reaper args \<or> is_pid1 (se_pid env)"
  let ?sub = "if ?use \<and> \<not> is_pid1 (se_pid env) then [SubreaperOn] else []"
  have ns: "\<not> overlord_running ?sub" by (simp add: overlord_running_def)
  consider e where "stages = []" "r = StartFailed (SubreaperFailed e)"
    | e where "stages = ?sub" "r = StartFailed (RuntimeFailed e)"
    | ss where "start_async env args ?use = (ss, r)" "stages = ?sub @ ss"
    using assms by (auto simp: daemon_main_def Let_def split: if_splits option.splits sum.splits prod.splits)
  then have "ends_well stages r \<and> bound_first stages"
  proof cases
    case (3 ss)
    with async_end [OF 3(1)] show ?thesis by (simp only: ends_well_prefix [OF ns] bound_first_prefix [OF ns])
  qed (use ns bound_first_none in \<open>simp_all add: ends_well_def overlord_running_def\<close>)
  then show ?thesis
    by (cases r) (auto simp: ends_well_def overlord_running_def caller_access_def identity_is_empty_def
        intro: reach_init bound_first_before)
qed

text \<open>A certificate without its key: the daemon ends with an error, its services started.\<close>

definition half_tls_env :: startup_env where
  "half_tls_env = \<lparr> se_pid = 7, se_prctl = None, se_runtime = None, se_sigchld = None,
     se_calls = \<lparr> fc_inspect = None, fc_remove = None, fc_mkdir = None, fc_remove_tmp = None, fc_bind = None,
       fc_chmod = None, fc_rename = None, fc_listen = None, fc_new_mode = 493 \<rparr>,
     se_mkdirs = (\<lambda>_ fs. fs), se_files = Map.empty, se_ctx = demo_cx, se_layers = (\<lambda>_. new_fs), se_boot_id = [],
     se_tls = \<lparr> te_read = Inr, te_certs = (\<lambda>p. Inr [p]), te_private_key = (\<lambda>p. Inr (Some (Pkcs8 p))),
       te_self_signed = (\<lambda>_. Inl []), te_add_root = (\<lambda>rs c. Inr (c # rs)), te_verifier = (\<lambda>_. None), te_single_cert = (\<lambda>_ _. None) \<rparr>,
     se_signals = None \<rparr>"

definition half_tls_args :: daemon_args where
  "half_tls_args = default_args\<lparr>da_tls_addr := Some ''0.0.0.0:8443'', da_cert := Some ''cert.pem''\<rparr>"

theorem startup_outcome_witness:
  "\<exists>stages e d. daemon_main half_tls_env half_tls_args = (stages, StartFailed (TlsFailed e)) \<and> OverlordTask d \<in> set stages"
proof -
  obtain p where p: "load_plan new_fs = Inr p" "plan_alert_queue_depth p = None"
    using load_new_fs by blast
  let ?cx = "demo_cx\<lparr>cx_layers := new_fs\<rparr>"
  have "\<exists>ov. overlord_new ?cx p [] (da_socket half_tls_args) (da_tls_addr half_tls_args) = Finished ov"
    using p(2) by (simp add: overlord_new_def alert_limits_def default_delivery_queue_def with_queue_limits_def)
  then obtain sp where sp: "overlord_spawn ?cx [] (da_socket half_tls_args) (da_tls_addr half_tls_args)
      (da_log_buffer half_tls_args) = Inr (Finished sp)"
    using p(1) by (auto simp: overlord_spawn_def)
  have bind: "snd (bind_unix (se_calls half_tls_env) (se_mkdirs half_tls_env) (se_pid half_tls_env) (da_socket half_tls_args)
      (da_socket_mode half_tls_args) (se_files half_tls_env)) = Inr ()"
    by (simp add: half_tls_env_def half_tls_args_def default_args_def bind_unix_def remove_stale_def bind_and_move_def
        path_file_name_def path_components_def Let_def split_on.simps)
  obtain stages e where m: "daemon_main half_tls_env half_tls_args = (stages, StartFailed (TlsFailed e))"
    using sp bind
    by (simp add: daemon_main_def start_async_def start_servers_def Let_def load_or_generate_def is_pid1_def
        half_tls_env_def half_tls_args_def default_args_def)
  with startup_outcome [OF m] show ?thesis by auto
qed

end
