(* ===== verification/Client.thy ===== *)
theory Client
  imports Api HttpClient
begin

text \<open>
  The command line client, \<open>crates/vigil/src\<close>: the requests of every call (\<open>client/mod.rs\<close>), the two
  transports with the check of the peer (\<open>client/transport\<close>), the settings of the HTTP client
  (\<open>client/http_client/mod.rs\<close>) and the transport of the command line. Sockets, TLS and the JSON
  codec are parameters; the daemon's router is here too, so that the two meet.
\<close>

subsection \<open>Requests\<close>

datatype http_method = GET | POST | DELETE

text \<open>A body is JSON; its content is kept as the value that was encoded.\<close>

datatype payload =
    NoPayload
  | NullPayload
  | ServicesActionPayload service_action "string list"
  | DaemonActionPayload daemon_action
  | IdentitiesPayload "(string \<times> identity_spec) list"
  | NamesPayload "string list"

record client_request =
  cr_method :: http_method
  cr_path :: string
  cr_payload :: payload

definition names_query :: "string list \<Rightarrow> string" where
  "names_query names = (if names = [] then [] else ''?names='' @ join_with '','' names)"

definition logs_query :: "string list \<Rightarrow> nat option \<Rightarrow> string" where
  "logs_query services n =
     (let params = (if services \<noteq> [] then [''services='' @ join_with '','' services] else [])
                   @ (case n of Some k \<Rightarrow> [''n='' @ show_nat k] | None \<Rightarrow> [])
      in if params = [] then [] else ''?'' @ join_with ''&'' params)"

definition follow_path :: "string list \<Rightarrow> string" where
  "follow_path services = (if services = [] then ''/v1/logs/follow''
     else ''/v1/logs/follow?services='' @ join_with '','' services)"

datatype client_call =
    CallSystemInfo
  | CallListServices "string list"
  | CallServicesAction service_action "string list"
  | CallListChecks "string list"
  | CallListAlerts "string list"
  | CallListLogs "string list" "nat option"
  | CallFollowLogs "string list"
  | CallReplan
  | CallDaemonAction daemon_action
  | CallListIdentities "string list"
  | CallAddIdentities "(string \<times> identity_spec) list"
  | CallRemoveIdentities "string list"

fun client_request_of :: "client_call \<Rightarrow> client_request" where
  "client_request_of CallSystemInfo = \<lparr> cr_method = GET, cr_path = ''/v1/system-info'', cr_payload = NoPayload \<rparr>"
| "client_request_of (CallListServices names) =
     \<lparr> cr_method = GET, cr_path = ''/v1/services'' @ names_query names, cr_payload = NoPayload \<rparr>"
| "client_request_of (CallServicesAction action services) =
     \<lparr> cr_method = POST, cr_path = ''/v1/services'', cr_payload = ServicesActionPayload action services \<rparr>"
| "client_request_of (CallListChecks names) =
     \<lparr> cr_method = GET, cr_path = ''/v1/checks'' @ names_query names, cr_payload = NoPayload \<rparr>"
| "client_request_of (CallListAlerts names) =
     \<lparr> cr_method = GET, cr_path = ''/v1/alerts'' @ names_query names, cr_payload = NoPayload \<rparr>"
| "client_request_of (CallListLogs services n) =
     \<lparr> cr_method = GET, cr_path = ''/v1/logs'' @ logs_query services n, cr_payload = NoPayload \<rparr>"
| "client_request_of (CallFollowLogs services) =
     \<lparr> cr_method = GET, cr_path = follow_path services, cr_payload = NoPayload \<rparr>"
| "client_request_of CallReplan = \<lparr> cr_method = POST, cr_path = ''/v1/replan'', cr_payload = NullPayload \<rparr>"
| "client_request_of (CallDaemonAction action) =
     \<lparr> cr_method = POST, cr_path = ''/v1/vigild'', cr_payload = DaemonActionPayload action \<rparr>"
| "client_request_of (CallListIdentities names) =
     \<lparr> cr_method = GET, cr_path = ''/v1/identities'' @ names_query names, cr_payload = NoPayload \<rparr>"
| "client_request_of (CallAddIdentities ids) =
     \<lparr> cr_method = POST, cr_path = ''/v1/identities'', cr_payload = IdentitiesPayload ids \<rparr>"
| "client_request_of (CallRemoveIdentities names) =
     \<lparr> cr_method = DELETE, cr_path = ''/v1/identities'', cr_payload = NamesPayload names \<rparr>"

subsection \<open>The daemon's router\<close>

text \<open>
  The routes of \<open>api::router\<close>. \<open>query\<close> is the framework's decoding of a query string into its pairs,
  \<open>number\<close> that of an unsigned number; a value that does not decode is refused before the endpoint.
\<close>

definition split_path :: "string \<Rightarrow> string \<times> string" where
  "split_path p = (case split_once (CHR ''?'') p of Some (a, q) \<Rightarrow> (a, q) | None \<Rightarrow> (p, []))"

definition router_request :: "(string \<Rightarrow> (string \<times> string) list) \<Rightarrow> (string \<Rightarrow> nat option) \<Rightarrow> (string \<Rightarrow> log_format option) \<Rightarrow>
    client_request \<Rightarrow> api_request option" where
  "router_request query number format r =
     (case split_path (cr_path r) of (path, q) \<Rightarrow>
      let names = map_of (query q) ''names''; services = map_of (query q) ''services'' in
      case cr_method r of
        GET \<Rightarrow>
          if path = ''/v1/system-info'' then Some GetSystemInfo
          else if path = ''/v1/metrics'' then Some GetMetrics
          else if path = ''/v1/services'' then Some (ListServices names)
          else if starts_with path ''/v1/changes/'' then Some (GetChange (drop 12 path))
          else if path = ''/v1/checks'' then Some (ListChecks names)
          else if path = ''/v1/alerts'' then Some (ListAlerts names)
          else if path = ''/v1/logs'' then
            (case map_of (query q) ''n'' of
               None \<Rightarrow> Some (GetLogs services None)
             | Some s \<Rightarrow> (case number s of Some k \<Rightarrow> Some (GetLogs services (Some k)) | None \<Rightarrow> None))
          else if path = ''/v1/logs/follow'' then
            (case map_of (query q) ''format'' of
               None \<Rightarrow> Some (FollowLogs services None)
             | Some s \<Rightarrow> (case format s of Some f \<Rightarrow> Some (FollowLogs services (Some f)) | None \<Rightarrow> None))
          else if path = ''/v1/identities'' then Some (ListIdentities names)
          else None
      | POST \<Rightarrow>
          (case cr_payload r of
             ServicesActionPayload a ss \<Rightarrow> if path = ''/v1/services'' then Some (PostServices a ss) else None
           | DaemonActionPayload a \<Rightarrow> if path = ''/v1/vigild'' then Some (PostVigild a) else None
           | IdentitiesPayload is \<Rightarrow> if path = ''/v1/identities'' then Some (AddIdentities is) else None
           | _ \<Rightarrow> if path = ''/v1/replan'' then Some PostReplan else None)
      | DELETE \<Rightarrow>
          (case cr_payload r of
             NamesPayload ns \<Rightarrow> if path = ''/v1/identities'' then Some (RemoveIdentities ns) else None
           | _ \<Rightarrow> None))"

subsection \<open>Transports\<close>

definition peer_allowed :: "u32 \<Rightarrow> u32 \<Rightarrow> u32 option \<Rightarrow> bool" where
  "peer_allowed peer me trusted_uid \<longleftrightarrow> peer = 0 \<or> peer = me \<or> Some peer = trusted_uid"

definition check_peer :: "(string + u32) \<Rightarrow> u32 \<Rightarrow> u32 option \<Rightarrow> string + unit" where
  "check_peer peer_cred me trusted_uid =
     (case peer_cred of
        Inl e \<Rightarrow> Inl e
      | Inr peer \<Rightarrow> if peer_allowed peer me trusted_uid then Inr () else Inl ''permission denied'')"

record unix_connector =
  uc_path :: string
  uc_trusted_uid :: "u32 option"

text \<open>A new connection: it is given to the HTTP layer only after its peer was checked.\<close>

definition connector_call :: "(string \<Rightarrow> string + (string + u32)) \<Rightarrow> u32 \<Rightarrow> unix_connector \<Rightarrow> string + unit" where
  "connector_call connect me c =
     (case connect (uc_path c) of Inl e \<Rightarrow> Inl e | Inr cred \<Rightarrow> check_peer cred me (uc_trusted_uid c))"

text \<open>The HTTP client as it is configured.\<close>

record http_config =
  hg_insecure :: bool
  hg_user :: "string option"
  hg_cert :: "string option"
  hg_key :: "string option"
  hg_cacert :: "string option"
  hg_proxy :: "string option"
  hg_proxy_cacert :: "string option"
  hg_no_proxy :: "string option"

record vigil_http =
  vh_accept_invalid :: bool
  vh_authorization :: "string option"
  vh_identity :: "string option"
  vh_roots :: "string list"
  vh_proxy :: "(string \<times> string list) option"

record client_lib =
  lib_b64_encode :: "string \<Rightarrow> string"
  lib_header :: "string \<Rightarrow> string option"
  lib_identity :: "string \<Rightarrow> string + string"
  lib_bundle :: "string \<Rightarrow> string + string list"
  lib_build :: "vigil_http \<Rightarrow> string option"

definition basic_header :: "client_lib \<Rightarrow> string option \<Rightarrow> string + string option" where
  "basic_header lib user =
     (case user of
        None \<Rightarrow> Inr None
      | Some user_pass \<Rightarrow>
          (case split_once (CHR '':'') user_pass of
             None \<Rightarrow> Inl (''--user must be username:password, got: '' @ user_pass)
           | Some (u, p) \<Rightarrow>
               let v = ''Basic '' @ lib_b64_encode lib (u @ '':'' @ p)
               in case lib_header lib v of Some e \<Rightarrow> Inl e | None \<Rightarrow> Inr (Some v)))"

definition client_identity :: "host_env \<Rightarrow> client_lib \<Rightarrow> string option \<Rightarrow> string option \<Rightarrow> string + string option" where
  "client_identity env lib cert key =
     (case cert of
        None \<Rightarrow> if key \<noteq> None then Inl ''--key requires --cert to also be set'' else Inr None
      | Some c \<Rightarrow>
          (case key of
             None \<Rightarrow> Inl ''--cert requires --key to also be set''
           | Some k \<Rightarrow>
               (case he_read_file env c of Inl e \<Rightarrow> Inl e | Inr pem \<Rightarrow>
               (case he_read_file env k of Inl e \<Rightarrow> Inl e | Inr key_pem \<Rightarrow>
               (case lib_identity lib (pem @ key_pem) of Inl e \<Rightarrow> Inl e | Inr i \<Rightarrow> Inr (Some i))))))"

definition bundle_of :: "host_env \<Rightarrow> client_lib \<Rightarrow> string option \<Rightarrow> string + string list" where
  "bundle_of env lib path =
     (case path of
        None \<Rightarrow> Inr []
      | Some p \<Rightarrow> (case he_read_file env p of Inl e \<Rightarrow> Inl e | Inr pem \<Rightarrow> lib_bundle lib pem))"

definition build_reqwest_client :: "host_env \<Rightarrow> client_lib \<Rightarrow> http_config \<Rightarrow> string + vigil_http" where
  "build_reqwest_client env lib cfg =
     (case basic_header lib (hg_user cfg) of Inl e \<Rightarrow> Inl e | Inr auth \<Rightarrow>
     (case client_identity env lib (hg_cert cfg) (hg_key cfg) of Inl e \<Rightarrow> Inl e | Inr ident \<Rightarrow>
     (case bundle_of env lib (hg_cacert cfg) of Inl e \<Rightarrow> Inl e | Inr roots \<Rightarrow>
     (case bundle_of env lib (hg_proxy_cacert cfg) of Inl e \<Rightarrow> Inl e | Inr proxy_roots \<Rightarrow>
     (case (case (case hg_proxy cfg of Some p \<Rightarrow> Some p | None \<Rightarrow> first_nonempty (he_getenv env) proxy_vars) of
              None \<Rightarrow> Inr None
            | Some u \<Rightarrow> (case he_parse_url env u of
                          Inl e \<Rightarrow> Inl e
                        | Inr uri \<Rightarrow> Inr (Some (uri, parse_no_proxy (hg_no_proxy cfg)))))
      of Inl e \<Rightarrow> Inl e | Inr proxy \<Rightarrow>
        let b = \<lparr> vh_accept_invalid = hg_insecure cfg, vh_authorization = auth, vh_identity = ident,
                  vh_roots = roots @ proxy_roots, vh_proxy = proxy \<rparr>
        in case lib_build lib b of Some e \<Rightarrow> Inl e | None \<Rightarrow> Inr b)))))"

definition client_proxy_for :: "vigil_http \<Rightarrow> string \<Rightarrow> string option" where
  "client_proxy_for c host =
     (case vh_proxy c of
        None \<Rightarrow> None
      | Some (uri, entries) \<Rightarrow> if no_proxy_matches host entries then None else Some uri)"

datatype transport = UnixTransport unix_connector | HttpTransport vigil_http string

definition trim_end_slashes :: "string \<Rightarrow> string" where
  "trim_end_slashes s = rev (dropWhile (\<lambda>c. c = CHR ''/'') (rev s))"

definition new_http :: "host_env \<Rightarrow> client_lib \<Rightarrow> string \<Rightarrow> http_config \<Rightarrow> string + transport" where
  "new_http env lib base_url cfg =
     (case build_reqwest_client env lib cfg of
        Inl e \<Rightarrow> Inl e
      | Inr c \<Rightarrow> Inr (HttpTransport c (trim_end_slashes base_url)))"

definition new_unix_trusting :: "string \<Rightarrow> u32 option \<Rightarrow> transport" where
  "new_unix_trusting socket_path trusted_uid = UnixTransport \<lparr> uc_path = socket_path, uc_trusted_uid = trusted_uid \<rparr>"

text \<open>
  The address of a request. Its text is parsed by the HTTP library of the transport (\<open>hyper::Uri\<close> or
  \<open>reqwest\<close>'s URL), which refuses some texts, such as a blank over the socket, and so fails the call;
  otherwise the result is the path and query that are sent.
\<close>

definition unix_uri :: "(string \<Rightarrow> string + string) \<Rightarrow> string \<Rightarrow> string + string" where
  "unix_uri parse path = parse (''http://localhost'' @ path)"

fun request_url :: "(string \<Rightarrow> string + string) \<Rightarrow> (string \<Rightarrow> string + string) \<Rightarrow> transport \<Rightarrow> string \<Rightarrow> string + string" where
  "request_url parse_uri parse_url (UnixTransport c) path = unix_uri parse_uri path"
| "request_url parse_uri parse_url (HttpTransport c base_url) path = parse_url (base_url @ path)"

text \<open>Reading a reply; \<open>parse\<close> decodes the envelope.\<close>

definition status_ok :: "nat \<Rightarrow> bool" where
  "status_ok s \<longleftrightarrow> 200 \<le> s \<and> s < 300"

text \<open>A status as it is printed, with its canonical reason (a table of the http library).\<close>

definition status_text :: "(nat \<Rightarrow> string option) \<Rightarrow> nat \<Rightarrow> string" where
  "status_text reason status =
     show_nat status @ '' '' @ (case reason status of Some r \<Rightarrow> r | None \<Rightarrow> ''<unknown status code>'')"

definition parse_reply :: "(nat \<Rightarrow> string option) \<Rightarrow> (string \<Rightarrow> string + envelope) \<Rightarrow> nat \<Rightarrow> string \<Rightarrow> string + api_body" where
  "parse_reply reason parse status body =
     (case parse body of
        Inl e \<Rightarrow> Inl (''invalid response (HTTP '' @ status_text reason status @ ''): '' @ e)
      | Inr env \<Rightarrow>
          (case en_result env of
             Some b \<Rightarrow> Inr b
           | None \<Rightarrow> Inl (case en_message env of Some m \<Rightarrow> m | None \<Rightarrow> [])))"

definition parse_void :: "(nat \<Rightarrow> string option) \<Rightarrow> (string \<Rightarrow> string + envelope) \<Rightarrow> nat \<Rightarrow> string \<Rightarrow> string + unit" where
  "parse_void reason parse status body =
     (if status_ok status then Inr ()
      else (case parse body of
              Inl e \<Rightarrow> Inl (''invalid response (HTTP '' @ status_text reason status @ ''): '' @ e)
            | Inr env \<Rightarrow> Inl (case en_message env of Some m \<Rightarrow> m | None \<Rightarrow> ''HTTP '' @ status_text reason status)))"

text \<open>Which reader a call uses: \<open>post_void\<close> or one of \<open>get\<close>, \<open>post\<close> and \<open>delete\<close>.\<close>

fun void_call :: "client_call \<Rightarrow> bool" where
  "void_call CallReplan = True"
| "void_call (CallDaemonAction action) = True"
| "void_call (CallAddIdentities ids) = True"
| "void_call _ = False"

definition client_reads :: "(nat \<Rightarrow> string option) \<Rightarrow> (string \<Rightarrow> string + envelope) \<Rightarrow> client_call \<Rightarrow> nat \<Rightarrow> string \<Rightarrow> string + api_body" where
  "client_reads reason parse call status body =
     (if void_call call then (case parse_void reason parse status body of Inl e \<Rightarrow> Inl e | Inr _ \<Rightarrow> Inr BodyNone)
      else parse_reply reason parse status body)"

subsection \<open>Following logs\<close>

definition trim_end_returns :: "string \<Rightarrow> string" where
  "trim_end_returns s = rev (dropWhile (\<lambda>c. c = CHR 0x0D) (rev s))"

definition sse_entry :: "(string \<Rightarrow> log_entry option) \<Rightarrow> string \<Rightarrow> log_entry list" where
  "sse_entry parse line =
     (case strip_prefix ''data:'' (trim_end_returns line) of
        None \<Rightarrow> []
      | Some data \<Rightarrow> (case parse (trim data) of Some e \<Rightarrow> [e] | None \<Rightarrow> []))"

text \<open>The entries printed, and what stays in the buffer.\<close>

function drain_sse_buf :: "(string \<Rightarrow> log_entry option) \<Rightarrow> string \<Rightarrow> log_entry list \<times> string" where
  "drain_sse_buf parse buf =
     (case split_once (CHR 0x0A) buf of
        None \<Rightarrow> ([], buf)
      | Some (line, rest) \<Rightarrow>
          (case drain_sse_buf parse rest of (es, b) \<Rightarrow> (sse_entry parse line @ es, b)))"
  by pat_completeness auto

termination
  by (relation "measure (\<lambda>(_, b). length b)") (auto dest: split_once_SomeD)

declare drain_sse_buf.simps [simp del]

text \<open>\<open>lossy\<close> decodes one chunk of the body by itself.\<close>

fun follow_chunks :: "(string \<Rightarrow> log_entry option) \<Rightarrow> (string \<Rightarrow> string) \<Rightarrow> string list \<Rightarrow> string \<Rightarrow> log_entry list \<times> string" where
  "follow_chunks parse lossy [] buf = ([], buf)"
| "follow_chunks parse lossy (c # cs) buf =
     (case drain_sse_buf parse (buf @ lossy c) of (es, b) \<Rightarrow>
      (case follow_chunks parse lossy cs b of (es', b') \<Rightarrow> (es @ es', b')))"

subsection \<open>The command line\<close>

record vigil_args =
  va_socket :: string
  va_socket_uid :: "u32 option"
  va_url :: "string option"
  va_http :: http_config

text \<open>The transport of the command line: a URL wins over the socket.\<close>

definition transport_of :: "host_env \<Rightarrow> client_lib \<Rightarrow> vigil_args \<Rightarrow> string + transport" where
  "transport_of env lib args =
     (case va_url args of
        Some url \<Rightarrow> new_http env lib url (va_http args)
      | None \<Rightarrow> Inr (new_unix_trusting (va_socket args) (va_socket_uid args)))"

end
