(* ===== verification/ClientCmds.thy ===== *)
theory ClientCmds
  imports Client
begin

text \<open>
  The commands of the command line (\<open>crates/vigil/src/main.rs\<close>, \<open>crates/vigil/src/cmd\<close>): the calls
  they make and what they print. Date formatting is a parameter; padding counts bytes, which are
  the characters of the ASCII names the program uses.
\<close>

subsection \<open>Names of values\<close>

text \<open>The derived \<open>Debug\<close> texts in lower case.\<close>

fun change_status_name :: "change_status \<Rightarrow> string" where
  "change_status_name Doing = ''doing''"
| "change_status_name Done = ''done''"
| "change_status_name ChangeError = ''error''"
| "change_status_name Hold = ''hold''"

text \<open>Standard output and standard error.\<close>

definition print_change :: "change_info \<Rightarrow> string list \<times> string list" where
  "print_change c =
     ([''Change '' @ ch_id c @ '' ['' @ change_status_name (ch_status c) @ '']: '' @ ch_summary c],
      case ch_err c of Some e \<Rightarrow> [''error: '' @ e] | None \<Rightarrow> [])"

definition overall_status :: "alert_info \<Rightarrow> string" where
  "overall_status a =
     (if list_ex (\<lambda>cs. acs_status cs = Some Down) (ai_check_status a) then ''down''
      else if list_all (\<lambda>cs. acs_status cs = None) (ai_check_status a) then ''unknown''
      else ''up'')"

definition next_run :: "nat option \<Rightarrow> string" where
  "next_run n =
     (case n of
        None \<Rightarrow> ''pending''
      | Some s \<Rightarrow>
          if s < 60 then show_nat s @ ''s''
          else if s < 3600 then show_nat (s div 60) @ ''m '' @ show_nat (s mod 60) @ ''s''
          else show_nat (s div 3600) @ ''h '' @ show_nat (s mod 3600 div 60) @ ''m'')"

definition auth_column :: "identity \<Rightarrow> string" where
  "auth_column i =
     (case id_local i of
        Some l \<Rightarrow> (case li_user_id l of
                     Some uid \<Rightarrow> ''local(uid='' @ show_nat (unat uid) @ '')''
                   | None \<Rightarrow> ''local(any)'')
      | None \<Rightarrow> (case id_tls i of Some _ \<Rightarrow> ''tls'' | None \<Rightarrow> ''-''))"

definition parse_access :: "string \<Rightarrow> string + identity_access" where
  "parse_access s =
     (if s = ''metrics'' then Inr Metrics
      else if s = ''read'' then Inr Read
      else if s = ''write'' then Inr Write
      else if s = ''admin'' then Inr Admin
      else Inl (''unknown access level '' @ s @ '': use metrics, read, write, or admin''))"

definition uptime_text :: "nat \<Rightarrow> string" where
  "uptime_text s = show_nat (s div 86400) @ ''d '' @ show_nat (s mod 86400 div 3600) @ ''h ''
     @ show_nat (s mod 3600 div 60) @ ''m '' @ show_nat (s mod 60) @ ''s''"

fun startup_name :: "startup \<Rightarrow> string" where
  "startup_name Disabled = ''disabled''"
| "startup_name Enabled = ''enabled''"

fun service_status_name :: "service_status \<Rightarrow> string" where
  "service_status_name StatusActive = ''active''"
| "service_status_name StatusInactive = ''inactive''"
| "service_status_name StatusBackoff = ''backoff''"
| "service_status_name StatusError = ''error''"

fun alert_format_name :: "alert_format \<Rightarrow> string" where
  "alert_format_name Webhook = ''webhook''"
| "alert_format_name Alertmanager = ''alertmanager''"
| "alert_format_name CloudEvents = ''cloudevents''"
| "alert_format_name OtlpLogs = ''otlplogs''"

fun check_level_name :: "check_level \<Rightarrow> string" where
  "check_level_name Alive = ''alive''"
| "check_level_name Ready = ''ready''"

fun check_status_name :: "check_status \<Rightarrow> string" where
  "check_status_name Up = ''up''"
| "check_status_name Down = ''down''"

fun access_name :: "identity_access \<Rightarrow> string" where
  "access_name Open = ''open''"
| "access_name Metrics = ''metrics''"
| "access_name Read = ''read''"
| "access_name Write = ''write''"
| "access_name Admin = ''admin''"

fun stream_name :: "log_stream \<Rightarrow> string" where
  "stream_name Stdout = ''stdout''"
| "stream_name Stderr = ''stderr''"

subsection \<open>Calls\<close>

text \<open>The commands, as the calls they make.\<close>

datatype vigil_cmd =
    AlertsList "string list"
  | ChecksList "string list"
  | IdentitiesList "string list"
  | IdentitiesAddLocal string string "u32 option"
  | IdentitiesRemove "string list"
  | LogsCmd "string list" "nat option" bool
  | ReplanCmd
  | ServicesList "string list"
  | ServicesStart "string list"
  | ServicesStop "string list"
  | ServicesRestart "string list"
  | SystemInfoCmd
  | VigildStatus
  | VigildStop
  | VigildRestart

fun calls_of :: "vigil_cmd \<Rightarrow> string + client_call list" where
  "calls_of (AlertsList names) = Inr [CallListAlerts names]"
| "calls_of (ChecksList names) = Inr [CallListChecks names]"
| "calls_of (IdentitiesList names) = Inr [CallListIdentities names]"
| "calls_of (IdentitiesAddLocal name access uid) =
     (case parse_access access of
        Inl e \<Rightarrow> Inl e
      | Inr a \<Rightarrow> Inr [CallAddIdentities
          [(name, \<lparr> is_access = a, is_local = Some \<lparr> li_user_id = uid \<rparr>, is_basic = None, is_tls = None \<rparr>)]])"
| "calls_of (IdentitiesRemove names) = Inr [CallRemoveIdentities names]"
| "calls_of (LogsCmd services n follow) =
     Inr (CallListLogs services n # (if follow then [CallFollowLogs services] else []))"
| "calls_of ReplanCmd = Inr [CallReplan]"
| "calls_of (ServicesList names) = Inr [CallListServices names]"
| "calls_of (ServicesStart names) = Inr [CallServicesAction ActStart names]"
| "calls_of (ServicesStop names) = Inr [CallServicesAction ActStop names]"
| "calls_of (ServicesRestart names) = Inr [CallServicesAction ActRestart names]"
| "calls_of SystemInfoCmd = Inr [CallSystemInfo]"
| "calls_of VigildStatus = Inr [CallSystemInfo]"
| "calls_of VigildStop = Inr [CallDaemonAction DaemonStop]"
| "calls_of VigildRestart = Inr [CallDaemonAction DaemonRestart]"

subsection \<open>Output\<close>

record cmd_output =
  co_stdout :: "string list"
  co_stderr :: "string list"
  co_result :: "string + unit"

definition printed :: "string list \<Rightarrow> cmd_output" where
  "printed ls = \<lparr> co_stdout = ls, co_stderr = [], co_result = Inr () \<rparr>"

definition failed :: "string \<Rightarrow> cmd_output" where
  "failed e = \<lparr> co_stdout = [], co_stderr = [], co_result = Inl e \<rparr>"

text \<open>A row of columns: each is padded to its width, with a blank between two.\<close>

definition pad :: "nat \<Rightarrow> string \<Rightarrow> string" where
  "pad n s = s @ replicate (n - length s) CHR '' ''"

definition table_row :: "(nat \<times> string) list \<Rightarrow> string" where
  "table_row cols = join_with '' '' (map (\<lambda>(n, s). pad n s) cols)"

definition alerts_output :: "alert_info list \<Rightarrow> string list" where
  "alerts_output as =
     (if as = [] then [''No alerts.'']
      else table_row [(24, ''Alert''), (14, ''Format''), (8, ''Status''), (0, ''Checks'')] # replicate 70 CHR ''-''
        # map (\<lambda>a. table_row [(24, ai_name a), (14, alert_format_name (ai_format a)), (8, overall_status a),
            (0, join_with '', '' (ai_on_check a))]) as)"

definition checks_output :: "check_info list \<Rightarrow> string list" where
  "checks_output cs =
     (if cs = [] then [''No checks.'']
      else table_row [(24, ''Check''), (8, ''Level''), (6, ''Status''), (10, ''Failures''), (0, ''Next run'')] # replicate 68 CHR ''-''
        # map (\<lambda>c. table_row [(24, ci_name c), (8, check_level_name (ci_level c)), (6, check_status_name (ci_status c)),
            (10, show_nat (unat (ci_failures c)) @ ''/'' @ show_nat (unat (ci_threshold c))), (0, next_run (ci_next_run_in_secs c))]) cs)"

definition identities_output :: "identity list \<Rightarrow> string list" where
  "identities_output is =
     (if is = [] then [''No identities.'']
      else table_row [(24, ''Name''), (8, ''Access''), (12, ''Auth'')] # replicate 46 CHR ''-''
        # map (\<lambda>i. table_row [(24, id_name i), (8, access_name (id_access i)), (0, auth_column i)]) is)"

definition removed_output :: "string list \<Rightarrow> string list" where
  "removed_output removed = [if removed = [] then ''No identities removed.'' else ''Removed: '' @ join_with '', '' removed]"

definition services_output :: "service_info list \<Rightarrow> string list" where
  "services_output ss =
     (if ss = [] then [''No services.'']
      else table_row [(24, ''Service''), (10, ''Startup''), (10, ''Status''), (18, ''On-Success''), (18, ''On-Failure''),
          (10, ''Stop-Signal'')] # replicate 92 CHR ''-''
        # map (\<lambda>s. table_row [(24, si_name s), (10, startup_name (si_startup s)), (10, service_status_name (si_current s)),
            (18, si_on_success s), (18, si_on_failure s), (10, si_stop_signal s)]) ss)"

definition entry_line :: "(datetime \<Rightarrow> string) \<Rightarrow> log_entry \<Rightarrow> string" where
  "entry_line fmt e = fmt (le_timestamp e) @ '' ['' @ le_service e @ ''] ['' @ stream_name (le_stream e) @ ''] '' @ le_message e"

definition addresses :: "system_info \<Rightarrow> string list" where
  "addresses i = (''http-address: '' @ sys_http_address i)
     # (case sys_https_address i of Some a \<Rightarrow> [''https-address: '' @ a] | None \<Rightarrow> [])"

definition system_info_output :: "system_info \<Rightarrow> string list" where
  "system_info_output i = [''version:      '' @ sys_version i, ''boot-id:      '' @ sys_boot_id i] @ addresses i"

text \<open>A start in the future counts as no uptime.\<close>

definition uptime_secs :: "datetime \<Rightarrow> datetime \<Rightarrow> nat" where
  "uptime_secs now start = nat (max 0 (now - start)) div 1000000000"

definition vigild_status_output :: "datetime \<Rightarrow> system_info \<Rightarrow> string list" where
  "vigild_status_output now i = [''version:      '' @ sys_version i, ''boot-id:      '' @ sys_boot_id i,
     ''uptime:       '' @ uptime_text (uptime_secs now (sys_start_time i))] @ addresses i"

definition change_output :: "change_info \<Rightarrow> cmd_output" where
  "change_output c = (case print_change c of (out, err) \<Rightarrow> \<lparr> co_stdout = out, co_stderr = err, co_result = Inr () \<rparr>)"

text \<open>A result of the wrong type does not decode.\<close>

definition mismatch :: cmd_output where
  "mismatch = failed ''invalid response''"

fun show_reply :: "(datetime \<Rightarrow> string) \<Rightarrow> datetime \<Rightarrow> vigil_cmd \<Rightarrow> api_body \<Rightarrow> cmd_output" where
  "show_reply fmt now (AlertsList names) b = (case b of BodyAlerts as \<Rightarrow> printed (alerts_output as) | _ \<Rightarrow> mismatch)"
| "show_reply fmt now (ChecksList names) b = (case b of BodyChecks cs \<Rightarrow> printed (checks_output cs) | _ \<Rightarrow> mismatch)"
| "show_reply fmt now (IdentitiesList names) b = (case b of BodyIdentities is \<Rightarrow> printed (identities_output is) | _ \<Rightarrow> mismatch)"
| "show_reply fmt now (IdentitiesAddLocal name access uid) b =
     printed [''Identity '' @ [CHR 0x27] @ name @ [CHR 0x27] @ '' added.'']"
| "show_reply fmt now (IdentitiesRemove names) b = (case b of BodyNames removed \<Rightarrow> printed (removed_output removed) | _ \<Rightarrow> mismatch)"
| "show_reply fmt now (LogsCmd services n follow) b =
     (case b of
        BodyLogs es \<Rightarrow> printed (if es = [] \<and> \<not> follow then [''No log entries.''] else map (entry_line fmt) es)
      | _ \<Rightarrow> mismatch)"
| "show_reply fmt now ReplanCmd b = printed [''Replan completed.'']"
| "show_reply fmt now (ServicesList names) b = (case b of BodyServices ss \<Rightarrow> printed (services_output ss) | _ \<Rightarrow> mismatch)"
| "show_reply fmt now (ServicesStart names) b = (case b of BodyChange c \<Rightarrow> change_output c | _ \<Rightarrow> mismatch)"
| "show_reply fmt now (ServicesStop names) b = (case b of BodyChange c \<Rightarrow> change_output c | _ \<Rightarrow> mismatch)"
| "show_reply fmt now (ServicesRestart names) b = (case b of BodyChange c \<Rightarrow> change_output c | _ \<Rightarrow> mismatch)"
| "show_reply fmt now SystemInfoCmd b = (case b of BodySystem i \<Rightarrow> printed (system_info_output i) | _ \<Rightarrow> mismatch)"
| "show_reply fmt now VigildStatus b = (case b of BodySystem i \<Rightarrow> printed (vigild_status_output now i) | _ \<Rightarrow> mismatch)"
| "show_reply fmt now VigildStop b = printed [''Daemon stop initiated.'']"
| "show_reply fmt now VigildRestart b = printed [''Daemon restart initiated.'']"

text \<open>
  A command against a daemon: \<open>exchange\<close> is one call with its reply (None: no reply ever comes),
  \<open>follow\<close> the entries of a followed log and how following ended.
\<close>

definition run_command :: "(datetime \<Rightarrow> string) \<Rightarrow> datetime \<Rightarrow> (string list \<Rightarrow> log_entry list \<times> (string + unit)) \<Rightarrow>
    (client_call \<Rightarrow> 's \<Rightarrow> (string + api_body) option \<times> 's) \<Rightarrow> vigil_cmd \<Rightarrow> 's \<Rightarrow> cmd_output option \<times> 's" where
  "run_command fmt now follow exchange cmd s =
     (case calls_of cmd of
        Inl e \<Rightarrow> (Some (failed e), s)
      | Inr calls \<Rightarrow>
          (case exchange (hd calls) s of
             (None, s') \<Rightarrow> (None, s')
           | (Some (Inl e), s') \<Rightarrow> (Some (failed e), s')
           | (Some (Inr b), s') \<Rightarrow>
               let out = show_reply fmt now cmd b in
               (case tl calls of
                  CallFollowLogs services # _ \<Rightarrow>
                    (if co_result out = Inr () then
                       (case follow services of (es, r) \<Rightarrow>
                          (Some (out\<lparr>co_stdout := co_stdout out @ map (entry_line fmt) es, co_result := r\<rparr>), s'))
                     else (Some out, s'))
                | _ \<Rightarrow> (Some out, s'))))"

end
