(* ===== verification/ClientProps.thy ===== *)
theory ClientProps
  imports ClientCmds ApiProps
begin

text \<open>
  What the client guarantees: its requests mean to the daemon what they mean to it, replies come back
  as they were sent, only trusted listeners are talked to, and following does not depend on how the
  body is cut into chunks.
\<close>

subsection \<open>Following\<close>

lemma drain_none: "CHR 0x0A \<notin> set buf \<Longrightarrow> drain_sse_buf parse buf = ([], buf)"
  by (simp add: drain_sse_buf.simps split_once_None [THEN iffD2])

lemma drain_line: "CHR 0x0A \<notin> set line \<Longrightarrow> drain_sse_buf parse (line @ CHR 0x0A # rest) =
    (case drain_sse_buf parse rest of (es, b) \<Rightarrow> (sse_entry parse line @ es, b))"
  by (subst drain_sse_buf.simps) (simp add: split_once_append)

lemma drain_append:
  "drain_sse_buf parse x = (es, b) \<Longrightarrow> drain_sse_buf parse (x @ y) = (case drain_sse_buf parse (b @ y) of (es', b') \<Rightarrow> (es @ es', b'))"
proof (induction parse x arbitrary: es rule: drain_sse_buf.induct)
  case (1 parse x)
  show ?case
  proof (cases "split_once (CHR 0x0A) x")
    case None
    then have "CHR 0x0A \<notin> set x" by (simp add: split_once_None)
    with 1(2) have "es = []" "b = x" by (simp_all add: drain_none)
    then show ?thesis by simp
  next
    case (Some p)
    then obtain line rest where p: "p = (line, rest)" "x = line @ CHR 0x0A # rest" "CHR 0x0A \<notin> set line"
      by (cases p) (auto dest: split_once_SomeD)
    obtain es1 b1 where r: "drain_sse_buf parse rest = (es1, b1)" by (cases "drain_sse_buf parse rest")
    with 1(2) p have es: "es = sse_entry parse line @ es1" "b = b1" by (simp_all add: drain_line)
    from 1(1) [OF Some p(1) [symmetric], of es1] r es(2) p(2,3) es(1) show ?thesis by (simp add: drain_line split: prod.splits)
  qed
qed

lemma drain_rest: "CHR 0x0A \<notin> set (snd (drain_sse_buf parse x))"
proof (induction parse x rule: drain_sse_buf.induct)
  case (1 parse x)
  show ?case
  proof (cases "split_once (CHR 0x0A) x")
    case None
    then show ?thesis by (simp add: split_once_None drain_none)
  next
    case (Some p)
    obtain line rest where "p = (line, rest)" by (cases p)
    with 1 [OF Some] Some show ?thesis
      by (cases "drain_sse_buf parse rest") (simp add: drain_sse_buf.simps [of parse x])
  qed
qed

lemma follow_chunks_drain:
  "CHR 0x0A \<notin> set buf \<Longrightarrow> follow_chunks parse lossy cs buf = drain_sse_buf parse (buf @ concat (map lossy cs))"
proof (induction cs arbitrary: buf)
  case Nil
  then show ?case by (simp add: drain_none)
next
  case (Cons c cs)
  obtain es b where d: "drain_sse_buf parse (buf @ lossy c) = (es, b)" by (cases "drain_sse_buf parse (buf @ lossy c)")
  from drain_rest [of parse "buf @ lossy c"] d have "CHR 0x0A \<notin> set b" by simp
  from Cons.IH [OF this] d show ?case using drain_append [OF d, of "concat (map lossy cs)"] by simp
qed

text \<open>
  What a followed log prints does not depend on how the transport cuts the body into chunks: all
  chunks together print the entries of the decoded text, and keep its last unfinished line. The
  chunks are decoded one by one, so this is the decoded body unless a chunk ends inside a character.
\<close>

theorem follow_ignores_chunks:
  "follow_chunks parse lossy chunks [] = drain_sse_buf parse (concat (map lossy chunks))"
  using follow_chunks_drain [of "[]"] by simp

subsection \<open>Requests\<close>

definition plain_text :: "string \<Rightarrow> bool" where
  "plain_text s \<longleftrightarrow> set s \<inter> {CHR ''&'', CHR ''='', CHR ''%'', CHR ''+'', CHR ''#''} = {}"

text \<open>The query decoder: pairs of plain texts are read back as they were written.\<close>

definition reads_queries :: "(string \<Rightarrow> (string \<times> string) list) \<Rightarrow> bool" where
  "reads_queries query \<longleftrightarrow> query [] = [] \<and>
     (\<forall>ps. ps \<noteq> [] \<longrightarrow> (\<forall>(k, v) \<in> set ps. plain_text k \<and> plain_text v) \<longrightarrow>
        query (join_with ''&'' (map (\<lambda>(k, v). k @ ''='' @ v) ps)) = ps)"

text \<open>Characters that stand for themselves in the path and query of an address.\<close>

definition uri_char :: "char \<Rightarrow> bool" where
  "uri_char c \<longleftrightarrow> c \<in> set ''-._~:@/?&=,'' \<or>
     (let k = of_char c :: nat in 48 \<le> k \<and> k \<le> 57 \<or> 65 \<le> k \<and> k \<le> 90 \<or> 97 \<le> k \<and> k \<le> 122)"

definition clean_name :: "string \<Rightarrow> bool" where
  "clean_name n \<longleftrightarrow> n \<noteq> [] \<and> trim n = n \<and> CHR '','' \<notin> set n \<and> plain_text n \<and> list_all uri_char n"

lemma split_on_join:
  "ws \<noteq> [] \<Longrightarrow> \<forall>w \<in> set ws. d \<notin> set w \<Longrightarrow> split_on d (join_with [d] ws) = ws"
proof (induction ws)
  case (Cons w ws)
  then show ?case by (cases ws) (simp_all add: split_on_id split_on_append)
qed simp

lemma comma_list_join: "\<forall>n \<in> set names. clean_name n \<Longrightarrow>
    comma_list (if names = [] then None else Some (join_with '','' names)) = names"
proof (cases "names = []")
  case False
  assume clean: "\<forall>n \<in> set names. clean_name n"
  then have "split_on (CHR '','') (join_with '','' names) = names"
    using False by (intro split_on_join) (auto simp: clean_name_def)
  moreover have "map trim names = names" "filter (\<lambda>n. n \<noteq> []) names = names"
    using clean by (auto simp: clean_name_def intro: map_idI)
  ultimately show ?thesis using False by (simp add: comma_list_def)
qed (simp add: comma_list_def trim_def)

lemma plain_join: "\<forall>n \<in> set names. clean_name n \<Longrightarrow> plain_text (join_with '','' names)"
proof (induction names)
  case (Cons w ws)
  then show ?case by (cases ws) (auto simp: clean_name_def plain_text_def)
qed (simp add: plain_text_def)

lemma plain_number: "plain_text (show_nat n)"
  using show_nat_digits [of n] by (auto simp: plain_text_def list_all_iff is_ascii_digit_def)

lemma split_path_plain: "CHR ''?'' \<notin> set p \<Longrightarrow> split_path p = (p, [])"
  by (simp add: split_path_def split_once_None [THEN iffD2])

lemma split_path_query: "CHR ''?'' \<notin> set p \<Longrightarrow> split_path (p @ CHR ''?'' # q) = (p, q)"
  by (simp add: split_path_def split_once_append)

definition names_part :: "string list \<Rightarrow> string" where
  "names_part names = (if names = [] then [] else ''names='' @ join_with '','' names)"

lemma split_names_query: "CHR ''?'' \<notin> set p \<Longrightarrow> split_path (p @ names_query names) = (p, names_part names)"
  using split_path_query [of p "''names='' @ join_with '','' names"] by (simp add: names_query_def names_part_def split_path_plain)

lemma query_pairs:
  assumes "reads_queries query" and "ps \<noteq> []" and "\<forall>(k, v) \<in> set ps. plain_text k \<and> plain_text v"
  shows "query (join_with ''&'' (map (\<lambda>(k, v). k @ ''='' @ v) ps)) = ps"
  using assms unfolding reads_queries_def by blast

lemma query_names:
  assumes "reads_queries query" and "\<forall>n \<in> set names. clean_name n"
  shows "query (names_part names) = (if names = [] then [] else [(''names'', join_with '','' names)])"
  using query_pairs [OF assms(1), of "[(''names'', join_with '','' names)]"] plain_join [OF assms(2)] assms(1)
  by (simp add: plain_text_def reads_queries_def names_part_def)

text \<open>What a call means: the endpoint, with the names it is about.\<close>

fun asks_for :: "client_call \<Rightarrow> api_request \<Rightarrow> bool" where
  "asks_for CallSystemInfo r = (r = GetSystemInfo)"
| "asks_for (CallListServices names) r = (\<exists>q. r = ListServices q \<and> parse_names q = names)"
| "asks_for (CallServicesAction action services) r = (r = PostServices action services)"
| "asks_for (CallListChecks names) r = (\<exists>q. r = ListChecks q \<and> parse_names q = names)"
| "asks_for (CallListAlerts names) r = (\<exists>q. r = ListAlerts q \<and> parse_names q = names)"
| "asks_for (CallListLogs services n) r = (\<exists>q. r = GetLogs q n \<and> parse_services q = services)"
| "asks_for (CallFollowLogs services) r = (\<exists>q. r = FollowLogs q None \<and> parse_services q = services)"
| "asks_for CallReplan r = (r = PostReplan)"
| "asks_for (CallDaemonAction action) r = (r = PostVigild action)"
| "asks_for (CallListIdentities names) r = (\<exists>q. r = ListIdentities q \<and> parse_names q = names)"
| "asks_for (CallAddIdentities ids) r = (r = AddIdentities ids)"
| "asks_for (CallRemoveIdentities names) r = (r = RemoveIdentities names)"

fun names_of :: "client_call \<Rightarrow> string list" where
  "names_of (CallListServices names) = names"
| "names_of (CallListChecks names) = names"
| "names_of (CallListAlerts names) = names"
| "names_of (CallListLogs names n) = names"
| "names_of (CallFollowLogs names) = names"
| "names_of (CallListIdentities names) = names"
| "names_of _ = []"

lemma names_found:
  assumes "reads_queries query" and "\<forall>n \<in> set names. clean_name n"
  shows "parse_names (map_of (query (names_part names)) ''names'') = names"
  using comma_list_join [OF assms(2)] unfolding query_names [OF assms] parse_names_def by (cases "names = []") simp_all

definition logs_pairs :: "string list \<Rightarrow> nat option \<Rightarrow> (string \<times> string) list" where
  "logs_pairs services n = (if services \<noteq> [] then [(''services'', join_with '','' services)] else [])
     @ (case n of Some k \<Rightarrow> [(''n'', show_nat k)] | None \<Rightarrow> [])"

lemma logs_found:
  assumes "reads_queries query" and "\<forall>s \<in> set services. clean_name s"
  shows "\<exists>q. split_path (''/v1/logs'' @ logs_query services n) = (''/v1/logs'', q) \<and> query q = logs_pairs services n"
proof (cases "logs_pairs services n = []")
  case True
  then have "logs_query services n = []" by (auto simp: logs_query_def logs_pairs_def Let_def split: option.splits if_splits)
  with True assms(1) show ?thesis by (simp add: split_path_plain reads_queries_def)
next
  case False
  have "logs_query services n = CHR ''?'' # join_with ''&'' (map (\<lambda>(k, v). k @ ''='' @ v) (logs_pairs services n))"
    using False by (auto simp: logs_query_def logs_pairs_def Let_def split: option.splits if_splits)
  moreover have "\<forall>(k, v) \<in> set (logs_pairs services n). plain_text k \<and> plain_text v"
    using plain_join [OF assms(2)] plain_number by (auto simp: logs_pairs_def plain_text_def split: option.splits if_splits)
  ultimately show ?thesis
    using query_pairs [OF assms(1) False] split_path_query [of "''/v1/logs''"] by simp
qed

lemma client_call_routed:
  assumes "reads_queries query" and "\<forall>n \<in> set (names_of call). clean_name n" and "\<And>k. number (show_nat k) = Some k"
  shows "\<exists>r. router_request query number format (client_request_of call) = Some r \<and> asks_for call r"
proof (cases call)
  case (CallListLogs services n)
  with assms(2) have clean: "\<forall>s \<in> set services. clean_name s" by simp
  obtain q where q: "split_path (''/v1/logs'' @ logs_query services n) = (''/v1/logs'', q)" "query q = logs_pairs services n"
    using logs_found [OF assms(1) clean] by blast
  have "parse_services (map_of (logs_pairs services n) ''services'') = services"
    using comma_list_join [OF clean] by (cases n; cases "services = []") (simp_all add: logs_pairs_def parse_services_def)
  moreover have "map_of (logs_pairs services n) ''n'' = map_option show_nat n" by (cases n) (simp_all add: logs_pairs_def)
  ultimately show ?thesis
    using CallListLogs q assms(3) by (cases n) (simp_all add: router_request_def Let_def)
next
  case (CallFollowLogs services)
  with assms(2) have clean: "\<forall>s \<in> set services. clean_name s" by simp
  have "\<exists>q. split_path (follow_path services) = (''/v1/logs/follow'', q) \<and>
      query q = (if services = [] then [] else [(''services'', join_with '','' services)])"
    using query_pairs [OF assms(1), of "[(''services'', join_with '','' services)]"] plain_join [OF clean] assms(1)
      split_path_query [of "''/v1/logs/follow''" "''services='' @ join_with '','' services"]
    by (simp add: follow_path_def split_path_plain reads_queries_def plain_text_def)
  then show ?thesis
    using CallFollowLogs comma_list_join [OF clean] by (auto simp: router_request_def parse_services_def)
qed (use assms(2) names_found [OF assms(1)] split_names_query [of "''/v1/services''"] split_names_query [of "''/v1/checks''"]
    split_names_query [of "''/v1/alerts''"] split_names_query [of "''/v1/identities''"] in
    \<open>simp_all add: router_request_def split_path_plain Let_def\<close>)

text \<open>
  The address of a call with clean names is made of such characters, and its path has no dots that a
  library could resolve.
\<close>

definition plain_path :: "string \<Rightarrow> bool" where
  "plain_path p \<longleftrightarrow> (\<exists>q. p = CHR ''/'' # q) \<and> CHR ''.'' \<notin> set (fst (split_path p)) \<and> list_all uri_char p"

lemma uri_join: "list_all uri_char d \<Longrightarrow> \<forall>w \<in> set ws. list_all uri_char w \<Longrightarrow> list_all uri_char (join_with d ws)"
  by (induction d ws rule: join_with.induct) auto

lemma uri_names:
  assumes "\<forall>n \<in> set names. clean_name n"
  shows "list_all uri_char (join_with '','' names)"
proof (rule uri_join)
  show "list_all uri_char '',''" by (simp add: uri_char_def)
  show "\<forall>n \<in> set names. list_all uri_char n" using assms by (simp add: clean_name_def)
qed

lemma uri_number: "list_all uri_char (show_nat n)"
  using show_nat_digits [of n] by (auto simp: list_all_iff is_ascii_digit_def uri_char_def Let_def)

lemma uri_names_query: "\<forall>n \<in> set names. clean_name n \<Longrightarrow> list_all uri_char (names_query names)"
  using uri_names [of names] by (simp add: names_query_def uri_char_def)

lemma uri_logs_query: "\<forall>n \<in> set services. clean_name n \<Longrightarrow> list_all uri_char (logs_query services n)"
  using uri_names [of services] uri_number by (cases n) (simp_all add: logs_query_def uri_char_def)

lemma uri_follow_path: "\<forall>n \<in> set services. clean_name n \<Longrightarrow> list_all uri_char (follow_path services)"
  using uri_names [of services] by (simp add: follow_path_def uri_char_def)

lemma path_part:
  assumes "CHR ''?'' \<notin> set p" and "q = [] \<or> (\<exists>r. q = CHR ''?'' # r)"
  shows "fst (split_path (p @ q)) = p"
  using assms by (auto simp: split_path_plain split_path_query)

lemma names_query_starts: "names_query names = [] \<or> (\<exists>r. names_query names = CHR ''?'' # r)"
  by (simp add: names_query_def)

lemma logs_query_starts: "logs_query services n = [] \<or> (\<exists>r. logs_query services n = CHR ''?'' # r)"
  by (simp add: logs_query_def Let_def)

lemma call_path_part: "CHR ''.'' \<notin> set (fst (split_path (cr_path (client_request_of call))))"
proof (cases call)
  case (CallFollowLogs services)
  then show ?thesis
    using path_part [of "''/v1/logs/follow''" "''?services='' @ join_with '','' services"]
    by (simp add: follow_path_def split_path_plain)
qed (use path_part [OF _ names_query_starts, of "''/v1/services''"] path_part [OF _ names_query_starts, of "''/v1/checks''"]
    path_part [OF _ names_query_starts, of "''/v1/alerts''"] path_part [OF _ names_query_starts, of "''/v1/identities''"]
    path_part [OF _ logs_query_starts, of "''/v1/logs''"] in \<open>simp_all add: split_path_plain\<close>)

lemma call_plain_path:
  assumes "\<forall>n \<in> set (names_of call). clean_name n"
  shows "plain_path (cr_path (client_request_of call))"
proof -
  have "list_all uri_char (cr_path (client_request_of call))"
    using assms by (cases call) (simp_all add: uri_names_query uri_logs_query uri_follow_path uri_char_def)
  moreover have "\<exists>q. cr_path (client_request_of call) = CHR ''/'' # q"
    by (cases call) (simp_all add: follow_path_def)
  ultimately show ?thesis using call_path_part by (simp add: plain_path_def)
qed

lemma no_blank: "list_all uri_char p \<Longrightarrow> CHR '' '' \<notin> set p"
proof -
  have "\<not> uri_char (CHR '' '')" by (simp add: uri_char_def)
  then show "list_all uri_char p \<Longrightarrow> CHR '' '' \<notin> set p" by (auto simp: list_all_iff)
qed

text \<open>A decoder that meets the requirement on plain queries.\<close>

definition sample_query :: "string \<Rightarrow> (string \<times> string) list" where
  "sample_query q = (if q = [] then [] else map (\<lambda>p. the (split_once (CHR ''='') p)) (split_on (CHR ''&'') q))"

lemma sample_query_join:
  assumes "ps \<noteq> []" and "\<forall>(k, v) \<in> set ps. plain_text k \<and> plain_text v" and pairs: "ws = map (\<lambda>(k, v). k @ ''='' @ v) ps"
  shows "sample_query (join_with ''&'' ws) = ps"
proof -
  have clean: "CHR ''&'' \<notin> set w" if "w \<in> set ws" for w using assms(2) that by (auto simp: plain_text_def pairs)
  then have split: "split_on (CHR ''&'') (join_with ''&'' ws) = ws" using assms(1) by (intro split_on_join) (auto simp: pairs)
  have "the (split_once (CHR ''='') (k @ ''='' @ v)) = (k, v)" if "(k, v) \<in> set ps" for k v
    using assms(2) that split_once_append [of "CHR ''=''" k v] by (auto simp: plain_text_def)
  then have cut: "map (\<lambda>p. the (split_once (CHR ''='') p)) ws = ps" unfolding pairs map_map by (intro map_idI) auto
  have "ws \<noteq> [[]]" by (cases ps; cases "tl ps") (auto simp: pairs)
  then have "join_with ''&'' ws \<noteq> []" using split by (metis split_on.simps(1))
  with split cut show ?thesis by (simp add: sample_query_def)
qed

lemma sample_query_reads: "reads_queries sample_query"
  unfolding reads_queries_def using sample_query_join by (simp add: sample_query_def)

subsection \<open>Replies\<close>

fun http_status :: "api_response \<Rightarrow> nat" where
  "http_status (ApiOk b) = 200"
| "http_status (ApiFailed code msg) = code"

text \<open>
  What the JSON decoder makes of an encoded envelope: the envelope, but for a result that is JSON's
  \<open>null\<close> (a void endpoint's), which is read as no result.
\<close>

definition decoded :: "envelope \<Rightarrow> envelope" where
  "decoded e = (if en_result e = Some BodyNone then e\<lparr>en_result := None\<rparr> else e)"

text \<open>What the caller should see of an answer of the daemon.\<close>

fun seen :: "client_call \<Rightarrow> api_response \<Rightarrow> string + api_body" where
  "seen call (ApiOk b) = (if void_call call then Inr BodyNone else if b = BodyNone then Inl [] else Inr b)"
| "seen call (ApiFailed code msg) = Inl msg"

lemma client_reads_answer:
  assumes "parse body = Inr (decoded (envelope_of reason resp))" and "\<And>code msg. resp = ApiFailed code msg \<Longrightarrow> \<not> status_ok code"
  shows "client_reads reason parse call (http_status resp) body = seen call resp"
  using assms
  by (cases resp) (auto simp: client_reads_def parse_reply_def parse_void_def envelope_of_def decoded_def status_ok_def)

text \<open>Every failure of an endpoint has a status that is none of success.\<close>

definition honest :: "api_response option \<times> app_state \<Rightarrow> bool" where
  "honest r \<longleftrightarrow> (\<forall>code msg. fst r = Some (ApiFailed code msg) \<longrightarrow> \<not> status_ok code)"

lemma honest_forbidden: "honest (Some forbidden, s)"
  by (simp add: honest_def forbidden_def status_ok_def)

lemma honest_ok: "honest (Some (ApiOk b), s)"
  by (simp add: honest_def)

lemma honest_via_overlord:
  assumes "\<And>r code msg. finish r = ApiFailed code msg \<Longrightarrow> \<not> status_ok code"
  shows "honest (via_overlord cx cmd finish s)"
  using assms by (auto simp: honest_def via_overlord_def internal_error_def status_ok_def split: prod.splits option.splits sum.splits)

lemma honest_requiring: "(\<And>s. honest (f s)) \<Longrightarrow> honest (requiring caller needed f s)"
  by (simp add: requiring_def honest_forbidden split: sum.splits)

lemma honest_route: "honest (route env caller r s)"
proof (cases r)
  case (PostVigild a)
  then show ?thesis by (simp add: daemon_action_def honest_def requiring_def forbidden_def status_ok_def split: sum.splits)
next
  case (RemoveIdentities names)
  then show ?thesis
    by (simp add: remove_identities_def honest_def requiring_def forbidden_def status_ok_def split: sum.splits prod.splits)
qed (auto simp: endpoint_defs honest_ok internal_error_def not_found_def status_ok_def
    intro!: honest_requiring honest_via_overlord split: ov_reply.splits list.splits sum.splits)

text \<open>What the wire and the libraries on both ends make of a call.\<close>

record wire =
  wi_transport :: transport
  wi_parse_uri :: "string \<Rightarrow> string + string"
  wi_parse_url :: "string \<Rightarrow> string + string"
  wi_query :: "string \<Rightarrow> (string \<times> string) list"
  wi_number :: "string \<Rightarrow> nat option"
  wi_format :: "string \<Rightarrow> log_format option"
  wi_to_json :: "envelope \<Rightarrow> string"
  wi_parse :: "string \<Rightarrow> string + envelope"
  wi_reason :: "nat \<Rightarrow> string option"

definition wire_target :: "wire \<Rightarrow> string \<Rightarrow> string + string" where
  "wire_target w = request_url (wi_parse_uri w) (wi_parse_url w) (wi_transport w)"

text \<open>
  A call, from the client through the router to the endpoint and back; an address that does not parse
  fails it at once.
\<close>

definition exchange_with :: "wire \<Rightarrow> api_env \<Rightarrow> request_parts \<Rightarrow> client_call \<Rightarrow> app_state \<Rightarrow> (string + api_body) option \<times> app_state" where
  "exchange_with w env parts call s =
     (case wire_target w (cr_path (client_request_of call)) of
        Inl e \<Rightarrow> (Some (Inl e), s)
      | Inr target \<Rightarrow>
          (case router_request (wi_query w) (wi_number w) (wi_format w) ((client_request_of call)\<lparr>cr_path := target\<rparr>) of
             None \<Rightarrow> (Some (client_reads (wi_reason w) (wi_parse w) call 404 []), s)
           | Some r \<Rightarrow>
               (case serve env parts r s of
                  (None, s') \<Rightarrow> (None, s')
                | (Some resp, s') \<Rightarrow>
                    (Some (client_reads (wi_reason w) (wi_parse w) call (http_status resp) (wi_to_json w (envelope_of (wi_reason w) resp))), s'))))"

text \<open>
  C13. A call of the client is the endpoint's own result. With names that are made of letters, digits
  and the marks that stand for themselves in an address, and hold none that separates names or
  fields of a query, a call (but following a log) reaches the endpoint it means with the names and
  numbers it was given, and the caller sees what the endpoint answered, a result as the result and
  an error as its message; a void endpoint succeeds exactly when the daemon did. This needs a
  transport whose library sends such an address as it is, decoders that read back what was written,
  and nothing else of the daemon's state. For other names (a blank over the socket) the address may
  not parse: then the call fails with that error and nothing reaches the daemon.
\<close>

theorem client_sees_answer:
  assumes "reads_queries (wi_query w)" and "\<And>k. wi_number w (show_nat k) = Some k"
    and "\<And>p. plain_path p \<Longrightarrow> wire_target w p = Inr p"
    and decodes: "\<And>r resp. asks_for call r \<Longrightarrow> fst (serve env parts r s) = Some resp \<Longrightarrow>
      wi_parse w (wi_to_json w (envelope_of (wi_reason w) resp)) = Inr (decoded (envelope_of (wi_reason w) resp))"
  shows "((\<forall>n \<in> set (names_of call). clean_name n) \<longrightarrow>
      (\<exists>r. asks_for call r \<and>
        exchange_with w env parts call s = (map_option (seen call) (fst (serve env parts r s)), snd (serve env parts r s)))) \<and>
    (\<forall>e. wire_target w (cr_path (client_request_of call)) = Inl e \<longrightarrow> exchange_with w env parts call s = (Some (Inl e), s))"
proof (intro conjI impI)
  assume clean: "\<forall>n \<in> set (names_of call). clean_name n"
  have target: "wire_target w (cr_path (client_request_of call)) = Inr (cr_path (client_request_of call))"
    by (rule assms(3) [OF call_plain_path [OF clean]])
  obtain r where r: "router_request (wi_query w) (wi_number w) (wi_format w) (client_request_of call) = Some r" "asks_for call r"
    using client_call_routed [of "wi_query w" call "wi_number w" "wi_format w"] assms(1,2) clean by blast
  have "\<not> status_ok code" if "fst (serve env parts r s) = Some (ApiFailed code msg)" for code msg
    using that honest_route unfolding serve_def honest_def by blast
  with r(1) decodes [OF r(2)] have "exchange_with w env parts call s =
      (map_option (seen call) (fst (serve env parts r s)), snd (serve env parts r s))"
    by (cases "serve env parts r s"; cases "fst (serve env parts r s)")
      (auto simp: exchange_with_def target client_reads_answer split: option.splits)
  with r(2) show "\<exists>r. asks_for call r \<and>
      exchange_with w env parts call s = (map_option (seen call) (fst (serve env parts r s)), snd (serve env parts r s))"
    by blast
qed (simp add: exchange_with_def)

text \<open>The last line of one service, from a daemon that has ended and so has only its logs left.\<close>

definition demo_line :: log_entry where
  "demo_line = \<lparr> le_timestamp = 1, le_service = ''web'', le_stream = Stdout, le_message = ''up'' \<rparr>"

definition logs_left :: app_state where
  "logs_left = \<lparr> ap_overlord = Dead, ap_log_store = push_entry demo_line (log_store_new 5), ap_identities = [],
     ap_metrics = metrics_new, ap_shutdown = [] \<rparr>"

definition logs_wire :: wire where
  "logs_wire = \<lparr> wi_transport = new_unix_trusting ''/run/vigil.sock'' None, 
     wi_parse_uri = (\<lambda>u. if CHR '' '' \<in> set u then Inl ''invalid uri character'' else Inr (drop 16 u)), wi_parse_url = Inr,
     wi_query = sample_query, wi_number = (\<lambda>s. Some (parse_digits 0 s)), wi_format = (\<lambda>_. None),
     wi_to_json = (\<lambda>_. ''{...}''), wi_parse = (\<lambda>_. Inr (envelope_of (\<lambda>_. None) (ApiOk (BodyLogs [demo_line])))),
     wi_reason = (\<lambda>_. None) \<rparr>"

lemma logs_left_serve: "serve (demo_api_env\<lparr>ae_order := [''web'']\<rparr>) parts (GetLogs q (Some 20)) logs_left =
    (Some (ApiOk (BodyLogs (tail_entries [''web''] (parse_services q) 20 (ap_log_store logs_left)))), logs_left)"
  by (simp add: serve_def caller_access_def identity_is_empty_def logs_left_def demo_api_env_def get_logs_def
      requiring_granted less_eq_identity_access_def)

lemma logs_left_tail: "tail_entries [''web''] [''web''] 20 (ap_log_store logs_left) = [demo_line]"
  by (simp add: tail_entries_def snapshot_of_def logs_left_def push_entry_def buffer_for_def lookup_buffer_def insert_buffer_def
      log_store_new_def push_to_def broadcast_entry_def buffer_push_def buffer_new_def demo_line_def Let_def)

lemma logs_wire_target: "wire_target logs_wire p =
    (if CHR '' '' \<in> set p then Inl ''invalid uri character'' else Inr p)"
  by (simp add: wire_target_def logs_wire_def new_unix_trusting_def unix_uri_def)

theorem client_sees_answer_witness:
  "\<forall>parts. exchange_with logs_wire (demo_api_env\<lparr>ae_order := [''web'']\<rparr>) parts (CallListLogs [''web''] (Some 20)) logs_left =
       (Some (Inr (BodyLogs [demo_line])), logs_left) \<and>
     exchange_with logs_wire (demo_api_env\<lparr>ae_order := [''web'']\<rparr>) parts (CallListLogs [''my web''] None) logs_left =
       (Some (Inl ''invalid uri character''), logs_left)"
proof
  fix parts
  let ?env = "demo_api_env\<lparr>ae_order := [''web'']\<rparr>" and ?call = "CallListLogs [''web''] (Some 20)" and ?bad = "CallListLogs [''my web''] None"
  have reads: "reads_queries (wi_query logs_wire)" "wi_number logs_wire (show_nat k) = Some k" for k
    by (simp_all add: logs_wire_def sample_query_reads parse_show_nat)
  have sends: "wire_target logs_wire p = Inr p" if "plain_path p" for p
    using that by (simp add: logs_wire_target plain_path_def no_blank)
  have decodes: "wi_parse logs_wire (wi_to_json logs_wire (envelope_of (wi_reason logs_wire) resp)) =
      Inr (decoded (envelope_of (wi_reason logs_wire) resp))"
    if "asks_for ?call r" "fst (serve ?env parts r logs_left) = Some resp" for r resp
  proof -
    from that have "resp = ApiOk (BodyLogs [demo_line])" by (auto simp: logs_left_serve logs_left_tail)
    then show ?thesis by (simp add: logs_wire_def decoded_def envelope_of_def)
  qed
  have clean: "\<forall>n \<in> set (names_of ?call). clean_name n"
    by (simp add: clean_name_def trim_def is_whitespace_def plain_text_def uri_char_def)
  have "(\<forall>n \<in> set (names_of ?call). clean_name n) \<longrightarrow>
      (\<exists>r. asks_for ?call r \<and> exchange_with logs_wire ?env parts ?call logs_left =
        (map_option (seen ?call) (fst (serve ?env parts r logs_left)), snd (serve ?env parts r logs_left)))"
    by (rule client_sees_answer [THEN conjunct1]) (blast intro: reads sends decodes)+
  with clean have "\<exists>r. asks_for ?call r \<and> exchange_with logs_wire ?env parts ?call logs_left =
      (map_option (seen ?call) (fst (serve ?env parts r logs_left)), snd (serve ?env parts r logs_left))"
    by blast
  then have good: "exchange_with logs_wire ?env parts ?call logs_left = (Some (Inr (BodyLogs [demo_line])), logs_left)"
    by (auto simp: logs_left_serve logs_left_tail)
  have "wire_target logs_wire (cr_path (client_request_of ?bad)) = Inl ''invalid uri character''"
    by (simp add: logs_wire_target logs_query_def)
  then have "exchange_with logs_wire ?env parts ?bad logs_left = (Some (Inl ''invalid uri character''), logs_left)"
    by (simp add: exchange_with_def)
  with good show "exchange_with logs_wire ?env parts ?call logs_left = (Some (Inr (BodyLogs [demo_line])), logs_left) \<and>
      exchange_with logs_wire ?env parts ?bad logs_left = (Some (Inl ''invalid uri character''), logs_left)" ..
qed

subsection \<open>Peers\<close>

text \<open>
  No request is sent to a stranger: a connection over the control socket is handed on only if the
  listener runs as root, as the user itself or as the user named on the command line, and never
  when its credentials cannot be read.
\<close>

theorem only_trusted_listeners:
  "connector_call connect me c = Inr () \<longleftrightarrow>
    (\<exists>peer. connect (uc_path c) = Inr (Inr peer) \<and> (peer = 0 \<or> peer = me \<or> uc_trusted_uid c = Some peer))"
  by (auto simp: connector_call_def check_peer_def peer_allowed_def split: sum.splits if_splits)

end
