(* ===== verification/ClientCmdProps.thy ===== *)
theory ClientCmdProps
  imports ClientProps
begin

text \<open>What the commands guarantee: when they succeed, and what a list shows.\<close>

subsection \<open>Exit status\<close>

text \<open>The type of result each command decodes.\<close>

fun fits :: "vigil_cmd \<Rightarrow> api_body \<Rightarrow> bool" where
  "fits (AlertsList _) b = (\<exists>x. b = BodyAlerts x)"
| "fits (ChecksList _) b = (\<exists>x. b = BodyChecks x)"
| "fits (IdentitiesList _) b = (\<exists>x. b = BodyIdentities x)"
| "fits (IdentitiesRemove _) b = (\<exists>x. b = BodyNames x)"
| "fits (LogsCmd _ _ _) b = (\<exists>x. b = BodyLogs x)"
| "fits (ServicesList _) b = (\<exists>x. b = BodyServices x)"
| "fits (ServicesStart _) b = (\<exists>x. b = BodyChange x)"
| "fits (ServicesStop _) b = (\<exists>x. b = BodyChange x)"
| "fits (ServicesRestart _) b = (\<exists>x. b = BodyChange x)"
| "fits SystemInfoCmd b = (\<exists>x. b = BodySystem x)"
| "fits VigildStatus b = (\<exists>x. b = BodySystem x)"
| "fits _ b = True"

lemma show_reply_fits: "co_result (show_reply fmt now cmd b) = Inr () \<longleftrightarrow> fits cmd b"
  by (cases cmd) (auto simp: printed_def mismatch_def failed_def change_output_def print_change_def split: api_body.splits)

lemma calls_shape: "calls_of cmd = Inr calls \<Longrightarrow> calls \<noteq> [] \<and> (tl calls = [] \<or> (\<exists>ss. tl calls = [CallFollowLogs ss]))"
  by (cases cmd) (auto split: sum.splits if_splits)

text \<open>
  C40. A command of the client succeeds exactly when its request was answered with a result of its
  type and, for a followed log, the log ended without an error; nothing in the result matters, so a
  start, stop or restart exits with success also when the change it reports has failed.
\<close>

theorem command_exit:
  assumes "run_command fmt now follow exchange cmd s = (Some out, s')"
  shows "co_result out = Inr () \<longleftrightarrow>
    (\<exists>call rest b. calls_of cmd = Inr (call # rest) \<and> exchange call s = (Some (Inr b), s') \<and> fits cmd b \<and>
       (\<forall>services. CallFollowLogs services \<in> set rest \<longrightarrow> snd (follow services) = Inr ()))"
proof (cases "calls_of cmd")
  case (Inl e)
  with assms show ?thesis by (auto simp: run_command_def failed_def)
next
  case (Inr calls)
  then obtain call rest where c: "calls = call # rest" "rest = [] \<or> (\<exists>ss. rest = [CallFollowLogs ss])"
    using calls_shape [OF Inr] by (cases calls) auto
  from c(2) show ?thesis
  proof
    assume "rest = []"
    with assms Inr c(1) show ?thesis
      by (auto simp: run_command_def failed_def Let_def show_reply_fits split: prod.splits option.splits sum.splits)
  next
    assume "\<exists>ss. rest = [CallFollowLogs ss]"
    with assms Inr c(1) show ?thesis
      by (auto simp: run_command_def failed_def Let_def show_reply_fits split: prod.splits option.splits sum.splits if_splits)
  qed
qed

theorem command_exit_witness:
  "\<exists>out. run_command (\<lambda>_. []) 0 (\<lambda>_. ([], Inr ())) (\<lambda>c s. (Some (Inr (BodyChange \<lparr> ch_id = ''1'', ch_kind = ''stop'',
       ch_summary = ''stop web'', ch_status = ChangeError, ch_spawn_time = 0, ch_ready_time = None, ch_err = Some ''gone'' \<rparr>)), s))
     (ServicesStop [''web'']) () = (Some out, ()) \<and> co_result out = Inr ()"
proof -
  let ?c = "\<lparr> ch_id = ''1'', ch_kind = ''stop'', ch_summary = ''stop web'', ch_status = ChangeError, ch_spawn_time = 0,
    ch_ready_time = None, ch_err = Some ''gone'' \<rparr>"
  let ?x = "\<lambda>(c :: client_call) (s :: unit). (Some (Inr (BodyChange ?c)) :: (string + api_body) option, s)"
  obtain out where out: "run_command (\<lambda>_. []) 0 (\<lambda>_. ([], Inr ())) ?x (ServicesStop [''web'']) () = (Some out, ())"
    by (simp add: run_command_def Let_def)
  have "co_result out = Inr ()" by (simp add: command_exit [OF out])
  with out show ?thesis by blast
qed

subsection \<open>Types\<close>

lemma via_overlord_ok: "fst (via_overlord cx cmd finish s) = Some (ApiOk b) \<Longrightarrow> \<exists>r. finish r = ApiOk b"
  by (auto simp: via_overlord_def internal_error_def split: prod.splits option.splits sum.splits)

lemma requiring_ok: "fst (requiring caller needed f s) = Some (ApiOk b) \<Longrightarrow> fst (f s) = Some (ApiOk b)"
  by (simp add: requiring_def forbidden_def split: sum.splits)

text \<open>The type of result each endpoint documents.\<close>

fun result_type :: "api_request \<Rightarrow> api_body \<Rightarrow> bool" where
  "result_type GetSystemInfo b = (\<exists>x. b = BodySystem x)"
| "result_type GetMetrics b = (\<exists>x. b = BodyMetrics x)"
| "result_type (ListServices _) b = (\<exists>x. b = BodyServices x)"
| "result_type (PostServices _ _) b = (\<exists>x. b = BodyChange x)"
| "result_type (GetChange _) b = (\<exists>x. b = BodyChange x)"
| "result_type (ListChecks _) b = (\<exists>x. b = BodyChecks x)"
| "result_type (ListAlerts _) b = (\<exists>x. b = BodyAlerts x)"
| "result_type (GetLogs _ _) b = (\<exists>x. b = BodyLogs x)"
| "result_type (FollowLogs _ _) b = (\<exists>f x. b = BodyFollow f x)"
| "result_type (ListIdentities _) b = (\<exists>x. b = BodyIdentities x)"
| "result_type (RemoveIdentities _) b = (\<exists>x. b = BodyNames x)"
| "result_type _ b = (b = BodyNone)"

lemma route_type: "fst (route env caller req s) = Some (ApiOk b) \<Longrightarrow> result_type req b"
  by (cases req)
    (auto simp: endpoint_defs internal_error_def not_found_def split: if_splits prod.splits
      dest!: requiring_ok via_overlord_ok split: ov_reply.splits list.splits sum.splits)

text \<open>
  C17. The client and the daemon agree on types: whatever endpoint the first call of a command means,
  a successful answer of the daemon has the type of result the endpoint documents and the command
  decodes; so no reply of this daemon is refused as invalid.
\<close>

theorem command_reply_type:
  assumes "calls_of cmd = Inr (call # rest)" and "asks_for call req" and "fst (serve env parts req s) = Some (ApiOk b)"
  shows "result_type req b \<and> fits cmd b"
proof -
  from assms(3) have "result_type req b" unfolding serve_def by (rule route_type)
  with assms(1,2) show ?thesis by (cases cmd) (auto split: sum.splits if_splits)
qed

theorem command_reply_type_witness:
  "\<exists>b. fst (serve (demo_api_env\<lparr>ae_order := [''web'']\<rparr>) \<lparr>rp_authorization = None, rp_peer_cert = None, rp_unix_peer = None\<rparr>
     (GetLogs (Some ''web'') (Some 20)) logs_left) = Some (ApiOk b) \<and> fits (LogsCmd [''web''] (Some 20) False) b"
proof -
  let ?p = "\<lparr>rp_authorization = None, rp_peer_cert = None, rp_unix_peer = None\<rparr>"
  let ?r = "GetLogs (Some ''web'') (Some 20)" and ?env = "demo_api_env\<lparr>ae_order := [''web'']\<rparr>"
  obtain b where b: "fst (serve ?env ?p ?r logs_left) = Some (ApiOk b)" by (simp add: logs_left_serve)
  have "asks_for (CallListLogs [''web''] (Some 20)) ?r"
    by (simp add: parse_services_def comma_list_def trim_def is_whitespace_def)
  from command_reply_type [OF _ this b, of "LogsCmd [''web''] (Some 20) False" "[]"] b show ?thesis by auto
qed

end
