(* ===== verification/CheckQuery.thy ===== *)
theory CheckQuery
  imports OverlordCmd CheckProps
begin

text \<open>
  Asking the checks for their status, in small steps: \<open>query_checks\<close> (\<open>overlord/handlers.rs\<close>) against
  the tasks it asks (\<open>check/actor/mod.rs\<close>). A check takes no command while its probe runs or while it
  waits for room in the event channel, and the overlord takes no event while it waits for a check.
\<close>

subsection \<open>Checks in small steps\<close>

text \<open>
  A check waits in its \<open>select!\<close>, runs a probe, or has run one and still has events to send before it
  returns to its \<open>select!\<close> (in the state it holds then).
\<close>

datatype check_task =
    AtSelect check_actor
  | InProbe check_actor
  | Sending check_actor "check_event list"

definition begin_tick :: "nat \<Rightarrow> check_actor \<Rightarrow> check_actor" where
  "begin_tick now a = a\<lparr>ck_last_tick := now, ck_next_tick := now + check_period (ck_config a)\<rparr>"

definition end_probe :: "bool \<Rightarrow> check_actor \<Rightarrow> check_actor" where
  "end_probe ok a = report_first_run (if ok then probe_passed a else probe_failed a)"

text \<open>Both halves make a tick.\<close>

lemma check_tick_halves: "check_tick now env a =
    end_probe (perform env (ck_config a) (check_timeout (ck_config a)) (ck_services a)) (begin_tick now a)"
  by (simp add: check_tick_def end_probe_def begin_tick_def Let_def)

definition to_send :: "check_actor \<Rightarrow> check_event list \<Rightarrow> check_task" where
  "to_send a es = (if es = [] then AtSelect a else Sending a es)"

subsection \<open>The query\<close>

text \<open>
  The overlord's checks, the event channel, the names still to ask, the one whose reply is awaited
  (its mailbox holds the request, and nothing else: shutdowns are sent to removed checks only), and
  the replies so far.
\<close>

record query =
  qy_tasks :: "(string, check_task) indexmap"
  qy_channel :: "check_event list"
  qy_todo :: "string list"
  qy_wait :: "string option"
  qy_infos :: "check_info list"

datatype query_input =
    Ask
  | Answer nat
  | ReplyDropped
  | DelayEnds string nat
  | TickStarts string nat
  | ProbeEnds string bool
  | Emits string

definition qy_set :: "string \<Rightarrow> check_task \<Rightarrow> query \<Rightarrow> query" where
  "qy_set n t q = q\<lparr>qy_tasks := im_insert n t (qy_tasks q)\<rparr>"

definition takes_commands :: "check_actor \<Rightarrow> bool" where
  "takes_commands a \<longleftrightarrow> check_enabled a (CkCmd 0 (Some GetStatus))"

text \<open>
  \<open>Ask\<close>: the request is sent, or the check's receiver is gone and it is left out. \<open>Answer\<close>: the check
  asked is at its \<open>select!\<close> and replies. \<open>ReplyDropped\<close>: it has ended with the request unread. The
  others are steps of a check, whose \<open>select!\<close> is biased to a command.
\<close>

fun query_react :: "query_input \<Rightarrow> query \<Rightarrow> query option" where
  "query_react Ask q =
     (case (qy_wait q, qy_todo q) of
        (None, n # ns) \<Rightarrow>
          (case map_of (qy_tasks q) n of
             Some (AtSelect a) \<Rightarrow> Some (q\<lparr>qy_todo := ns, qy_wait := (if takes_commands a then Some n else None)\<rparr>)
           | Some _ \<Rightarrow> Some (q\<lparr>qy_todo := ns, qy_wait := Some n\<rparr>)
           | None \<Rightarrow> None)
      | _ \<Rightarrow> None)"
| "query_react (Answer now) q =
     (case qy_wait q of
        Some n \<Rightarrow>
          (case map_of (qy_tasks q) n of
             Some (AtSelect a) \<Rightarrow>
               if takes_commands a
               then Some (qy_set n (AtSelect (check_command now (Some GetStatus) a))
                      (q\<lparr>qy_wait := None,
                         qy_infos := qy_infos q @ [case ck_phase a of Delaying _ \<Rightarrow> delay_info a | _ \<Rightarrow> loop_info now a]\<rparr>))
               else None
           | _ \<Rightarrow> None)
      | None \<Rightarrow> None)"
| "query_react ReplyDropped q =
     (case qy_wait q of
        Some n \<Rightarrow>
          (case map_of (qy_tasks q) n of
             Some (AtSelect a) \<Rightarrow> if takes_commands a then None else Some (q\<lparr>qy_wait := None\<rparr>)
           | _ \<Rightarrow> None)
      | None \<Rightarrow> None)"
| "query_react (DelayEnds n now) q =
     (case map_of (qy_tasks q) n of
        Some (AtSelect a) \<Rightarrow>
          if qy_wait q \<noteq> Some n \<and> check_enabled a (CkDelayOver now) then Some (qy_set n (AtSelect (delay_over now a)) q) else None
      | _ \<Rightarrow> None)"
| "query_react (TickStarts n now) q =
     (case map_of (qy_tasks q) n of
        Some (AtSelect a) \<Rightarrow>
          if qy_wait q \<noteq> Some n \<and> ck_phase a = Probing \<and> ck_next_tick a \<le> now
          then Some (qy_set n (InProbe (begin_tick now a)) q) else None
      | _ \<Rightarrow> None)"
| "query_react (ProbeEnds n ok) q =
     (case map_of (qy_tasks q) n of
        Some (InProbe a) \<Rightarrow> Some (qy_set n (to_send (end_probe ok a) (check_events_between a (end_probe ok a))) q)
      | _ \<Rightarrow> None)"
| "query_react (Emits n) q =
     (case map_of (qy_tasks q) n of
        Some (Sending a (e # es)) \<Rightarrow>
          if length (qy_channel q) < event_capacity
          then Some (qy_set n (to_send a es) (q\<lparr>qy_channel := qy_channel q @ [e]\<rparr>)) else None
      | _ \<Rightarrow> None)"

inductive query_step :: "query \<Rightarrow> query \<Rightarrow> bool" where
  query_step: "query_react i q = Some q' \<Longrightarrow> query_step q q'"

inductive_cases query_stepE: "query_step q q'"

definition query_done :: "query \<Rightarrow> bool" where
  "query_done q \<longleftrightarrow> qy_wait q = None \<and> qy_todo q = []"

text \<open>A query starts with the wanted checks to ask, whatever they are doing.\<close>

definition query_init :: "query \<Rightarrow> bool" where
  "query_init q \<longleftrightarrow> im_wf (qy_tasks q) \<and> qy_wait q = None \<and> qy_infos q = [] \<and> length (qy_channel q) \<le> event_capacity \<and>
     (\<exists>names. qy_todo q = filter (\<lambda>n. names = [] \<or> n \<in> set names) (im_keys (qy_tasks q))) \<and>
     (\<forall>(n, t) \<in> set (qy_tasks q). \<forall>a. t \<noteq> Sending a [])"

end
