(* ===== verification/CheckQueryProps.thy ===== *)
theory CheckQueryProps
  imports CheckQuery OverlordFrames "HOL-Library.Sublist"
begin

text \<open>
  When asking the checks comes to an end: exactly as long as the events they have to send before they
  can answer fit into the channel nobody empties. And then the answer is the one of \<open>query_checks\<close>.
\<close>

subsection \<open>What a check still has to send\<close>

fun must_send :: "check_task \<Rightarrow> nat" where
  "must_send (AtSelect a) = 0"
| "must_send (InProbe a) = (if ck_first_run a then 1 else 0)"
| "must_send (Sending a es) = length es"

definition remaining :: "query \<Rightarrow> string list" where
  "remaining q = (case qy_wait q of Some n \<Rightarrow> [n] | None \<Rightarrow> []) @ qy_todo q"

definition burden :: "(string, check_task) indexmap \<Rightarrow> string \<Rightarrow> nat" where
  "burden m n = (case map_of m n of Some t \<Rightarrow> must_send t | None \<Rightarrow> 0)"

definition owed :: "query \<Rightarrow> nat" where
  "owed q = sum_list (map (burden (qy_tasks q)) (remaining q))"

lemma qy_set_fields [simp]:
  "qy_tasks (qy_set n t q) = im_insert n t (qy_tasks q)" "qy_channel (qy_set n t q) = qy_channel q"
  "qy_todo (qy_set n t q) = qy_todo q" "qy_wait (qy_set n t q) = qy_wait q" "qy_infos (qy_set n t q) = qy_infos q"
  "remaining (qy_set n t q) = remaining q"
  by (simp_all add: qy_set_def remaining_def)

lemma burden_insert: "burden (im_insert n t m) = (burden m)(n := must_send t)"
  by (auto simp: burden_def im.get_put)

lemma sum_list_upd: "distinct ns \<Longrightarrow> sum_list (map (f(n := v)) ns) + (if n \<in> set ns then f n else 0) =
    sum_list (map f ns) + (if n \<in> set ns then v else (0 :: nat))"
  by (induction ns) (auto simp: fun_upd_def)

lemma owed_set: "distinct (remaining q) \<Longrightarrow> owed (qy_set n t q) + (if n \<in> set (remaining q) then burden (qy_tasks q) n else 0) =
    owed q + (if n \<in> set (remaining q) then must_send t else 0)"
  using sum_list_upd [of "remaining q" "burden (qy_tasks q)" n "must_send t"] by (simp add: owed_def burden_insert)

text \<open>The events of a probe: one for a change of status, one for the first run.\<close>

lemma events_of_probe: "length (check_events_between a (end_probe ok a)) =
    (if ck_first_run a then 1 else 0) +
    (if (ok \<and> ck_status a = Down) \<or> (\<not> ok \<and> check_threshold (ck_config a) \<le> ck_failures a + 1 \<and> ck_status a = Up) then 1 else 0)"
  by (simp add: check_events_between_def end_probe_def report_first_run_def probe_passed_def probe_failed_def Let_def check_simps
      List.map_filter_def)

lemma quiet_probe: "length (check_events_between a (end_probe (ck_status a = Up) a)) = must_send (InProbe a)"
  by (cases "ck_status a") (simp_all add: events_of_probe)

lemma must_send_to_send [simp]: "must_send (to_send a es) = length es"
  by (simp add: to_send_def)

subsection \<open>The invariant\<close>

definition query_inv :: "query \<Rightarrow> bool" where
  "query_inv q \<longleftrightarrow> distinct (remaining q) \<and> (\<forall>n \<in> set (remaining q). map_of (qy_tasks q) n \<noteq> None) \<and>
     length (qy_channel q) \<le> event_capacity \<and> (\<forall>n a. map_of (qy_tasks q) n \<noteq> Some (Sending a []))"

lemma to_send_neq [simp]: "to_send a es \<noteq> Sending b []"
  by (simp add: to_send_def)

lemma query_inv_set: "query_inv q \<Longrightarrow> (\<And>a. t \<noteq> Sending a []) \<Longrightarrow> query_inv (qy_set n t q)"
  by (auto simp: query_inv_def im.get_put)

lemma query_inv_react: "query_react i q = Some q' \<Longrightarrow> query_inv q \<Longrightarrow> query_inv q'"
proof (cases i)
  case Ask
  assume "query_react i q = Some q'" "query_inv q"
  with Ask show ?thesis
    by (auto simp: query_inv_def remaining_def split: option.splits list.splits check_task.splits if_splits)
next
  case (Answer now)
  assume r: "query_react i q = Some q'" and inv: "query_inv q"
  have "query_inv (q\<lparr>qy_wait := None, qy_infos := xs\<rparr>)" for xs
    using inv by (auto simp: query_inv_def remaining_def split: option.splits)
  with r Answer show ?thesis
    by (auto intro!: query_inv_set split: option.splits check_task.splits if_splits)
next
  case ReplyDropped
  assume "query_react i q = Some q'" "query_inv q"
  with ReplyDropped show ?thesis
    by (auto simp: query_inv_def remaining_def split: option.splits check_task.splits if_splits)
next
  case (Emits n)
  assume r: "query_react i q = Some q'" and inv: "query_inv q"
  then have "length (qy_channel q) < event_capacity \<Longrightarrow> query_inv (q\<lparr>qy_channel := qy_channel q @ [e]\<rparr>)" for e
    by (simp add: query_inv_def remaining_def)
  with r Emits show ?thesis
    by (auto intro!: query_inv_set split: option.splits check_task.splits list.splits if_splits)
qed (auto intro!: query_inv_set split: option.splits check_task.splits if_splits)

lemma query_inv_init: "query_init q \<Longrightarrow> query_inv q"
  by (auto simp: query_init_def query_inv_def remaining_def im_wf_def map_of_eq_None_iff dest: map_of_SomeD)

interpretation asking: invariant_system query_init query_step query_inv
proof
  fix q q'
  show "query_init q \<Longrightarrow> query_inv q" by (rule query_inv_init)
  show "query_inv q \<Longrightarrow> query_step q q' \<Longrightarrow> query_inv q'" by (auto elim: query_stepE query_inv_react)
qed

subsection \<open>A query that cannot end\<close>

definition pressure :: "query \<Rightarrow> nat" where
  "pressure q = length (qy_channel q) + owed q"

lemma owed_same: "remaining q' = remaining q \<Longrightarrow> qy_tasks q' = qy_tasks q \<Longrightarrow> owed q' = owed q"
  by (simp add: owed_def)

lemma owed_set_mono: "distinct (remaining q) \<Longrightarrow> burden (qy_tasks q) n \<le> must_send t \<Longrightarrow> owed q \<le> owed (qy_set n t q)"
  using owed_set [of q n t] by (auto split: if_splits)

lemma burden_at: "map_of m n = Some t \<Longrightarrow> burden m n = must_send t"
  by (simp add: burden_def)

text \<open>Events leave a check only into the channel, so the pressure never falls while the overlord waits.\<close>

lemma pressure_mono: "query_react i q = Some q' \<Longrightarrow> query_inv q \<Longrightarrow> pressure q \<le> pressure q'"
proof (cases i)
  case Ask
  assume "query_react i q = Some q'" "query_inv q"
  with Ask show ?thesis
    by (auto simp: pressure_def owed_def remaining_def burden_def split: option.splits list.splits check_task.splits if_splits)
next
  case (Answer now)
  assume "query_react i q = Some q'" "query_inv q"
  with Answer obtain n a where n: "qy_wait q = Some n" "map_of (qy_tasks q) n = Some (AtSelect a)" "n \<notin> set (qy_todo q)"
      "qy_channel q' = qy_channel q" "remaining q' = qy_todo q"
      "qy_tasks q' = im_insert n (AtSelect (check_command now (Some GetStatus) a)) (qy_tasks q)"
    by (auto simp: query_inv_def remaining_def split: option.splits check_task.splits if_splits)
  then have "map (burden (qy_tasks q')) (qy_todo q) = map (burden (qy_tasks q)) (qy_todo q)"
    by (auto simp: burden_insert)
  then have "owed q' = sum_list (map (burden (qy_tasks q)) (qy_todo q))" unfolding owed_def n(5) by (rule arg_cong)
  with n(1,2,4) show ?thesis by (simp add: pressure_def owed_def [of q] remaining_def burden_at)
next
  case ReplyDropped
  assume "query_react i q = Some q'" "query_inv q"
  with ReplyDropped show ?thesis
    by (auto simp: pressure_def owed_def remaining_def burden_def split: option.splits check_task.splits if_splits)
next
  case (ProbeEnds n ok)
  assume r: "query_react i q = Some q'" and inv: "query_inv q"
  then obtain a where a: "map_of (qy_tasks q) n = Some (InProbe a)"
      "q' = qy_set n (to_send (end_probe ok a) (check_events_between a (end_probe ok a))) q"
    using ProbeEnds by (auto split: option.splits check_task.splits)
  have "burden (qy_tasks q) n \<le> must_send (to_send (end_probe ok a) (check_events_between a (end_probe ok a)))"
    by (simp add: burden_at [OF a(1)] events_of_probe)
  with a inv show ?thesis by (simp add: pressure_def owed_set_mono query_inv_def)
next
  case (Emits n)
  assume r: "query_react i q = Some q'" and inv: "query_inv q"
  then obtain a e es where a: "map_of (qy_tasks q) n = Some (Sending a (e # es))"
      "q' = qy_set n (to_send a es) (q\<lparr>qy_channel := qy_channel q @ [e]\<rparr>)"
    using Emits by (auto split: option.splits check_task.splits list.splits if_splits)
  have d: "distinct (remaining (q\<lparr>qy_channel := qy_channel q @ [e]\<rparr>))"
    using inv by (simp add: query_inv_def remaining_def)
  have "owed (q\<lparr>qy_channel := qy_channel q @ [e]\<rparr>) = owed q" by (rule owed_same) (simp_all add: remaining_def)
  with owed_set [OF d, of n "to_send a es"] a show ?thesis by (simp add: pressure_def burden_at split: if_splits)
qed (auto simp: pressure_def query_inv_def burden_at intro!: owed_set_mono split: option.splits check_task.splits if_splits)

lemma run_inv: "query_step\<^sup>*\<^sup>* q q' \<Longrightarrow> query_inv q \<Longrightarrow> query_inv q' \<and> pressure q \<le> pressure q'"
proof (induction rule: rtranclp_induct)
  case (step y z)
  from step.hyps(2) obtain i where "query_react i y = Some z" by (auto elim: query_stepE)
  with step show ?case using query_inv_react [of i y z] pressure_mono [of i y z] by auto
qed simp

lemma done_pressure: "query_inv q \<Longrightarrow> query_done q \<Longrightarrow> pressure q \<le> event_capacity"
  by (simp add: query_inv_def query_done_def pressure_def owed_def remaining_def)

subsection \<open>A query that can end\<close>

lemma react_run: "query_react i q = Some q' \<Longrightarrow> query_step\<^sup>*\<^sup>* q q'"
  by (auto intro: query_step.intros)

text \<open>A check that can send what it must comes back to its \<open>select!\<close>, and leaves the others alone.\<close>

lemma emit_all:
  assumes "map_of (qy_tasks q) n = Some (to_send a es)" and "length (qy_channel q) + length es \<le> event_capacity"
  shows "\<exists>m ch. query_step\<^sup>*\<^sup>* q (q\<lparr>qy_tasks := m, qy_channel := ch\<rparr>) \<and> length ch = length (qy_channel q) + length es \<and>
    map_of m = (map_of (qy_tasks q))(n \<mapsto> AtSelect a)"
  using assms
proof (induction es arbitrary: q)
  case Nil
  then have "map_of (qy_tasks q) = (map_of (qy_tasks q))(n \<mapsto> AtSelect a)" by (auto simp: to_send_def)
  then show ?case by (intro exI [of _ "qy_tasks q"] exI [of _ "qy_channel q"]) simp
next
  case (Cons e es)
  let ?q = "qy_set n (to_send a es) (q\<lparr>qy_channel := qy_channel q @ [e]\<rparr>)"
  have s: "query_step\<^sup>*\<^sup>* q ?q" by (rule react_run [of "Emits n"]) (use Cons.prems in \<open>simp add: to_send_def\<close>)
  have "map_of (qy_tasks ?q) n = Some (to_send a es)" "length (qy_channel ?q) + length es \<le> event_capacity"
    using Cons.prems(2) by simp_all
  from Cons.IH [OF this] obtain m ch where m: "query_step\<^sup>*\<^sup>* ?q (?q\<lparr>qy_tasks := m, qy_channel := ch\<rparr>)"
      "length ch = length (qy_channel ?q) + length es" "map_of m = (map_of (qy_tasks ?q))(n \<mapsto> AtSelect a)"
    by blast
  have "?q\<lparr>qy_tasks := m, qy_channel := ch\<rparr> = q\<lparr>qy_tasks := m, qy_channel := ch\<rparr>" by (simp add: qy_set_def)
  with s m(1) have "query_step\<^sup>*\<^sup>* q (q\<lparr>qy_tasks := m, qy_channel := ch\<rparr>)" by simp
  moreover have "map_of m = (map_of (qy_tasks q))(n \<mapsto> AtSelect a)" unfolding m(3) by simp
  ultimately show ?case using m(2) by (intro exI [of _ m] exI [of _ ch]) simp
qed

lemma settle:
  assumes "map_of (qy_tasks q) n = Some t" and "\<And>a. t \<noteq> Sending a []" and "length (qy_channel q) + must_send t \<le> event_capacity"
  shows "\<exists>m ch a. query_step\<^sup>*\<^sup>* q (q\<lparr>qy_tasks := m, qy_channel := ch\<rparr>) \<and> length ch = length (qy_channel q) + must_send t \<and>
    map_of m = (map_of (qy_tasks q))(n \<mapsto> AtSelect a)"
proof (cases t)
  case (AtSelect a)
  with emit_all [of q n a "[]"] assms show ?thesis by (auto simp: to_send_def)
next
  case (Sending a es)
  with emit_all [of q n a es] assms show ?thesis by (auto simp: to_send_def)
next
  case (InProbe a)
  let ?ok = "ck_status a = Up"
  let ?b = "end_probe ?ok a" and ?es = "check_events_between a (end_probe ?ok a)"
  let ?q = "qy_set n (to_send ?b ?es) q"
  have s: "query_step\<^sup>*\<^sup>* q ?q" by (rule react_run [of "ProbeEnds n ?ok"]) (use assms(1) InProbe in simp)
  have len: "length ?es = must_send t" using quiet_probe [of a] InProbe by simp
  have "map_of (qy_tasks ?q) n = Some (to_send ?b ?es)" "length (qy_channel ?q) + length ?es \<le> event_capacity"
    using assms(3) len by simp_all
  from emit_all [OF this] obtain m ch where m: "query_step\<^sup>*\<^sup>* ?q (?q\<lparr>qy_tasks := m, qy_channel := ch\<rparr>)"
      "length ch = length (qy_channel ?q) + length ?es" "map_of m = (map_of (qy_tasks ?q))(n \<mapsto> AtSelect ?b)"
    by blast
  have "?q\<lparr>qy_tasks := m, qy_channel := ch\<rparr> = q\<lparr>qy_tasks := m, qy_channel := ch\<rparr>" by (simp add: qy_set_def)
  with s m(1) have "query_step\<^sup>*\<^sup>* q (q\<lparr>qy_tasks := m, qy_channel := ch\<rparr>)" by simp
  moreover have "map_of m = (map_of (qy_tasks q))(n \<mapsto> AtSelect ?b)" unfolding m(3) by simp
  ultimately show ?thesis using m(2) len by (intro exI [of _ m] exI [of _ ch] exI [of _ ?b]) simp
qed

text \<open>The check whose reply is awaited settles and replies, or has ended.\<close>

lemma finish_wait:
  assumes inv: "query_inv q" and w: "qy_wait q = Some n" and p: "pressure q \<le> event_capacity"
  shows "\<exists>q'. query_step\<^sup>*\<^sup>* q q' \<and> qy_wait q' = None \<and> qy_todo q' = qy_todo q \<and> pressure q' \<le> event_capacity"
proof -
  obtain t where t: "map_of (qy_tasks q) n = Some t" "\<And>a. t \<noteq> Sending a []"
    using inv w by (auto simp: query_inv_def remaining_def)
  have owed: "owed q = must_send t + sum_list (map (burden (qy_tasks q)) (qy_todo q))"
    using w by (simp add: owed_def remaining_def burden_at [OF t(1)])
  with p have "length (qy_channel q) + must_send t \<le> event_capacity" by (simp add: pressure_def)
  from settle [OF t this] obtain m ch a where s: "query_step\<^sup>*\<^sup>* q (q\<lparr>qy_tasks := m, qy_channel := ch\<rparr>)"
      "length ch = length (qy_channel q) + must_send t" "map_of m = (map_of (qy_tasks q))(n \<mapsto> AtSelect a)"
    by blast
  let ?q = "q\<lparr>qy_tasks := m, qy_channel := ch\<rparr>"
  obtain i q' where q': "query_react i ?q = Some q'" "qy_wait q' = None" "qy_todo q' = qy_todo q" "qy_channel q' = ch"
      "\<forall>k. k \<noteq> n \<longrightarrow> map_of (qy_tasks q') k = map_of (qy_tasks q) k"
  proof (cases "takes_commands a")
    case True
    then show thesis by - (rule that [of "Answer 0"], simp add: w s(3), simp_all add: s(3))
  next
    case False
    then show thesis by - (rule that [of ReplyDropped "?q\<lparr>qy_wait := None\<rparr>"], simp_all add: w s(3))
  qed
  have "n \<notin> set (qy_todo q)" using inv w by (simp add: query_inv_def remaining_def)
  then have "map (burden (qy_tasks q')) (qy_todo q) = map (burden (qy_tasks q)) (qy_todo q)"
    using q'(5) by (intro map_cong refl) (metis burden_def)
  then have "sum_list (map (burden (qy_tasks q')) (qy_todo q)) = sum_list (map (burden (qy_tasks q)) (qy_todo q))" by (rule arg_cong)
  then have "owed q' = sum_list (map (burden (qy_tasks q)) (qy_todo q))" by (simp only: owed_def remaining_def q'(2,3) option.case append_Nil)
  with q'(4) s(2) owed p have "pressure q' \<le> event_capacity" by (simp add: pressure_def)
  with q'(2,3) rtranclp_trans [OF s(1) react_run [OF q'(1)]] show ?thesis by blast
qed

lemma can_end:
  "query_inv q \<Longrightarrow> qy_wait q = None \<Longrightarrow> pressure q \<le> event_capacity \<Longrightarrow> \<exists>q'. query_step\<^sup>*\<^sup>* q q' \<and> query_done q'"
proof (induction "qy_todo q" arbitrary: q)
  case Nil
  then show ?case by (intro exI [of _ q]) (simp add: query_done_def)
next
  case (Cons n ns)
  then obtain t where t: "map_of (qy_tasks q) n = Some t" by (auto simp: query_inv_def remaining_def simp flip: Cons.hyps(2))
  obtain q1 where q1: "query_react Ask q = Some q1" "qy_todo q1 = ns" "pressure q1 \<le> event_capacity"
    using t Cons.prems(2,3) by (cases t) (auto simp: pressure_def owed_def remaining_def burden_at simp flip: Cons.hyps(2))
  have inv1: "query_inv q1" by (rule query_inv_react [OF q1(1) Cons.prems(1)])
  obtain q2 where q2: "query_step\<^sup>*\<^sup>* q1 q2" "qy_wait q2 = None" "qy_todo q2 = ns" "pressure q2 \<le> event_capacity"
  proof (cases "qy_wait q1")
    case None
    with q1 show thesis by (intro that [of q1]) simp_all
  next
    case (Some k)
    from finish_wait [OF inv1 Some q1(3)] q1(2) show thesis using that by auto
  qed
  have "query_inv q2" using run_inv [OF q2(1) inv1] by blast
  with Cons.hyps(1) [of q2] q2 obtain q3 where q3: "query_step\<^sup>*\<^sup>* q2 q3" "query_done q3" by auto
  have "query_step\<^sup>*\<^sup>* q q3" using react_run [OF q1(1)] q2(1) q3(1) by (meson rtranclp_trans)
  with q3(2) show ?case by blast
qed

subsection \<open>A query that hangs\<close>

text \<open>A check whose status changes with every probe.\<close>

definition flaps :: "check_actor \<Rightarrow> bool" where
  "flaps b \<longleftrightarrow> ck_phase b = Probing \<and> \<not> ck_first_run b \<and> check_threshold (ck_config b) = 1 \<and> (ck_status b = Up \<longrightarrow> ck_failures b = 0)"

definition flip :: "check_actor \<Rightarrow> check_actor" where
  "flip b = end_probe (ck_status b = Down) (begin_tick (ck_next_tick b) b)"

lemma flip_flaps: "flaps b \<Longrightarrow> flaps (flip b)"
  by (cases "ck_status b") (simp_all add: flaps_def flip_def end_probe_def begin_tick_def report_first_run_def probe_passed_def
      probe_failed_def Let_def check_simps)

lemma flip_event: "flaps b \<Longrightarrow> \<exists>e. check_events_between (begin_tick (ck_next_tick b) b) (flip b) = [e]"
proof -
  let ?es = "check_events_between (begin_tick (ck_next_tick b) b) (flip b)"
  assume "flaps b"
  then have "length ?es = 1"
    unfolding flip_def by (cases "ck_status b") (simp_all add: flaps_def begin_tick_def events_of_probe)
  then show "\<exists>e. ?es = [e]" by (cases ?es) auto
qed

text \<open>The overlord waits for a check whose probe runs, and has a flapping one still to ask.\<close>

definition filling :: "query \<Rightarrow> nat \<Rightarrow> bool" where
  "filling q k \<longleftrightarrow> qy_wait q = Some ''slow'' \<and> qy_todo q = [''flap''] \<and> length (qy_channel q) = k \<and>
     (\<exists>a. map_of (qy_tasks q) ''slow'' = Some (InProbe a) \<and> \<not> ck_first_run a) \<and>
     (\<exists>b. map_of (qy_tasks q) ''flap'' = Some (AtSelect b) \<and> flaps b)"

lemma flap_once:
  assumes "filling q k"
  shows "\<exists>q' e b. query_step\<^sup>*\<^sup>* q q' \<and> map_of (qy_tasks q') ''flap'' = Some (Sending b [e]) \<and>
    (\<forall>n. n \<noteq> ''flap'' \<longrightarrow> map_of (qy_tasks q') n = map_of (qy_tasks q) n) \<and> flaps b \<and>
    qy_channel q' = qy_channel q \<and> qy_wait q' = qy_wait q \<and> qy_todo q' = qy_todo q"
proof -
  obtain b where b: "map_of (qy_tasks q) ''flap'' = Some (AtSelect b)" "flaps b" using assms by (auto simp: filling_def)
  obtain e where e: "check_events_between (begin_tick (ck_next_tick b) b) (flip b) = [e]" using flip_event [OF b(2)] by blast
  let ?q1 = "qy_set ''flap'' (InProbe (begin_tick (ck_next_tick b) b)) q"
  let ?q2 = "qy_set ''flap'' (Sending (flip b) [e]) ?q1"
  have 1: "query_react (TickStarts ''flap'' (ck_next_tick b)) q = Some ?q1"
    using b assms by (simp add: flaps_def filling_def)
  have 2: "query_react (ProbeEnds ''flap'' (ck_status b = Down)) ?q1 = Some ?q2"
    using e by (simp add: flip_def to_send_def)
  have "query_step\<^sup>*\<^sup>* q ?q2" using react_run [OF 1] react_run [OF 2] by (rule rtranclp_trans)
  with flip_flaps [OF b(2)] show ?thesis by (intro exI [of _ ?q2] exI [of _ e] exI [of _ "flip b"]) simp
qed

lemma fill_one:
  assumes "filling q k" and "k < event_capacity"
  shows "\<exists>q'. query_step\<^sup>*\<^sup>* q q' \<and> filling q' (Suc k)"
proof -
  from flap_once [OF assms(1)] obtain q1 e b where q1: "query_step\<^sup>*\<^sup>* q q1" "map_of (qy_tasks q1) ''flap'' = Some (Sending b [e])"
      "\<forall>n. n \<noteq> ''flap'' \<longrightarrow> map_of (qy_tasks q1) n = map_of (qy_tasks q) n" "flaps b"
      "qy_channel q1 = qy_channel q" "qy_wait q1 = qy_wait q" "qy_todo q1 = qy_todo q" by blast
  let ?q = "qy_set ''flap'' (AtSelect b) (q1\<lparr>qy_channel := qy_channel q1 @ [e]\<rparr>)"
  have "query_react (Emits ''flap'') q1 = Some ?q" using q1 assms by (simp add: to_send_def filling_def)
  from rtranclp_trans [OF q1(1) react_run [OF this]] show ?thesis
    using assms(1) q1 by (intro exI [of _ ?q]) (simp add: filling_def)
qed

lemma fill_all: "filling q 0 \<Longrightarrow> k \<le> event_capacity \<Longrightarrow> \<exists>q'. query_step\<^sup>*\<^sup>* q q' \<and> filling q' k"
proof (induction k)
  case (Suc k)
  then obtain q1 where "query_step\<^sup>*\<^sup>* q q1" "filling q1 k" by auto
  with fill_one [of q1 k] Suc.prems(2) show ?case by (meson Suc_le_lessD rtranclp_trans)
qed auto

lemma run_reach: "query_step\<^sup>*\<^sup>* q q' \<Longrightarrow> reach query_init query_step q \<Longrightarrow> reach query_init query_step q'"
  by (induction rule: rtranclp_induct) (auto intro: reach_step)

text \<open>
  C11. Asking the checks for their status ends exactly if there is room for what they must send first:
  at any point of the query, counting the events in the channel of 256 and those that the checks
  still to answer have to send before they come back to their \<open>select!\<close> (the unsent ones, and one for
  a first probe that is running), the query can still end if and only if they are at most 256. If
  they are more, it never ends, whatever happens, and with it the daemon serves nothing any more.
\<close>

theorem query_ends_iff:
  assumes "reach query_init query_step q"
  shows "(\<exists>q'. query_step\<^sup>*\<^sup>* q q' \<and> query_done q') \<longleftrightarrow>
    length (qy_channel q) + sum_list (map (\<lambda>n. case map_of (qy_tasks q) n of Some t \<Rightarrow> must_send t | None \<Rightarrow> 0) (remaining q)) \<le> 256"
proof -
  have inv: "query_inv q" using asking.reach_inv [OF assms] .
  have eq: "length (qy_channel q) + sum_list (map (\<lambda>n. case map_of (qy_tasks q) n of Some t \<Rightarrow> must_send t | None \<Rightarrow> 0) (remaining q)) = pressure q"
    by (simp add: pressure_def owed_def burden_def [abs_def])
  have "\<exists>q'. query_step\<^sup>*\<^sup>* q q' \<and> query_done q'" if p: "pressure q \<le> event_capacity"
  proof (cases "qy_wait q")
    case None
    from can_end [OF inv None p] show ?thesis .
  next
    case (Some n)
    from finish_wait [OF inv Some p] obtain q1 where q1: "query_step\<^sup>*\<^sup>* q q1" "qy_wait q1 = None" "pressure q1 \<le> event_capacity" by blast
    from can_end [OF _ q1(2,3)] run_inv [OF q1(1) inv] q1(1) show ?thesis by (meson rtranclp_trans)
  qed
  moreover have "pressure q \<le> event_capacity" if "query_step\<^sup>*\<^sup>* q q'" "query_done q'" for q'
    using run_inv [OF that(1) inv] done_pressure [of q'] that(2) by simp
  ultimately show ?thesis unfolding eq by (auto simp: event_capacity_def)
qed

definition busy_check :: check_actor where
  "busy_check = (check_run 0 ''c'' (check_config_default\<lparr>chk_threshold := Some 1\<rparr>) [] Up)\<lparr>ck_phase := Probing, ck_first_run := False\<rparr>"

text \<open>Two checks, one slow and one flapping, and an empty channel: a run after which the query never ends.\<close>

theorem query_ends_iff_witness:
  "\<exists>q0 q. query_init q0 \<and> qy_channel q0 = [] \<and> length (qy_tasks q0) = 2 \<and> query_step\<^sup>*\<^sup>* q0 q \<and>
     \<not> (\<exists>q'. query_step\<^sup>*\<^sup>* q q' \<and> query_done q')"
proof -
  let ?a = busy_check
  define q0 where "q0 = \<lparr> qy_tasks = [(''slow'', InProbe ?a), (''flap'', AtSelect ?a)], qy_channel = [],
    qy_todo = [''slow'', ''flap''], qy_wait = None, qy_infos = [] \<rparr>"
  have init: "query_init q0"
    unfolding query_init_def by (simp add: q0_def im_wf_def) (rule exI [of _ "[]"], simp)
  define q1 where "q1 = q0\<lparr>qy_todo := [''flap''], qy_wait := Some ''slow''\<rparr>"
  have s1: "query_step\<^sup>*\<^sup>* q0 q1" by (rule react_run [of Ask]) (simp add: q0_def q1_def)
  have "filling q1 0"
    by (simp add: filling_def q0_def q1_def busy_check_def flaps_def check_run_def check_threshold_def)
  then obtain q2 where q2: "query_step\<^sup>*\<^sup>* q1 q2" "filling q2 256" using fill_all [of q1 256] by (auto simp: event_capacity_def)
  from flap_once [OF q2(2)] obtain q3 e b where q3: "query_step\<^sup>*\<^sup>* q2 q3" "map_of (qy_tasks q3) ''flap'' = Some (Sending b [e])"
      "\<forall>n. n \<noteq> ''flap'' \<longrightarrow> map_of (qy_tasks q3) n = map_of (qy_tasks q2) n"
      "qy_channel q3 = qy_channel q2" "qy_wait q3 = qy_wait q2" "qy_todo q3 = qy_todo q2" by blast
  have run: "query_step\<^sup>*\<^sup>* q0 q3" using s1 q2(1) q3(1) by (meson rtranclp_trans)
  have "\<not> (\<exists>q'. query_step\<^sup>*\<^sup>* q3 q' \<and> query_done q')"
    unfolding query_ends_iff [OF run_reach [OF run reach_init [of query_init, OF init]]]
    using q2(2) q3 by (auto simp: remaining_def filling_def)
  with run init show ?thesis by (intro exI [of _ q0] exI [of _ q3]) (simp add: q0_def)
qed

subsection \<open>The answer\<close>

definition query_of :: "string list \<Rightarrow> overlord \<Rightarrow> query" where
  "query_of names ov = \<lparr>
     qy_tasks = map (\<lambda>(n, e). (n, AtSelect (ke_actor e))) (ov_checks ov), qy_channel = ov_check_events ov,
     qy_todo = filter (\<lambda>n. names = [] \<or> n \<in> set names) (im_keys (ov_checks ov)), qy_wait = None, qy_infos = [] \<rparr>"

lemma im_insert_mid: "n \<notin> fst ` set pre \<Longrightarrow> im_insert n v (pre @ (n, x) # post) = pre @ (n, v) # post"
  by (induction pre) auto

lemma query_check_idle: "ke_mail e = [] \<Longrightarrow> query_check cx e =
    (if takes_commands (ke_actor e)
     then (Some (case ck_phase (ke_actor e) of Delaying _ \<Rightarrow> delay_info (ke_actor e) | _ \<Rightarrow> loop_info (cx_mono cx) (ke_actor e)),
           e\<lparr>ke_actor := check_command (cx_mono cx) (Some GetStatus) (ke_actor e), ke_mail := []\<rparr>)
     else (None, e\<lparr>ke_actor := ke_actor e, ke_mail := []\<rparr>))"
  by (simp add: query_check_def takes_commands_def Let_def)

definition asked :: "ctx \<Rightarrow> string list \<Rightarrow> string \<times> chk_entry \<Rightarrow> string \<times> chk_entry" where
  "asked cx names ne = (case ne of (n, e) \<Rightarrow> (n, if names = [] \<or> n \<in> set names then snd (query_check cx e) else e))"

definition told :: "ctx \<Rightarrow> string list \<Rightarrow> string \<times> chk_entry \<Rightarrow> check_info option" where
  "told cx names ne = (case ne of (n, e) \<Rightarrow> if names = [] \<or> n \<in> set names then fst (query_check cx e) else None)"

abbreviation idle_task :: "string \<times> chk_entry \<Rightarrow> string \<times> check_task" where
  "idle_task ne \<equiv> (fst ne, AtSelect (ke_actor (snd ne)))"

lemma ask_all:
  assumes "distinct (map fst pre @ map fst es)" and "\<forall>ne \<in> set es. ke_mail (snd ne) = []"
  shows "query_step\<^sup>*\<^sup>*
    \<lparr> qy_tasks = pre @ map idle_task es, qy_channel = ch, qy_todo = filter (\<lambda>n. names = [] \<or> n \<in> set names) (map fst es),
       qy_wait = None, qy_infos = xs \<rparr>
    \<lparr> qy_tasks = pre @ map (\<lambda>ne. idle_task (asked cx names ne)) es, qy_channel = ch, qy_todo = [], qy_wait = None,
       qy_infos = xs @ List.map_filter (told cx names) es \<rparr>"
  using assms
proof (induction es arbitrary: pre xs)
  case Nil
  then show ?case by (simp add: List.map_filter_simps)
next
  case (Cons ne es)
  obtain n e where ne: "ne = (n, e)" by (cases ne)
  let ?a = "ke_actor e" and ?now = "cx_mono cx" and ?wanted = "\<lambda>n. names = [] \<or> n \<in> set names"
  let ?q = "\<lambda>m todo w xs. \<lparr> qy_tasks = m, qy_channel = ch, qy_todo = todo, qy_wait = w, qy_infos = xs \<rparr>"
  let ?b = "snd (idle_task (asked cx names ne))" and ?is = "xs @ (case told cx names ne of Some i \<Rightarrow> [i] | None \<Rightarrow> [])"
  have pre: "n \<notin> fst ` set pre" using Cons.prems(1) ne by auto
  then have none: "map_of pre n = None" by (simp add: map_of_eq_None_iff)
  have mail: "ke_mail e = []" using Cons.prems(2) ne by simp
  let ?todo = "filter ?wanted (map fst es)" and ?m = "pre @ (n, AtSelect ?a) # map idle_task es"
  have "query_step\<^sup>*\<^sup>* (?q ?m (filter ?wanted (map fst (ne # es))) None xs) (?q (pre @ (n, ?b) # map idle_task es) ?todo None ?is)"
  proof (cases "?wanted n")
    case False
    then show ?thesis by (simp add: ne asked_def told_def)
  next
    case True
    show ?thesis
    proof (cases "takes_commands ?a")
      case False
      have "query_step\<^sup>*\<^sup>* (?q ?m (n # ?todo) None xs) (?q ?m ?todo None xs)"
        by (rule react_run [of Ask]) (simp add: map_add_def none False)
      with True False mail show ?thesis
        by (simp add: ne asked_def told_def query_check_idle)
    next
      case takes_now: True
      let ?i = "case ck_phase ?a of Delaying _ \<Rightarrow> delay_info ?a | _ \<Rightarrow> loop_info ?now ?a"
      have "query_step\<^sup>*\<^sup>* (?q ?m (n # ?todo) None xs) (?q ?m ?todo (Some n) xs)"
        by (rule react_run [of Ask]) (simp add: map_add_def none takes_now)
      moreover have "query_step\<^sup>*\<^sup>* (?q ?m ?todo (Some n) xs)
          (?q (pre @ (n, AtSelect (check_command ?now (Some GetStatus) ?a)) # map idle_task es) ?todo None (xs @ [?i]))"
        by (rule react_run [of "Answer ?now"]) (simp add: map_add_def none im_insert_mid [OF pre] takes_now qy_set_def)
      ultimately show ?thesis
        using True takes_now mail by (simp add: ne asked_def told_def query_check_idle)
    qed
  qed
  moreover have "query_step\<^sup>*\<^sup>* (?q ((pre @ [(n, ?b)]) @ map idle_task es) ?todo None ?is)
      (?q ((pre @ [(n, ?b)]) @ map (\<lambda>ne. idle_task (asked cx names ne)) es) [] None (?is @ List.map_filter (told cx names) es))"
    by (rule Cons.IH) (use Cons.prems ne in auto)
  ultimately have "query_step\<^sup>*\<^sup>* (?q ?m (filter ?wanted (map fst (ne # es))) None xs)
      (?q ((pre @ [(n, ?b)]) @ map (\<lambda>ne. idle_task (asked cx names ne)) es) [] None (?is @ List.map_filter (told cx names) es))"
    by simp
  moreover have "fst (asked cx names ne) = n" by (simp add: asked_def ne)
  ultimately show ?case by (cases "told cx names ne") (simp_all add: ne List.map_filter_simps)
qed

text \<open>
  Between the ticks of its checks, asking them is the one step the overlord's model makes of it:
  if every check is at its \<open>select!\<close> with an empty mailbox, the query can run to its end without a step
  of a check but the replies, and it ends with the very answers of \<open>query_checks\<close>, in the order of the
  checks and without those that have ended, and leaves the checks and the events as \<open>query_checks\<close> does.
\<close>

theorem query_answers:
  assumes "im_wf (ov_checks ov)" and "\<forall>(n, e) \<in> set (ov_checks ov). ke_mail e = []"
  shows "\<exists>q'. query_step\<^sup>*\<^sup>* (query_of names ov) q' \<and> query_done q' \<and> qy_infos q' = snd (query_checks cx names ov) \<and>
    qy_tasks q' = map (\<lambda>(n, e). (n, AtSelect (ke_actor e))) (ov_checks (fst (query_checks cx names ov))) \<and>
    qy_channel q' = ov_check_events (fst (query_checks cx names ov))"
proof -
  have idle: "map (\<lambda>(n, e). (n, AtSelect (ke_actor e))) es = map idle_task es" for es by (simp add: case_prod_beta)
  have atomic: "query_checks cx names ov = (ov\<lparr>ov_checks := map (asked cx names) (ov_checks ov)\<rparr>,
      List.map_filter (told cx names) (ov_checks ov))"
    by (simp add: query_checks_def Let_def asked_def [abs_def] told_def [abs_def])
  have "distinct (map fst [] @ map fst (ov_checks ov))" "\<forall>ne \<in> set (ov_checks ov). ke_mail (snd ne) = []"
    using assms by (auto simp: im_wf_def)
  from ask_all [OF this, where names = names and ch = "ov_check_events ov" and xs = "[]" and cx = cx]
  have "query_step\<^sup>*\<^sup>* (query_of names ov)
     \<lparr> qy_tasks = map (\<lambda>ne. idle_task (asked cx names ne)) (ov_checks ov), qy_channel = ov_check_events ov, qy_todo = [],
       qy_wait = None, qy_infos = List.map_filter (told cx names) (ov_checks ov) \<rparr>"
    unfolding query_of_def idle by simp
  then show ?thesis
    by - (rule exI, rule conjI, assumption, simp add: query_done_def atomic case_prod_beta)
qed

theorem query_answers_witness:
  "\<exists>q'. query_step\<^sup>*\<^sup>* (query_of [''c''] (demo_ov Active Active\<lparr>ov_checks :=
      [(''c'', \<lparr>ke_config = check_config_default, ke_actor = busy_check, ke_mail = []\<rparr>)]\<rparr>)) q' \<and>
    query_done q' \<and> qy_infos q' = [loop_info 0 busy_check]"
proof -
  let ?ov = "demo_ov Active Active\<lparr>ov_checks := [(''c'', \<lparr>ke_config = check_config_default, ke_actor = busy_check, ke_mail = []\<rparr>)]\<rparr>"
  have "snd (query_checks demo_cx [''c''] ?ov) = [loop_info 0 busy_check]"
    by (simp add: query_checks_def query_check_idle takes_commands_def busy_check_def demo_cx_def Let_def List.map_filter_simps)
  moreover obtain q' where "query_step\<^sup>*\<^sup>* (query_of [''c''] ?ov) q'" "query_done q'"
      "qy_infos q' = snd (query_checks demo_cx [''c''] ?ov)"
    using query_answers [of ?ov "[''c'']" demo_cx] by (auto simp: im_wf_def)
  ultimately show ?thesis by (intro exI [of _ q']) simp
qed

subsection \<open>What a query reports\<close>

fun task_actor :: "check_task \<Rightarrow> check_actor" where
  "task_actor (AtSelect a) = a"
| "task_actor (InProbe a) = a"
| "task_actor (Sending a es) = a"

definition own_names :: "query \<Rightarrow> bool" where
  "own_names q \<longleftrightarrow> (\<forall>n t. map_of (qy_tasks q) n = Some t \<longrightarrow> ck_name (task_actor t) = n)"

definition task_ended :: "query \<Rightarrow> string \<Rightarrow> bool" where
  "task_ended q n \<longleftrightarrow> (\<exists>a. map_of (qy_tasks q) n = Some (AtSelect a) \<and> ck_phase a \<in> {Returned, Panicked})"

text \<open>A reply describes its check as it is in a state of the query: at its \<open>select!\<close>, in the delay or in the loop.\<close>

definition describes :: "check_info \<Rightarrow> query \<Rightarrow> bool" where
  "describes i q \<longleftrightarrow> (\<exists>a. map_of (qy_tasks q) (ci_name i) = Some (AtSelect a) \<and>
     ci_level i = chk_level (ck_config a) \<and> ci_threshold i = check_threshold (ck_config a) \<and>
     (if ck_phase a = Probing then ci_status i = ck_status a \<and> ci_failures i = ck_failures a
      else (\<exists>d. ck_phase a = Delaying d) \<and> ci_status i = Up \<and> ci_failures i = 0 \<and> ci_next_run_in_secs i = None))"

lemma takes_commands_iff: "takes_commands a \<longleftrightarrow> ck_phase a \<notin> {Returned, Panicked}"
  by (simp add: takes_commands_def split: check_phase.splits)

lemma names_kept [simp]:
  "ck_name (check_command now c a) = ck_name a" "ck_name (delay_over now a) = ck_name a"
  "ck_name (begin_tick now a) = ck_name a" "ck_name (end_probe ok a) = ck_name a"
  "task_actor (to_send a es) = a"
  by (auto simp: check_command_def delay_over_def begin_tick_def end_probe_def report_first_run_def probe_passed_def
      probe_failed_def put_out_def send_event_def to_send_def Let_def split: option.splits check_cmd.splits)

lemma own_names_set: "own_names q \<Longrightarrow> ck_name (task_actor t) = n \<Longrightarrow> own_names (qy_set n t q)"
  by (auto simp: own_names_def im.get_put)

lemma own_names_fields [simp]:
  "own_names (q\<lparr>qy_wait := w, qy_infos := xs\<rparr>) = own_names q" "own_names (q\<lparr>qy_todo := ns, qy_wait := w\<rparr>) = own_names q"
  "own_names (q\<lparr>qy_channel := c\<rparr>) = own_names q" "own_names (q\<lparr>qy_wait := w\<rparr>) = own_names q"
  "own_names (q\<lparr>qy_todo := ns\<rparr>) = own_names q"
  by (simp_all add: own_names_def)

lemma task_ended_fields [simp]:
  "task_ended (q\<lparr>qy_wait := w, qy_infos := xs\<rparr>) = task_ended q" "task_ended (q\<lparr>qy_todo := ns, qy_wait := w\<rparr>) = task_ended q"
  "task_ended (q\<lparr>qy_channel := c\<rparr>) = task_ended q" "task_ended (q\<lparr>qy_wait := w\<rparr>) = task_ended q"
  "task_ended (q\<lparr>qy_todo := ns\<rparr>) = task_ended q"
  by (simp_all add: task_ended_def fun_eq_iff)

lemma task_ended_set: "task_ended q m \<Longrightarrow> \<not> task_ended q n \<Longrightarrow> task_ended (qy_set n t q) m"
  by (auto simp: task_ended_def im.get_put)

lemma own_names_react: "query_react i q = Some q' \<Longrightarrow> own_names q \<Longrightarrow> own_names q'"
proof -
  assume r: "query_react i q = Some q'" and o: "own_names q"
  have at: "map_of (qy_tasks q) n = Some t \<Longrightarrow> ck_name (task_actor t) = n" for n t using o by (simp add: own_names_def)
  show ?thesis
    using r o by (cases i) (auto intro!: own_names_set dest!: at split: option.splits check_task.splits list.splits if_splits)
qed

lemma task_ended_react: "query_react i q = Some q' \<Longrightarrow> task_ended q m \<Longrightarrow> task_ended q' m"
proof -
  assume r: "query_react i q = Some q'" and e: "task_ended q m"
  have "\<not> task_ended q n" if "map_of (qy_tasks q) n = Some t" "\<forall>a. t = AtSelect a \<longrightarrow> takes_commands a" for n t
    using that by (auto simp: task_ended_def takes_commands_iff)
  with r e show ?thesis
    by (cases i) (auto intro!: task_ended_set simp: takes_commands_iff
        split: option.splits check_task.splits list.splits check_phase.splits if_splits)
qed

lemma info_describes:
  assumes "map_of (qy_tasks q) n = Some (AtSelect a)" and "ck_name a = n" and "takes_commands a"
  shows "describes (case ck_phase a of Delaying _ \<Rightarrow> delay_info a | _ \<Rightarrow> loop_info now a) q"
    and "ci_name (case ck_phase a of Delaying _ \<Rightarrow> delay_info a | _ \<Rightarrow> loop_info now a) = n"
  using assms by (auto simp: describes_def takes_commands_iff delay_info_def loop_info_def Let_def split: check_phase.splits)

text \<open>A step asks nobody, passes over a check that has ended, or adds the reply of the next one.\<close>

lemma react_effect:
  assumes "query_react i q = Some q'" and "own_names q"
  obtains (same) "remaining q' = remaining q" "qy_infos q' = qy_infos q"
  | (passed) n where "remaining q = n # remaining q'" "qy_infos q' = qy_infos q" "task_ended q n"
  | (told) n info where "remaining q = n # remaining q'" "qy_infos q' = qy_infos q @ [info]" "ci_name info = n" "describes info q"
proof (cases i)
  case Ask
  with assms(1) show ?thesis
    by (auto simp: remaining_def task_ended_def takes_commands_iff intro: same passed
        split: option.splits list.splits check_task.splits if_splits)
next
  case (Answer now)
  with assms(1) obtain n a where n: "qy_wait q = Some n" "map_of (qy_tasks q) n = Some (AtSelect a)" "takes_commands a"
      "remaining q' = qy_todo q"
      "qy_infos q' = qy_infos q @ [case ck_phase a of Delaying _ \<Rightarrow> delay_info a | _ \<Rightarrow> loop_info now a]"
    by (auto simp: remaining_def split: option.splits check_task.splits if_splits)
  moreover have "ck_name a = n" using assms(2) n(2) unfolding own_names_def by (metis task_actor.simps(1))
  ultimately show ?thesis using info_describes [of q n a now] by (intro told) (auto simp: remaining_def)
next
  case ReplyDropped
  with assms(1) obtain n a where "qy_wait q = Some n" "map_of (qy_tasks q) n = Some (AtSelect a)" "\<not> takes_commands a"
      "q' = q\<lparr>qy_wait := None\<rparr>"
    by (auto split: option.splits check_task.splits if_splits)
  then show ?thesis by (intro passed [of n]) (auto simp: remaining_def task_ended_def takes_commands_iff)
qed (use assms(1) in \<open>auto intro!: same simp: remaining_def split: option.splits check_task.splits list.splits if_splits\<close>)

definition told_in_order :: "string list \<Rightarrow> query \<Rightarrow> bool" where
  "told_in_order todo q \<longleftrightarrow> (\<exists>past. todo = past @ remaining q \<and> subseq (map ci_name (qy_infos q)) past \<and>
     (\<forall>n \<in> set past. n \<notin> ci_name ` set (qy_infos q) \<longrightarrow> task_ended q n))"

lemma told_react:
  assumes "told_in_order todo q" and "query_react i q = Some q'" and "own_names q"
  shows "told_in_order todo q'"
proof -
  from assms(1) obtain past where past: "todo = past @ remaining q" "subseq (map ci_name (qy_infos q)) past"
      "\<forall>n \<in> set past. n \<notin> ci_name ` set (qy_infos q) \<longrightarrow> task_ended q n"
    unfolding told_in_order_def by blast
  note stays = task_ended_react [OF assms(2)]
  from assms(2,3) show ?thesis
  proof (cases rule: react_effect)
    case same
    with past stays show ?thesis unfolding told_in_order_def by (intro exI [of _ past]) auto
  next
    case (passed n)
    with past stays show ?thesis unfolding told_in_order_def by (intro exI [of _ "past @ [n]"]) auto
  next
    case (told n info)
    with past stays show ?thesis
      unfolding told_in_order_def by (intro exI [of _ "past @ [n]"]) (auto intro: list_emb_append_mono)
  qed
qed

lemma query_report:
  assumes "query_step\<^sup>*\<^sup>* q0 q" and "query_init q0" and "own_names q0"
  shows "own_names q \<and> told_in_order (qy_todo q0) q \<and>
    (\<forall>info \<in> set (qy_infos q). \<exists>q1. query_step\<^sup>*\<^sup>* q0 q1 \<and> query_step\<^sup>*\<^sup>* q1 q \<and> describes info q1)"
  using assms(1)
proof (induction rule: rtranclp_induct)
  case base
  have "remaining q0 = qy_todo q0" "qy_infos q0 = []" using assms(2) by (simp_all add: query_init_def remaining_def)
  with assms(3) show ?case by (simp add: told_in_order_def)
next
  case (step q q')
  then obtain i where i: "query_react i q = Some q'" by (auto elim: query_stepE)
  from step.IH have own: "own_names q" by simp
  have infos: "info \<in> set (qy_infos q) \<or> describes info q" if "info \<in> set (qy_infos q')" for info
    using i own that by (cases rule: react_effect) auto
  have "\<exists>q1. query_step\<^sup>*\<^sup>* q0 q1 \<and> query_step\<^sup>*\<^sup>* q1 q' \<and> describes info q1" if "info \<in> set (qy_infos q')" for info
    using infos [OF that] step by (meson rtranclp.rtrancl_into_rtrancl r_into_rtranclp)
  with own_names_react [OF i own] told_react [OF _ i own] step.IH show ?case by blast
qed

text \<open>
  C12. What a query of the checks reports, over every interleaving with the checks: when it ends, there
  is at most one reply for each wanted check, in the order of the checks, and none for others; a
  wanted check without a reply has ended; and each reply tells what was true of its check at some
  moment of the query: its level and threshold, and its status and failures if it was probing (up and
  none, while it was still in its initial delay).
\<close>

theorem query_reports:
  assumes "query_init q0" and "qy_todo q0 = filter (\<lambda>n. names = [] \<or> n \<in> set names) (im_keys (qy_tasks q0))"
    and "\<forall>(n, t) \<in> set (qy_tasks q0). ck_name (task_actor t) = n"
    and "query_step\<^sup>*\<^sup>* q0 q" and "query_done q"
  shows "subseq (map ci_name (qy_infos q)) (im_keys (qy_tasks q0)) \<and> distinct (map ci_name (qy_infos q)) \<and>
    (\<forall>n \<in> set (im_keys (qy_tasks q0)). n \<in> ci_name ` set (qy_infos q) \<longrightarrow> names = [] \<or> n \<in> set names) \<and>
    (\<forall>n \<in> set (im_keys (qy_tasks q0)). (names = [] \<or> n \<in> set names) \<longrightarrow> n \<notin> ci_name ` set (qy_infos q) \<longrightarrow>
       (\<exists>a. map_of (qy_tasks q) n = Some (AtSelect a) \<and> ck_phase a \<in> {Returned, Panicked})) \<and>
    (\<forall>i \<in> set (qy_infos q). \<exists>q1 a. query_step\<^sup>*\<^sup>* q0 q1 \<and> query_step\<^sup>*\<^sup>* q1 q \<and>
       map_of (qy_tasks q1) (ci_name i) = Some (AtSelect a) \<and>
       ci_level i = chk_level (ck_config a) \<and> ci_threshold i = check_threshold (ck_config a) \<and>
       (if ck_phase a = Probing then ci_status i = ck_status a \<and> ci_failures i = ck_failures a
        else (\<exists>d. ck_phase a = Delaying d) \<and> ci_status i = Up \<and> ci_failures i = 0))"
proof -
  have own: "own_names q0" using assms(3) by (auto simp: own_names_def dest: map_of_SomeD)
  note rep = query_report [OF assms(4,1) own]
  have rest: "remaining q = []" using assms(5) by (simp add: query_done_def remaining_def)
  with rep have sub: "subseq (map ci_name (qy_infos q)) (qy_todo q0)"
      and missing: "\<forall>n \<in> set (qy_todo q0). n \<notin> ci_name ` set (qy_infos q) \<longrightarrow> task_ended q n"
    by (auto simp: told_in_order_def)
  have "subseq (qy_todo q0) (im_keys (qy_tasks q0))" unfolding assms(2) by (rule subseq_filter_left)
  then have all: "subseq (map ci_name (qy_infos q)) (im_keys (qy_tasks q0))" using sub subseq_order.trans by blast
  have "distinct (im_keys (qy_tasks q0))" using assms(1) by (simp add: query_init_def im_wf_def)
  then have dist: "distinct (map ci_name (qy_infos q))" using all by (auto simp: subseq_conv_nths intro: distinct_nthsI)
  have "set (map ci_name (qy_infos q)) \<subseteq> set (qy_todo q0)" using sub by (metis subseq_conv_nths set_nths_subset)
  then have in_todo: "ci_name ` set (qy_infos q) \<subseteq> set (qy_todo q0)" by simp
  from rep have told: "\<forall>i \<in> set (qy_infos q). \<exists>q1. query_step\<^sup>*\<^sup>* q0 q1 \<and> query_step\<^sup>*\<^sup>* q1 q \<and> describes i q1" by blast
  show ?thesis
  proof (intro conjI all dist ballI impI)
    fix i assume "i \<in> set (qy_infos q)"
    with told obtain q1 where "query_step\<^sup>*\<^sup>* q0 q1" "query_step\<^sup>*\<^sup>* q1 q" "describes i q1" by blast
    then show "\<exists>q1 a. query_step\<^sup>*\<^sup>* q0 q1 \<and> query_step\<^sup>*\<^sup>* q1 q \<and> map_of (qy_tasks q1) (ci_name i) = Some (AtSelect a) \<and>
       ci_level i = chk_level (ck_config a) \<and> ci_threshold i = check_threshold (ck_config a) \<and>
       (if ck_phase a = Probing then ci_status i = ck_status a \<and> ci_failures i = ck_failures a
        else (\<exists>d. ck_phase a = Delaying d) \<and> ci_status i = Up \<and> ci_failures i = 0)"
      unfolding describes_def by (metis (full_types))
  qed (use in_todo missing assms(2) in \<open>auto simp: task_ended_def\<close>)
qed

theorem query_reports_witness:
  "\<exists>q0 q i. query_init q0 \<and> im_keys (qy_tasks q0) = [''gone'', ''c''] \<and> query_step\<^sup>*\<^sup>* q0 q \<and> query_done q \<and>
     map ci_name (qy_infos q) = [''c''] \<and> qy_infos q = [i] \<and> ci_status i = Up \<and>
     (\<exists>a. map_of (qy_tasks q) ''gone'' = Some (AtSelect a) \<and> ck_phase a \<in> {Returned, Panicked})"
proof -
  let ?a = busy_check and ?g = "busy_check\<lparr>ck_name := ''gone'', ck_phase := Returned\<rparr>"
  define q0 where "q0 = \<lparr> qy_tasks = [(''gone'', AtSelect ?g), (''c'', AtSelect ?a)], qy_channel = [],
    qy_todo = [''gone'', ''c''], qy_wait = None, qy_infos = [] \<rparr>"
  have init: "query_init q0"
    unfolding query_init_def by (simp add: q0_def im_wf_def) (rule exI [of _ "[]"], simp)
  have a: "takes_commands ?a" "\<not> takes_commands ?g" "ck_name ?a = ''c''" "ck_phase ?a = Probing" "ck_status ?a = Up"
    by (simp_all add: takes_commands_iff busy_check_def check_run_def)
  define q1 where "q1 = q0\<lparr>qy_todo := [''c'']\<rparr>"
  define q2 where "q2 = q1\<lparr>qy_todo := [], qy_wait := Some ''c''\<rparr>"
  define q3 where "q3 = qy_set ''c'' (AtSelect (check_command 0 (Some GetStatus) ?a)) (q2\<lparr>qy_wait := None, qy_infos := [loop_info 0 ?a]\<rparr>)"
  have "query_step\<^sup>*\<^sup>* q0 q1" by (rule react_run [of Ask]) (simp add: q0_def q1_def a)
  also have "query_step\<^sup>*\<^sup>* q1 q2" by (rule react_run [of Ask]) (simp add: q0_def q1_def q2_def a)
  also have "query_step\<^sup>*\<^sup>* q2 q3" by (rule react_run [of "Answer 0"]) (simp add: q0_def q1_def q2_def q3_def a)
  finally have run: "query_step\<^sup>*\<^sup>* q0 q3" .
  have dn: "query_done q3" by (simp add: q3_def q2_def query_done_def)
  have "map_of (qy_tasks q0) ''c'' = Some (AtSelect ?a)" by (simp add: q0_def)
  have infos: "qy_infos q3 = [loop_info 0 ?a]" by (simp add: q3_def)
  have i: "ci_name (loop_info 0 ?a) = ''c''" "ci_status (loop_info 0 ?a) = Up" by (simp_all add: loop_info_def Let_def a)
  have "\<forall>n \<in> set (im_keys (qy_tasks q0)). ([] = ([] :: string list) \<or> n \<in> set []) \<longrightarrow> n \<notin> ci_name ` set (qy_infos q3) \<longrightarrow>
      (\<exists>a. map_of (qy_tasks q3) n = Some (AtSelect a) \<and> ck_phase a \<in> {Returned, Panicked})"
    by (rule query_reports [OF init _ _ run dn, THEN conjunct2, THEN conjunct2, THEN conjunct2, THEN conjunct1])
      (simp_all add: q0_def a)
  moreover have "''gone'' \<in> set (im_keys (qy_tasks q0))" "''gone'' \<notin> ci_name ` set (qy_infos q3)"
    by (simp_all add: q0_def infos i)
  ultimately have "\<exists>a. map_of (qy_tasks q3) ''gone'' = Some (AtSelect a) \<and> ck_phase a \<in> {Returned, Panicked}" by blast
  with infos i init run dn show ?thesis
    by (intro exI [of _ q0] exI [of _ q3] exI [of _ "loop_info 0 ?a"]) (simp add: q0_def)
qed

end
