(* ===== verification/EndToEnd.thy ===== *)
theory EndToEnd
  imports ApiProps ServiceSpec
begin

text \<open>
  A stop request from the router to the process: the endpoint, the overlord's command, the actor, and
  what the actor makes of the end of the process and of the kill deadline.
\<close>

lemma no_replies_in_kills: "\<forall>e \<in> set ks. \<exists>p sig. e = EKill p sig \<Longrightarrow>
    List.map_filter (\<lambda>e. case e of EReply r \<Rightarrow> Some r | _ \<Rightarrow> None) ks = []"
  by (induction ks) auto

lemma stopped_actor:
  assumes "a_state a = Active" and "a_child a = Some pid" and "a_running a" and "\<not> a_pending_restart a"
  shows "a_state (handle_stop os a) = Stopping" "a_child (handle_stop os a) = Some pid" "a_running (handle_stop os a)"
    "a_stop_deadline (handle_stop os a) = Some (kill_delay a)" "\<not> a_pending_restart (handle_stop os a)"
    "\<exists>ks. a_trace (handle_stop os a) = a_trace a @ EKill (- sint pid) (stop_signal_of a) # ks"
    "events_between n a (handle_stop os a) = [\<lparr>ev_service = n, ev_kind = StateChanged Stopping\<rparr>]"
    "reply_between a (handle_stop os a) = Some (Inr ())"
proof -
  obtain ks where ks: "a_trace (send_stop_signal os a) = a_trace a @ ks" "\<forall>e \<in> set ks. \<exists>p sig. e = EKill p sig"
    using stop_signal_trace by blast
  then have "a_trace (handle_stop os a) = a_trace a @ (ks @ [EServiceActive False, EEvent (StateChanged Stopping), EReply (Inr ())])"
    using assms(1) by (simp add: handle_stop_def actor_simps)
  then show "events_between n a (handle_stop os a) = [\<lparr>ev_service = n, ev_kind = StateChanged Stopping\<rparr>]"
      "reply_between a (handle_stop os a) = Some (Inr ())"
    using events_between_append no_events_in_kills [OF ks(2)] no_replies_in_kills [OF ks(2)]
    by (simp_all add: reply_between_def)
  show "\<exists>ks. a_trace (handle_stop os a) = a_trace a @ EKill (- sint pid) (stop_signal_of a) # ks"
    using assms by (simp add: handle_stop_def send_stop_signal_def Let_def actor_simps)
qed (use assms in \<open>simp_all add: handle_stop_def actor_simps\<close>)

text \<open>The exit of a stopped service.\<close>

lemma stopped_exit:
  assumes "a_state b = Stopping" and "\<not> a_pending_restart b"
  shows "a_state (handle_child_exit os x b) = Inactive" "a_child (handle_child_exit os x b) = None"
    "events_between n b (handle_child_exit os x b) =
      [\<lparr>ev_service = n, ev_kind = ProcessExited (exit_success x)\<rparr>, \<lparr>ev_service = n, ev_kind = StateChanged Inactive\<rparr>]"
proof -
  have t: "a_trace (handle_child_exit os x b) = a_trace b @
      [EEvent (ProcessExited (exit_success x)), EServiceActive False, EEvent (StateChanged Inactive)]"
    using assms by (simp add: handle_child_exit_def Let_def actor_simps)
  show "events_between n b (handle_child_exit os x b) =
      [\<lparr>ev_service = n, ev_kind = ProcessExited (exit_success x)\<rparr>, \<lparr>ev_service = n, ev_kind = StateChanged Inactive\<rparr>]"
    unfolding events_between_append [OF t] by simp
qed (use assms in \<open>simp_all add: handle_child_exit_def Let_def actor_simps\<close>)

lemma deadline_kills:
  assumes "a_child b = Some pid"
  shows "\<exists>ks. a_trace (dispatch os OnKillDeadline b) = a_trace b @ EKill (- sint pid) SIGKILL # ks \<and>
    events_between n b (dispatch os OnKillDeadline b) = []"
proof -
  have "\<exists>ks. a_trace (dispatch os OnKillDeadline b) = a_trace b @ EKill (- sint pid) SIGKILL # ks \<and>
      (\<forall>e \<in> set ks. \<exists>p sig. e = EKill p sig)"
    using assms by (auto simp: handle_kill_deadline_def send_sigkill_def Let_def actor_simps split: option.split)
  then obtain ks where ks: "a_trace (dispatch os OnKillDeadline b) = a_trace b @ EKill (- sint pid) SIGKILL # ks"
      "\<forall>e \<in> set ks. \<exists>p sig. e = EKill p sig"
    by blast
  from events_between_append [OF ks(1)] no_events_in_kills [OF ks(2)] ks(1) show ?thesis by simp
qed

lemma mail_stays_empty: "se_mail e = [] \<Longrightarrow> e\<lparr>se_actor := x, se_mail := []\<rparr> = e\<lparr>se_actor := x\<rparr>"
  by (cases e) simp

lemma stop_command:
  assumes "map_of (ov_services ov) n = Some e" and "se_mail e = []" and "a_running (se_actor e)"
    and "a_state (se_actor e) = Active" and "a_child (se_actor e) = Some pid" and "\<not> a_pending_restart (se_actor e)"
    and "length (ov_events ov) < event_capacity"
  shows "handle_services_action cx ActStop [n] ov =
    (let c = change_record cx ActStop [n] [] (ov_change_counter ov + 1) in
     Finished (ov\<lparr>ov_services := im_insert n (e\<lparr>se_actor := handle_stop (cx_os cx n) (se_actor e)\<rparr>) (ov_services ov),
       ov_events := ov_events ov @ [\<lparr>ev_service = n, ev_kind = StateChanged Stopping\<rparr>],
       ov_trace := ov_trace ov @ [SentSvc n CmdStop],
       ov_change_counter := ov_change_counter ov + 1, ov_changes := ov_changes ov @ [c]\<rparr>, c))"
proof -
  note a = stopped_actor [OF assms(4,5,3,6), where os = "cx_os cx n"]
  show ?thesis
    using assms a(7,8)
    by (simp add: handle_services_action_def service_action_one_def svc_cmd_result_def Let_def ov_log_def
        mail_stays_empty)
qed

subsection \<open>Until the process ends\<close>

text \<open>
  What may happen to a daemon that sends the service no further command: a step of the service's own
  actor, or any other step of the daemon (commands and events of others, other actors, checks) that
  leaves its actor and its mailbox alone.
\<close>

inductive undisturbed :: "string \<Rightarrow> overlord \<Rightarrow> overlord \<Rightarrow> bool" for n where
  own_step: "actor_step cx n ev ov = Some ov' \<Longrightarrow> undisturbed n ov ov'"
| other_step: "daemon_step (Serving ov) (Serving ov') \<Longrightarrow> map_of (ov_services ov) n = Some e \<Longrightarrow>
    map_of (ov_services ov') n = Some e' \<Longrightarrow> se_actor e' = se_actor e \<Longrightarrow> se_mail e' = se_mail e \<Longrightarrow> undisturbed n ov ov'"

text \<open>The service is being stopped, with SIGKILL sent once the deadline has passed, or has stopped.\<close>

definition winding_down :: "u32 \<Rightarrow> svc_entry \<Rightarrow> bool" where
  "winding_down pid e \<longleftrightarrow> se_mail e = [] \<and> a_running (se_actor e) \<and> \<not> a_pending_restart (se_actor e) \<and> a_backoff_sleep (se_actor e) = None \<and>
     (a_state (se_actor e) = Stopping \<and> a_child (se_actor e) = Some pid \<and>
        (a_stop_deadline (se_actor e) = None \<longrightarrow> EKill (- sint pid) SIGKILL \<in> set (a_trace (se_actor e))) \<or>
      a_state (se_actor e) = Inactive \<and> a_child (se_actor e) = None \<and> a_stop_deadline (se_actor e) = None)"

lemma entry_step_dispatch: "entry_step os n ev room e = Some (e', evs) \<Longrightarrow> se_mail e = [] \<Longrightarrow>
    se_actor e' = dispatch os ev (se_actor e) \<and> se_mail e' = [] \<and> enabled (se_actor e) ev \<and> (\<forall>c. ev \<noteq> OnCmd c) \<and> ev \<noteq> OnChannelClosed"
  by (auto simp: entry_step_def Let_def split: loop_event.splits if_splits)

lemma winding_own:
  assumes "entry_step os n ev room e = Some (e', evs)" and w: "winding_down pid e"
  shows "winding_down pid e'"
proof -
  let ?a = "se_actor e"
  have m: "se_mail e = []" using w by (simp add: winding_down_def)
  note d = entry_step_dispatch [OF assms(1) m]
  then consider x where "ev = OnChildExit x" "a_child ?a \<noteq> None" | "ev = OnKillDeadline" "a_stop_deadline ?a \<noteq> None"
    using w by (cases ev) (auto simp: winding_down_def)
  then show ?thesis
  proof cases
    case 1
    then have "a_state ?a = Stopping" using w by (auto simp: winding_down_def)
    with 1 d w show ?thesis by (auto simp: winding_down_def handle_child_exit_def Let_def actor_simps)
  next
    case 2
    then have s: "a_state ?a = Stopping" "a_child ?a = Some pid" using w by (auto simp: winding_down_def)
    then have "EKill (- sint pid) SIGKILL \<in> set (a_trace (send_sigkill os ?a))" by (intro sigkill_sent)
    with 2 d w s show ?thesis by (auto simp: winding_down_def handle_kill_deadline_def actor_simps)
  qed
qed

lemma winding_run:
  assumes "(undisturbed n)\<^sup>*\<^sup>* ov ov2" and "map_of (ov_services ov) n = Some e" and "winding_down pid e"
  shows "\<exists>e2. map_of (ov_services ov2) n = Some e2 \<and> winding_down pid e2"
  using assms(1)
proof (induction rule: rtranclp_induct)
  case base
  with assms(2,3) show ?case by blast
next
  case (step ov1 ov2)
  then obtain e1 where e1: "map_of (ov_services ov1) n = Some e1" "winding_down pid e1" by blast
  from step.hyps(2) show ?case
  proof cases
    case (own_step cx ev)
    with e1 winding_own [of "cx_os cx n" n ev _ e1 _ _ pid] show ?thesis
      by (auto simp: actor_step_def split: option.splits)
  next
    case (other_step e e')
    with e1 show ?thesis by (auto simp: winding_down_def)
  qed
qed

lemma deadline_step:
  assumes "map_of (ov_services ov) n = Some e" and "winding_down pid e" and "a_stop_deadline (se_actor e) \<noteq> None"
  shows "\<exists>e' ks. actor_step cx n OnKillDeadline ov = Some (ov\<lparr>ov_services := im_insert n e' (ov_services ov)\<rparr>) \<and>
    a_trace (se_actor e') = a_trace (se_actor e) @ EKill (- sint pid) SIGKILL # ks"
proof -
  have c: "a_child (se_actor e) = Some pid" "se_mail e = []" "a_running (se_actor e)" using assms(2,3) by (auto simp: winding_down_def)
  from deadline_kills [OF c(1), of "cx_os cx n" n] assms(1,3) c show ?thesis
    by (intro exI [of _ "e\<lparr>se_actor := dispatch (cx_os cx n) OnKillDeadline (se_actor e)\<rparr>"])
      (auto simp: actor_step_def entry_step_def mail_stays_empty simp del: dispatch.simps)
qed

lemma exit_step:
  assumes "map_of (ov_services ov) n = Some e" and "winding_down pid e" and "a_state (se_actor e) = Stopping"
    and "length (ov_events ov) + 2 \<le> event_capacity"
  shows "\<exists>e'. actor_step cx n (OnChildExit x) ov = Some (ov\<lparr>ov_services := im_insert n e' (ov_services ov),
      ov_events := ov_events ov @ [\<lparr>ev_service = n, ev_kind = ProcessExited (exit_success x)\<rparr>,
        \<lparr>ev_service = n, ev_kind = StateChanged Inactive\<rparr>]\<rparr>) \<and> a_state (se_actor e') = Inactive \<and> a_child (se_actor e') = None"
proof -
  have c: "a_child (se_actor e) = Some pid" "se_mail e = []" "a_running (se_actor e)" "\<not> a_pending_restart (se_actor e)"
    using assms(2,3) by (auto simp: winding_down_def)
  have room: "Suc (Suc 0) \<le> event_capacity - length (ov_events ov)" using assms(4) by simp
  from stopped_exit [OF assms(3) c(4), where os = "cx_os cx n" and x = x] assms(1) c room show ?thesis
    by (intro exI [of _ "e\<lparr>se_actor := handle_child_exit (cx_os cx n) x (se_actor e)\<rparr>"])
      (simp add: actor_step_def entry_step_def mail_stays_empty Let_def)
qed

lemma winding_outcome:
  assumes "map_of (ov_services ov) n = Some e" and "winding_down pid e" and "(undisturbed n)\<^sup>*\<^sup>* ov ov2"
  shows "\<exists>e2. map_of (ov_services ov2) n = Some e2 \<and> se_mail e2 = [] \<and>
      (a_state (se_actor e2) = Inactive \<and> a_child (se_actor e2) = None \<or>
       a_state (se_actor e2) = Stopping \<and> a_child (se_actor e2) = Some pid \<and>
       (a_stop_deadline (se_actor e2) = None \<longrightarrow> EKill (- sint pid) SIGKILL \<in> set (a_trace (se_actor e2))) \<and>
       (a_stop_deadline (se_actor e2) \<noteq> None \<longrightarrow>
          (\<forall>cx. \<exists>e3 ks. actor_step cx n OnKillDeadline ov2 = Some (ov2\<lparr>ov_services := im_insert n e3 (ov_services ov2)\<rparr>) \<and>
             a_trace (se_actor e3) = a_trace (se_actor e2) @ EKill (- sint pid) SIGKILL # ks)) \<and>
       (length (ov_events ov2) + 2 \<le> 256 \<longrightarrow>
          (\<forall>cx x. \<exists>e3. actor_step cx n (OnChildExit x) ov2 = Some (ov2\<lparr>ov_services := im_insert n e3 (ov_services ov2),
              ov_events := ov_events ov2 @ [\<lparr>ev_service = n, ev_kind = ProcessExited (exit_success x)\<rparr>,
                \<lparr>ev_service = n, ev_kind = StateChanged Inactive\<rparr>]\<rparr>) \<and>
             a_state (se_actor e3) = Inactive \<and> a_child (se_actor e3) = None)))"
proof -
  from winding_run [OF assms(3,1,2)] obtain e2 where e2: "map_of (ov_services ov2) n = Some e2" "winding_down pid e2" by blast
  from deadline_step [OF e2] exit_step [OF e2] show ?thesis
    using e2 by (intro exI [of _ e2]) (auto simp: winding_down_def event_capacity_def)
qed

text \<open>
  C9. A stop request through the API, from the caller to the process. For a caller with write access
  and an active service with nothing queued for it, no restart pending, no backoff timer left armed
  and room for one event, the reply is a change that is done; by then the stop signal has gone to the
  service's process group, before anything else, the kill deadline is armed with the kill delay, and
  of the rest of the daemon only the event, the change and the log of commands are new: no other
  service is touched. From then on, whatever the daemon does as long as it sends the service no
  further command: the service is either still stopping with the same process, or inactive without
  one. While it is stopping, the deadline can fire until it has, and has sent SIGKILL to the same
  group when it has; and whenever and however the process ends, the actor takes the exit as soon as
  the channel has room for two events, becomes inactive and reports the exit and its new state.
\<close>

theorem api_stop_reaches_process:
  assumes "Write \<le> caller_access (ae_auth env) (ap_identities s) parts" and "ap_overlord s = Serving ov"
    and "map_of (ov_services ov) n = Some e" and "se_mail e = []" and "a_running (se_actor e)"
    and "a_state (se_actor e) = Active" and "a_child (se_actor e) = Some pid" and "\<not> a_pending_restart (se_actor e)"
    and "a_backoff_sleep (se_actor e) = None" and "length (ov_events ov) < 256"
  shows "\<exists>c b ov'. serve env parts (PostServices ActStop [n]) s = (Some (ApiOk (BodyChange c)), s\<lparr>ap_overlord := Serving ov'\<rparr>) \<and>
    ch_status c = Done \<and> ch_err c = None \<and>
    ov' = ov\<lparr>ov_services := im_insert n (e\<lparr>se_actor := b\<rparr>) (ov_services ov),
      ov_events := ov_events ov @ [\<lparr>ev_service = n, ev_kind = StateChanged Stopping\<rparr>],
      ov_trace := ov_trace ov @ [SentSvc n CmdStop],
      ov_change_counter := ov_change_counter ov + 1, ov_changes := ov_changes ov @ [c]\<rparr> \<and>
    (\<exists>ks. a_trace b = a_trace (se_actor e) @ EKill (- sint pid) (stop_signal_of (se_actor e)) # ks) \<and>
    a_state b = Stopping \<and> a_child b = Some pid \<and> a_stop_deadline b = Some (kill_delay (se_actor e)) \<and>
    (\<forall>ov2. (undisturbed n)\<^sup>*\<^sup>* ov' ov2 \<longrightarrow> (\<exists>e2. map_of (ov_services ov2) n = Some e2 \<and> se_mail e2 = [] \<and>
      (a_state (se_actor e2) = Inactive \<and> a_child (se_actor e2) = None \<or>
       a_state (se_actor e2) = Stopping \<and> a_child (se_actor e2) = Some pid \<and>
       (a_stop_deadline (se_actor e2) = None \<longrightarrow> EKill (- sint pid) SIGKILL \<in> set (a_trace (se_actor e2))) \<and>
       (a_stop_deadline (se_actor e2) \<noteq> None \<longrightarrow>
          (\<forall>cx. \<exists>e3 ks. actor_step cx n OnKillDeadline ov2 = Some (ov2\<lparr>ov_services := im_insert n e3 (ov_services ov2)\<rparr>) \<and>
             a_trace (se_actor e3) = a_trace (se_actor e2) @ EKill (- sint pid) SIGKILL # ks)) \<and>
       (length (ov_events ov2) + 2 \<le> 256 \<longrightarrow>
          (\<forall>cx x. \<exists>e3. actor_step cx n (OnChildExit x) ov2 = Some (ov2\<lparr>ov_services := im_insert n e3 (ov_services ov2),
              ov_events := ov_events ov2 @ [\<lparr>ev_service = n, ev_kind = ProcessExited (exit_success x)\<rparr>,
                \<lparr>ev_service = n, ev_kind = StateChanged Inactive\<rparr>]\<rparr>) \<and>
             a_state (se_actor e3) = Inactive \<and> a_child (se_actor e3) = None)))))"
proof -
  let ?cx = "ae_ctx env" and ?b = "handle_stop (cx_os (ae_ctx env) n) (se_actor e)"
  let ?c = "change_record ?cx ActStop [n] [] (ov_change_counter ov + 1)"
  define ov' where "ov' = ov\<lparr>ov_services := im_insert n (e\<lparr>se_actor := ?b\<rparr>) (ov_services ov),
      ov_events := ov_events ov @ [\<lparr>ev_service = n, ev_kind = StateChanged Stopping\<rparr>],
      ov_trace := ov_trace ov @ [SentSvc n CmdStop],
      ov_change_counter := ov_change_counter ov + 1, ov_changes := ov_changes ov @ [?c]\<rparr>"
  note b = stopped_actor [OF assms(6,7,5,8), where os = "cx_os (ae_ctx env) n"]
  have mine: "map_of (ov_services ov') n = Some (e\<lparr>se_actor := ?b\<rparr>)" by (simp add: ov'_def)
  have "a_backoff_sleep ?b = None" using assms(6,9) by (simp add: handle_stop_def actor_simps)
  then have "winding_down pid (e\<lparr>se_actor := ?b\<rparr>)" using b(1-5) assms(4) by (simp add: winding_down_def)
  note outcome = winding_outcome [OF mine this]
  have "serve env parts (PostServices ActStop [n]) s = (Some (ApiOk (BodyChange ?c)), s\<lparr>ap_overlord := Serving ov'\<rparr>)"
    using stop_command [OF assms(3,4,5,6,7,8)] assms(1,2,10)
    by (simp add: serve_def services_action_def requiring_granted via_overlord_def ask_overlord_def handle_cmd_def
        Let_def ov'_def event_capacity_def)
  moreover have "ch_status ?c = Done" "ch_err ?c = None" by (simp_all add: change_record_def)
  ultimately show ?thesis using b(1,2,4,6) outcome by (intro exI [of _ ?c] exI [of _ ?b] exI [of _ ov']) (simp add: ov'_def)
qed

text \<open>A daemon with one running service, and no identities: every caller is an administrator.\<close>

definition stoppable :: svc_entry where
  "stoppable = (demo_entry ''s'' Active)\<lparr>se_actor := active_sleep\<rparr>"

definition one_service :: app_state where
  "one_service = \<lparr> ap_overlord = Serving ((demo_ov Active Active)\<lparr>ov_services := [(''s'', stoppable)]\<rparr>),
     ap_log_store = log_store_new 1, ap_identities = [], ap_metrics = metrics_new, ap_shutdown = [] \<rparr>"

theorem api_stop_reaches_process_witness:
  "\<exists>c ov b ks. serve demo_api_env \<lparr>rp_authorization = None, rp_peer_cert = None, rp_unix_peer = None\<rparr>
      (PostServices ActStop [''s'']) one_service = (Some (ApiOk (BodyChange c)), one_service\<lparr>ap_overlord := Serving ov\<rparr>) \<and>
    ch_status c = Done \<and> map_of (ov_services ov) ''s'' = Some (stoppable\<lparr>se_actor := b\<rparr>) \<and>
    a_trace b = EKill (- 7) SIGTERM # ks \<and> a_state b = Stopping"
proof -
  let ?p = "\<lparr>rp_authorization = None, rp_peer_cert = None, rp_unix_peer = None\<rparr>"
  let ?ov = "(demo_ov Active Active)\<lparr>ov_services := [(''s'', stoppable)]\<rparr>"
  have "Write \<le> caller_access (ae_auth demo_api_env) (ap_identities one_service) ?p"
    by (simp add: one_service_def caller_access_def identity_is_empty_def less_eq_identity_access_def)
  moreover have "ap_overlord one_service = Serving ?ov" by (simp add: one_service_def)
  moreover have "map_of (ov_services ?ov) ''s'' = Some stoppable" by simp
  moreover have "se_mail stoppable = []" "a_running (se_actor stoppable)" "a_state (se_actor stoppable) = Active"
      "a_child (se_actor stoppable) = Some 7" "\<not> a_pending_restart (se_actor stoppable)"
      "a_backoff_sleep (se_actor stoppable) = None"
    by (simp_all add: stoppable_def demo_entry_fields active_sleep_fields)
      (simp add: active_sleep_def actor_start_def actor_new_def sleep_cfg_def service_config_default_def)
  moreover have "length (ov_events ?ov) < 256" by (simp add: demo_ov_fields)
  moreover have "stop_signal_of (se_actor stoppable) = SIGTERM" "a_trace (se_actor stoppable) = []"
    by (simp_all add: stoppable_def active_sleep_fields stop_signal_of_def sleep_cfg_def service_config_default_def
      stop_signal_default_def)
  ultimately show ?thesis
    using api_stop_reaches_process [of demo_api_env one_service ?p ?ov "''s''" stoppable 7] by fastforce
qed

end
