(* ===== verification/Spec2Isabelle.thy ===== *)
theory Spec2Isabelle
  imports ServiceSpec ServiceBackoff ServiceProcs CheckProps AlertProps NoProxy HttpClient LogsProps Reaper Auth
    LoadPlan OverlordProps OverlordStart OverlordReload CheckFailure DaemonInv RelayFollow RelayK8sProps
    ApiProps ServerProps StartupProps ClientCmdProps CheckQueryProps EndToEnd
begin

text \<open>
  \<^bold>\<open>A model of vigil\<close>: the service supervisor \<open>vigild\<close>, its command line client \<open>vigil\<close> and the log
  relay \<open>vigil-log-relay\<close>, a Rust workspace under \<open>src/crates\<close> (\<open>vigil-types\<close>, \<open>vigild\<close>, \<open>vigil\<close>,
  \<open>vigil-log-relay\<close>). The definitions are translated from the source, one per function, method,
  task or type, under the source's names; all but the step relations compute.

  \<^bold>\<open>The program.\<close> The daemon reads a directory of YAML layers and merges them into a plan of
  services, checks and alerts. The \<^emph>\<open>overlord\<close> is one task that owns the plan; it spawns one task per
  service (an actor with one child process) and one per check, and serialises commands from the API,
  events of the service actors and events of the check actors. Service actors start, stop and
  restart their process, follow its exit policy and back off. Check actors probe and report changes
  of status; the overlord turns them into service commands and alerts, which a worker delivers over
  HTTP. Output of the services goes to a store of ring buffers, to push tasks and to followers. The
  HTTP API, over a Unix socket and TLS, resolves the caller to a level of access and talks to the
  overlord. The client sends requests to that API; the relay follows the daemon's log stream, or the
  pods of a Kubernetes cluster, and writes the lines to a TCP sink.

  \<^bold>\<open>The theories\<close>, in the order of their imports:

  \<^item> \<open>Prelude\<close>: insertion-ordered maps (\<open>IndexMap\<close>), strings as byte lists with the operations of
    \<open>str\<close> the source calls, and three interfaces: \<open>kv_store\<close> and \<open>kv_removal\<close> (lookup after insert
    and removal), \<open>invariant_system\<close> (initial states, steps, an invariant; \<open>reach\<close>) and
    \<open>doubling_delay\<close> (the capped reconnect delay). Each is interpreted on the program's own
    definitions in the theory that provides them.
  \<^item> \<open>Duration\<close> (\<open>vigild/src/duration.rs\<close>), \<open>PlanTypes\<close> and \<open>Plan\<close> (\<open>vigil-types/src/plan\<close>), \<open>LoadPlan\<close>
    (\<open>overlord/plan.rs\<close>): durations in 64-bit arithmetic with the exact grammar they accept; the
    configuration data; merging, equal to a reference that reads each field's last setting; loading
    in the order of the file names.
  \<^item> \<open>ProcUtil\<close> (\<open>process_util\<close>): shell words (quoting and parsing are inverse), user and group
    resolution, the \<open>pre_exec\<close> hook.
  \<^item> \<open>ApiTypes\<close> (\<open>vigil-types/src/api.rs\<close>, \<open>identity.rs\<close>, \<open>vigild/src/state.rs\<close>).
  \<^item> \<open>Service\<close> (\<open>vigild/src/service\<close>): the actor's state and every handler, \<open>dispatch\<close> for the body of
    its loop, \<open>svc_step\<close> for the loop. \<open>ServiceProps\<close>: its invariant. \<open>ServiceProcs\<close>: its processes (at
    most one alive, as long as nobody starts it during a backoff; what happens then).
    \<open>ServiceBackoff\<close>: the delays of a crash loop, when it ends (with the default factor) and when it
    never does (with the factor 1), one answer per request; the interface \<open>effect_weight\<close> counts
    effects along a run.
    \<open>ServiceSpec\<close>: exit policies, the stop sequence, and that events, gauges and snapshot mirror the
    state.
  \<^item> \<open>Check\<close>, \<open>CheckProps\<close> (\<open>vigild/src/check\<close>): the check task and the HTTP, TCP and exec probes; its
    status equals the reference computed from the outcomes and the threshold.
  \<^item> \<open>NoProxy\<close> (\<open>vigil-types/src/no_proxy\<close>, \<open>tls/proxy.rs\<close>), \<open>HttpClient\<close> (\<open>tls/proxy.rs\<close>, \<open>tls/cert.rs\<close>):
    exclusion lists and address ranges, the outgoing HTTP client.
  \<^item> \<open>Alert\<close>, \<open>AlertProps\<close> (\<open>vigild/src/alert\<close>): the sender with its bounded queue, payloads, retries.
  \<^item> \<open>Logs\<close>, \<open>LogsProps\<close> (\<open>vigild/src/logs\<close>): the store, its unlocked window, readers, push tasks,
    the follow stream.
  \<^item> \<open>Reaper\<close> (\<open>vigild/src/reaper.rs\<close>): statuses collected by PID 1 and handed to the waiters.
  \<^item> \<open>Auth\<close> (\<open>vigild/src/identity\<close>, \<open>api/auth\<close>): the identity store and the level of a caller.
  \<^item> \<open>Overlord\<close> (\<open>overlord/lifecycle.rs\<close>, \<open>events.rs\<close>), \<open>OverlordCmd\<close> (\<open>handlers.rs\<close>, \<open>mod.rs\<close>): the record
    \<open>overlord\<close> holds the actors themselves, with their mailboxes; every handler; \<open>daemon_step\<close> is
    the whole daemon: a command, an event, or a step of any live or removed actor.
    \<open>OverlordFrames\<close>: what a handler leaves alone. \<open>OverlordProps\<close>: dependencies and cascades.
    \<open>OverlordStart\<close>: when the first autostart hangs, also with the other actors running between its
    starts (\<open>autostart_run\<close>). \<open>OverlordReload\<close>: what a reload keeps.
    \<open>CheckFailure\<close>: the actions of a failed check. \<open>DaemonInv\<close>: the invariant of the whole daemon.
    \<open>CheckQuery\<close>, \<open>CheckQueryProps\<close>: \<open>query_checks\<close> against the check tasks in small steps (a probe, each
    event it sends, a request, its reply), when it can still end, what it reports over all
    interleavings, and that on idle checks it is the one-step \<open>query_checks\<close> of \<open>OverlordCmd\<close>.
  \<^item> \<open>MetricsStore\<close> (\<open>vigild/src/metrics\<close>): the store, driven by the effects the actors leave in their
    traces; the gauges agree with the actors' states, the counters with the processes started and the
    probes made.
  \<^item> \<open>Api\<close>, \<open>ApiProps\<close> (\<open>vigild/src/api\<close>): every endpoint on \<open>app_state\<close> (the daemon, the logs, the
    identities, the metrics, the queue to the main task); access levels, who can change the
    identities, changes and their numbers. \<open>EndToEnd\<close>: a stop request from its caller down to the
    process, and what becomes of it in every run that nobody disturbs with another command.
  \<^item> \<open>Server\<close>, \<open>ServerProps\<close> (\<open>server.rs\<close>, \<open>tls\<close>, \<open>main.rs\<close>): the control socket, step by step with every
    file system another process could see; certificates; the signal loop. \<open>Startup\<close>,
    \<open>StartupProps\<close> (\<open>main.rs\<close>, \<open>overlord::spawn\<close>): the start with every way it can fail.
  \<^item> \<open>Client\<close>, \<open>ClientCmds\<close>, \<open>ClientProps\<close>, \<open>ClientCmdProps\<close> (\<open>vigil/src\<close>): requests, transports, replies,
    commands and their output; a call, from the client through the router to the endpoint and back,
    is the endpoint's own result, unless its address does not parse.
  \<^item> \<open>Relay\<close>, \<open>RelayCli\<close>, \<open>RelayK8s\<close>, \<open>RelayProps\<close>, \<open>RelayFollow\<close>, \<open>RelayK8sProps\<close> (\<open>vigil-log-relay/src\<close>): filter,
    sources, the TCP sink as a step relation that delivers in order, options, the Kubernetes
    source as a step relation with its tasks, permits and requests; the relay behind the daemon's
    own follow stream, in both formats, with keep-alives.

  \<^bold>\<open>How it is modelled.\<close> A struct is a record, an enum a datatype, an \<open>IndexMap\<close> an association list, a
  \<open>u32\<close> or \<open>u64\<close> whose overflow can matter a word. A task is a function from its state and one
  wake-up (a message, an exit, a timer) to its next state; effects on the world (spawning, killing,
  replying, sending an event, setting a gauge) are appended to a trace in the state. \<open>?\<close> and panics
  are branches: sums and options for errors, \<open>Deadlocked\<close> and \<open>OvPanicked\<close> for a handler that waits
  for ever or panics. What comes from outside is a parameter: system calls and their failures (\<open>os\<close>,
  \<open>fs_calls\<close>, \<open>layer_fs\<close>), the clock, randomness, DNS and sockets, YAML, JSON and template engines,
  password and certificate checks, TLS, the iteration order of hash maps.

  \<^bold>\<open>Bounds.\<close> The event channel of the services holds 256 events and a start sends two, hence the 128
  services of \<open>startup_hangs\<close>; the relay's channel holds 8192 lines; the shutdown queue one action.
  Restart counters are 32-bit and saturate or wrap as the source does; the change counter has 64
  bits, and the theorems that need different numbers for different changes assume fewer than
  \<open>2 ^ 64\<close> of them. Loops are structural or have a measure; none runs on fuel. A task that runs for
  ever is a step relation, and the theorems hold for every reachable state.

  \<^bold>\<open>What is simplified.\<close>

  \<^item> While a handler of the overlord waits for the reply of one actor, only that actor runs; all tasks
    interleave freely between handlers. The first autostart, where this matters most, is also
    modelled with every other actor running between its starts (\<open>autostart_run\<close>). \<open>stop_all\<close> sends to the services one after the other.
  \<^item> The mailboxes of the actors (32 commands for a service, 16 for a check) are unbounded, and in
    \<open>daemon_step\<close> a probe with the events it sends is one step of its check: a query that waits for a
    probe to end, or for a check that waits for room in the event channel, is seen in \<open>CheckQuery\<close>
    only.
  \<^item> The next tick of a check comes one period after the last one; \<open>tokio\<close>'s interval keeps its
    original grid unless a tick was late.
  \<^item> A request of the API and its reply are one step; requests are served one at a time.
  \<^item> The text handled is ASCII where byte and character positions could differ (columns of tables,
    cut strings); time stamps are integers, and their printed form a parameter.
  \<^item> A payload sent by the client, and a reply's envelope, is the value that was encoded; the theorems
    on round trips assume that the JSON decoder reads back what the encoder wrote.

  \<^bold>\<open>Not modelled.\<close> The crates the source calls: \<open>tokio\<close>'s scheduler, \<open>axum\<close> and \<open>hyper\<close> (accept loops, path
  matching beyond the table of routes, extractors), \<open>rustls\<close> and \<open>rcgen\<close>, \<open>reqwest\<close>, \<open>clap\<close> and \<open>serde\<close>
  (names of options and fields), \<open>prometheus-client\<close> (the text of the metrics), \<open>tracing\<close>, \<open>kube\<close>'s
  watcher. Log messages of the programs, the OpenAPI document and the documentation page, and the
  tests in the source files.

  \<^bold>\<open>What the theorems show.\<close> Each component has its invariant or its contract over all reachable
  states; the equivalences compare an operation with a reference definition (durations, merging,
  checks, the relay's formats, followed logs); refinements relate an actor with the mirror it shows
  (events, gauges) and the sink with a queue; the theorems on access, processes, sockets and
  credentials are safety statements over every input; the theorems on errors cover every way the start,
  a delivery or a command can fail. Where the code departs from its documentation the theorem states
  what the code does: processes orphaned by a start during a backoff, the start and
  the query of checks that hang, the configuration a reload keeps, the streams of deleted pods, and services left behind by a bad TLS
  set-up.
\<close>

end
